(* ===== verification/Go_Prelude.thy ===== *)
theory Go_Prelude
  imports Main "HOL-Library.Sublist"
begin

text \<open>
  What every component shares: Go errors as values, dynamically typed values (\<open>any\<close>),
  instants and durations, and the functions of package \<open>strings\<close> that the repository calls.
  A Go string is a list of bytes, here \<^typ>\<open>char list\<close>. The functions that look at character
  classes (\<open>strings.TrimSpace\<close>, \<open>strings.Fields\<close>, \<open>strings.ToLower\<close>,
  \<open>strings.EqualFold\<close>) are modelled on the ASCII range, where one byte is one character.
  A nil pointer, nil interface or nil error is \<^term>\<open>None\<close>.
\<close>

section \<open>Collections of rewrite rules\<close>

named_theorems return_iff
named_theorems str_simps \<open>facts about the string functions\<close>
named_theorems frame_simps \<open>what an operation leaves unchanged\<close>

section \<open>Errors\<close>

text \<open>
  A package-level \<open>errors.New\<close> value is identified by its package and its text; an error built in
  place by \<open>fmt.Errorf\<close> without \<open>%w\<close> (or by \<open>errors.New\<close> inside a function) by its text;
  \<open>ErrWrap t e\<close> is \<open>fmt.Errorf\<close> with \<open>%w\<close>, \<open>t\<close> being the whole text. \<open>ErrExt\<close> is an error
  value made by code outside the repository.
\<close>

datatype go_error =
    ErrNew string string
  | Errorf string
  | ErrWrap string go_error
  | ErrJoin "go_error list"
  | CtxCanceled
  | CtxDeadlineExceeded
  | ErrExt string

fun strings_Join :: "string list \<Rightarrow> string \<Rightarrow> string" where
  "strings_Join [] sep = []"
| "strings_Join [x] sep = x"
| "strings_Join (x # y # ys) sep = x @ sep @ strings_Join (y # ys) sep"

fun error_text :: "go_error \<Rightarrow> string" where
  "error_text (ErrNew pkg t) = t"
| "error_text (Errorf t) = t"
| "error_text (ErrWrap t e) = t"
| "error_text (ErrJoin es) = strings_Join (map error_text es) [CHR 0x0A]"
| "error_text CtxCanceled = ''context canceled''"
| "error_text CtxDeadlineExceeded = ''context deadline exceeded''"
| "error_text (ErrExt t) = t"

definition wrapf :: "string \<Rightarrow> go_error \<Rightarrow> string \<Rightarrow> go_error" where
  "wrapf before e after = ErrWrap (before @ error_text e @ after) e"

fun errors_Is :: "go_error \<Rightarrow> go_error \<Rightarrow> bool" where
  "errors_Is (ErrWrap t e) target = (ErrWrap t e = target \<or> errors_Is e target)"
| "errors_Is (ErrJoin es) target = (ErrJoin es = target \<or> (\<exists>e\<in>set es. errors_Is e target))"
| "errors_Is e target = (e = target)"

definition errors_Join :: "go_error list \<Rightarrow> go_error option" where
  "errors_Join es = (if es = [] then None else Some (ErrJoin es))"

text \<open>The outcome of code that may panic.\<close>

datatype 'a outcome = Ret 'a | Panic go_error

text \<open>The panic of a method call on a nil pointer or interface.\<close>

definition nil_dereference :: go_error where
  "nil_dereference = ErrExt ''invalid memory address or nil pointer dereference''"

section \<open>Dynamically typed values\<close>

datatype any =
    ANil
  | ABool bool
  | ANum int
  | AStr string
  | AList "any list"
  | AMap "string \<Rightarrow> any option"

section \<open>Instants and durations\<close>

text \<open>
  An instant is the number of nanoseconds since Go's zero \<open>time.Time\<close>; a duration is an
  \<open>int64\<close> count of nanoseconds. \<open>Time.Sub\<close> saturates at the limits of \<open>int64\<close>.
\<close>

type_synonym gtime = int
type_synonym duration = int

definition time_IsZero :: "gtime \<Rightarrow> bool" where
  "time_IsZero t \<longleftrightarrow> t = 0"

definition maxDuration :: duration where
  "maxDuration = 2 ^ 63 - 1"

definition minDuration :: duration where
  "minDuration = - (2 ^ 63)"

definition time_Sub :: "gtime \<Rightarrow> gtime \<Rightarrow> duration" where
  "time_Sub t u = max minDuration (min maxDuration (t - u))"

definition Nanosecond :: duration where "Nanosecond = 1"
definition Microsecond :: duration where "Microsecond = 1000"
definition Millisecond :: duration where "Millisecond = 1000000"
definition Second :: duration where "Second = 1000000000"
definition Minute :: duration where "Minute = 60000000000"
definition Hour :: duration where "Hour = 3600000000000"

section \<open>Package strings\<close>

definition is_space :: "char \<Rightarrow> bool" where
  "is_space c \<longleftrightarrow>
     c = CHR 0x20 \<or> c = CHR 0x09 \<or> c = CHR 0x0A \<or> c = CHR 0x0B \<or> c = CHR 0x0C \<or> c = CHR 0x0D"

definition trim_left :: "(char \<Rightarrow> bool) \<Rightarrow> string \<Rightarrow> string" where
  "trim_left p s = dropWhile p s"

definition trim_right :: "(char \<Rightarrow> bool) \<Rightarrow> string \<Rightarrow> string" where
  "trim_right p s = rev (dropWhile p (rev s))"

definition trim_func :: "(char \<Rightarrow> bool) \<Rightarrow> string \<Rightarrow> string" where
  "trim_func p s = trim_right p (trim_left p s)"

definition strings_TrimSpace :: "string \<Rightarrow> string" where
  "strings_TrimSpace s = trim_func is_space s"

definition strings_Trim :: "string \<Rightarrow> string \<Rightarrow> string" where
  "strings_Trim s cutset = trim_func (\<lambda>c. c \<in> set cutset) s"

definition strings_TrimRight :: "string \<Rightarrow> string \<Rightarrow> string" where
  "strings_TrimRight s cutset = trim_right (\<lambda>c. c \<in> set cutset) s"

definition strings_HasPrefix :: "string \<Rightarrow> string \<Rightarrow> bool" where
  "strings_HasPrefix s pre \<longleftrightarrow> take (length pre) s = pre"

definition strings_HasSuffix :: "string \<Rightarrow> string \<Rightarrow> bool" where
  "strings_HasSuffix s suf \<longleftrightarrow>
     length suf \<le> length s \<and> drop (length s - length suf) s = suf"

definition strings_TrimPrefix :: "string \<Rightarrow> string \<Rightarrow> string" where
  "strings_TrimPrefix s pre = (if strings_HasPrefix s pre then drop (length pre) s else s)"

definition strings_TrimSuffix :: "string \<Rightarrow> string \<Rightarrow> string" where
  "strings_TrimSuffix s suf =
     (if strings_HasSuffix s suf then take (length s - length suf) s else s)"

fun strings_Cut :: "string \<Rightarrow> string \<Rightarrow> (string \<times> string) option" where
  "strings_Cut [] sep = (if sep = [] then Some ([], []) else None)"
| "strings_Cut (c # cs) sep =
     (if strings_HasPrefix (c # cs) sep then Some ([], drop (length sep) (c # cs))
      else map_option (\<lambda>(a, b). (c # a, b)) (strings_Cut cs sep))"

definition strings_Contains :: "string \<Rightarrow> string \<Rightarrow> bool" where
  "strings_Contains s sub \<longleftrightarrow> strings_Cut s sub \<noteq> None"

definition strings_SplitN2 :: "string \<Rightarrow> string \<Rightarrow> string list" where
  "strings_SplitN2 s sep =
     (case strings_Cut s sep of None \<Rightarrow> [s] | Some (a, b) \<Rightarrow> [a, b])"

lemma strings_Cut_Some:
  "strings_Cut s sep = Some (a, b) \<Longrightarrow> s = a @ sep @ b"
proof (induction s arbitrary: a b)
  case Nil
  then show ?case by (auto split: if_splits)
next
  case (Cons c cs)
  show ?case
  proof (cases "strings_HasPrefix (c # cs) sep")
    case True
    then have "c # cs = sep @ drop (length sep) (c # cs)"
      by (metis append_take_drop_id strings_HasPrefix_def)
    with Cons.prems True show ?thesis by auto
  next
    case False
    with Cons.prems obtain a' where "strings_Cut cs sep = Some (a', b)" "a = c # a'"
      by auto
    with Cons.IH show ?thesis by auto
  qed
qed

text \<open>
  \<open>strings.Split\<close> for a separator that is not empty, which is the only use the repository makes
  of it (all separators are non-empty constants).
\<close>

function strings_Split :: "string \<Rightarrow> string \<Rightarrow> string list" where
  "strings_Split s sep =
     (if sep = [] then [s]
      else case strings_Cut s sep of None \<Rightarrow> [s] | Some (a, b) \<Rightarrow> a # strings_Split b sep)"
  by pat_completeness auto
termination
  by (relation "measure (\<lambda>(s, sep). length s)") (auto dest!: strings_Cut_Some)

declare strings_Split.simps [simp del]

definition strings_ReplaceAll :: "string \<Rightarrow> string \<Rightarrow> string \<Rightarrow> string" where
  "strings_ReplaceAll s old new = strings_Join (strings_Split s old) new"

function strings_Fields :: "string \<Rightarrow> string list" where
  "strings_Fields [] = []"
| "strings_Fields (c # cs) =
     (if is_space c then strings_Fields cs
      else (c # takeWhile (\<lambda>d. \<not> is_space d) cs) #
           strings_Fields (dropWhile (\<lambda>d. \<not> is_space d) cs))"
  by pat_completeness auto
termination
  by (relation "measure length") (auto simp: less_Suc_eq_le length_dropWhile_le)

definition to_lower :: "char \<Rightarrow> char" where
  "to_lower c =
     (if 65 \<le> (of_char c :: nat) \<and> (of_char c :: nat) \<le> 90
      then char_of ((of_char c :: nat) + 32) else c)"

definition strings_ToLower :: "string \<Rightarrow> string" where
  "strings_ToLower s = map to_lower s"

definition strings_EqualFold :: "string \<Rightarrow> string \<Rightarrow> bool" where
  "strings_EqualFold s t \<longleftrightarrow> strings_ToLower s = strings_ToLower t"

text \<open>
  The helper \<open>firstNonEmpty(values ...string)\<close> is declared, with the same body, in the packages
  access, audit, casdoor, db and objectstore.
\<close>

fun firstNonEmpty :: "string list \<Rightarrow> string" where
  "firstNonEmpty [] = []"
| "firstNonEmpty (v # vs) = (if v \<noteq> [] then v else firstNonEmpty vs)"

section \<open>Facts about errors\<close>

lemma errors_Is_refl [simp]: "errors_Is e e"
  by (cases e) auto

lemma errors_Is_wrapf [simp]: "errors_Is (wrapf b e a) t \<longleftrightarrow> wrapf b e a = t \<or> errors_Is e t"
  by (simp add: wrapf_def)

lemma errors_Join_None [simp]: "errors_Join es = None \<longleftrightarrow> es = []"
  by (simp add: errors_Join_def)

lemma errors_Join_Is: "errors_Join es = Some j \<Longrightarrow> e \<in> set es \<Longrightarrow> errors_Is j e"
  using errors_Is_refl [of e] by (fastforce simp: errors_Join_def split: if_splits)

section \<open>Facts about strings\<close>

lemma trim_right_eq_Nil [str_simps]: "trim_right p s = [] \<longleftrightarrow> (\<forall>c\<in>set s. p c)"
  by (simp add: trim_right_def)

lemma trim_left_eq_Nil [str_simps]: "trim_left p s = [] \<longleftrightarrow> (\<forall>c\<in>set s. p c)"
  by (simp add: trim_left_def)

lemma trim_func_eq_Nil [str_simps]: "trim_func p s = [] \<longleftrightarrow> (\<forall>c\<in>set s. p c)"
proof -
  have "(\<forall>c\<in>set (dropWhile p s). p c) \<longleftrightarrow> (\<forall>c\<in>set s. p c)"
    by (metis dropWhile_eq_Nil_conv hd_dropWhile hd_in_set set_dropWhileD)
  then show ?thesis
    by (simp add: trim_func_def trim_left_def trim_right_eq_Nil)
qed

lemma set_trim_func: "set (trim_func p s) \<subseteq> set s"
  by (auto simp: trim_func_def trim_right_def trim_left_def dest!: set_dropWhileD)

lemma trim_left_id: "s = [] \<or> \<not> p (hd s) \<Longrightarrow> trim_left p s = s"
  by (cases s) (auto simp: trim_left_def)

lemma trim_right_id: "s = [] \<or> \<not> p (last s) \<Longrightarrow> trim_right p s = s"
  by (cases s rule: rev_cases) (auto simp: trim_right_def)

lemma trim_func_id: "s = [] \<or> \<not> p (hd s) \<and> \<not> p (last s) \<Longrightarrow> trim_func p s = s"
  by (auto simp: trim_func_def trim_left_id trim_right_id)

lemma last_trim_right: "trim_right p s \<noteq> [] \<Longrightarrow> \<not> p (last (trim_right p s))"
  by (metis hd_dropWhile last_rev rev_is_Nil_conv rev_rev_ident trim_right_def)

lemma hd_trim_right: "trim_right p s \<noteq> [] \<Longrightarrow> hd (trim_right p s) = hd s"
proof (induction s)
  case Nil
  then show ?case by (simp add: trim_right_def)
next
  case (Cons c s)
  then show ?case
    by (auto simp: trim_right_def dropWhile_append)
qed

lemma trim_func_ends:
  assumes "trim_func p s \<noteq> []"
  shows "\<not> p (hd (trim_func p s))" and "\<not> p (last (trim_func p s))"
proof -
  from assms have ne: "trim_left p s \<noteq> []"
    by (auto simp: trim_func_def trim_right_def)
  then have "\<not> p (hd (trim_left p s))"
    using hd_dropWhile [of p s] by (simp add: trim_left_def)
  with assms show "\<not> p (hd (trim_func p s))"
    by (simp add: trim_func_def hd_trim_right)
  from assms show "\<not> p (last (trim_func p s))"
    by (simp add: trim_func_def last_trim_right)
qed

lemma trim_func_idem [simp]: "trim_func p (trim_func p s) = trim_func p s"
  by (rule trim_func_id) (use trim_func_ends in blast)

lemma TrimSpace_idem [simp]: "strings_TrimSpace (strings_TrimSpace s) = strings_TrimSpace s"
  by (simp add: strings_TrimSpace_def)

lemma TrimSpace_Nil [simp]: "strings_TrimSpace [] = []"
  by (simp add: strings_TrimSpace_def str_simps)

lemma TrimSpace_blank [str_simps]: "strings_TrimSpace s = [] \<longleftrightarrow> (\<forall>c\<in>set s. is_space c)"
  by (simp add: strings_TrimSpace_def str_simps)

lemma TrimSpace_id: "\<forall>c\<in>set s. \<not> is_space c \<Longrightarrow> strings_TrimSpace s = s"
  unfolding strings_TrimSpace_def by (rule trim_func_id) (use hd_in_set last_in_set in blast)

lemma Trim_id: "\<forall>c\<in>set s. c \<notin> set cutset \<Longrightarrow> strings_Trim s cutset = s"
  unfolding strings_Trim_def by (rule trim_func_id) (use hd_in_set last_in_set in blast)

lemma firstNonEmpty_eq_Nil [simp]: "firstNonEmpty vs = [] \<longleftrightarrow> (\<forall>v\<in>set vs. v = [])"
  by (induction vs) auto

lemma firstNonEmpty_in: "firstNonEmpty vs \<noteq> [] \<Longrightarrow> firstNonEmpty vs \<in> set vs"
  by (induction vs) auto

lemma HasPrefix_iff [str_simps]: "strings_HasPrefix s pre \<longleftrightarrow> (\<exists>t. s = pre @ t)"
  by (metis append_eq_conv_conj append_take_drop_id strings_HasPrefix_def)

lemma HasPrefix_append [simp]: "strings_HasPrefix (pre @ t) pre"
  by (auto simp: HasPrefix_iff)

lemma HasSuffix_iff [str_simps]: "strings_HasSuffix s suf \<longleftrightarrow> (\<exists>t. s = t @ suf)"
proof
  assume "strings_HasSuffix s suf"
  then have "s = take (length s - length suf) s @ suf"
    by (metis append_take_drop_id strings_HasSuffix_def)
  then show "\<exists>t. s = t @ suf" by blast
qed (auto simp: strings_HasSuffix_def)

lemma TrimSuffix_append [simp]: "strings_TrimSuffix (t @ suf) suf = t"
  by (auto simp: strings_TrimSuffix_def HasSuffix_iff)

lemma TrimSuffix_id: "\<nexists>t. s = t @ suf \<Longrightarrow> strings_TrimSuffix s suf = s"
  by (auto simp: strings_TrimSuffix_def HasSuffix_iff)

lemma TrimPrefix_append [simp]: "strings_TrimPrefix (pre @ t) pre = t"
  by (simp add: strings_TrimPrefix_def)

subsection \<open>Cutting and splitting\<close>

lemma strings_Cut_None:
  "strings_Cut s sep = None \<longleftrightarrow> (\<nexists>a b. s = a @ sep @ b)"
proof (induction s)
  case Nil
  then show ?case by auto
next
  case (Cons c cs)
  have "(\<exists>a b. c # cs = a @ sep @ b) \<longleftrightarrow>
      strings_HasPrefix (c # cs) sep \<or> (\<exists>a b. cs = a @ sep @ b)"
    by (auto simp: HasPrefix_iff Cons_eq_append_conv)
  with Cons show ?case by auto
qed

lemma Contains_iff [str_simps]: "strings_Contains s sub \<longleftrightarrow> (\<exists>a b. s = a @ sub @ b)"
  using strings_Cut_None [of s sub] by (auto simp: strings_Contains_def)

lemma strings_Cut_char:
  "c \<notin> set a \<Longrightarrow> strings_Cut (a @ c # b) [c] = Some (a, b)"
  by (induction a) (auto simp: strings_HasPrefix_def)

lemma strings_Cut_char_None: "c \<notin> set s \<Longrightarrow> strings_Cut s [c] = None"
  by (auto simp: strings_Cut_None)

lemma Split_nonempty [simp]: "strings_Split s sep \<noteq> []"
  by (subst strings_Split.simps) (auto split: option.splits)

lemma Join_Cons: "xs \<noteq> [] \<Longrightarrow> strings_Join (x # xs) sep = x @ sep @ strings_Join xs sep"
  by (cases xs) auto

lemma Join_Split: "sep \<noteq> [] \<Longrightarrow> strings_Join (strings_Split s sep) sep = s"
proof (induction s sep rule: strings_Split.induct)
  case (1 s sep)
  show ?case
  proof (cases "strings_Cut s sep")
    case None
    then show ?thesis by (simp add: strings_Split.simps [of s sep])
  next
    case (Some ab)
    obtain a b where ab: "ab = (a, b)" by (cases ab)
    with 1 Some have "strings_Join (strings_Split b sep) sep = b" by simp
    moreover from Some ab \<open>sep \<noteq> []\<close> have "strings_Split s sep = a # strings_Split b sep"
      by (simp add: strings_Split.simps [of s sep])
    moreover from Some ab have "s = a @ sep @ b" by (simp add: strings_Cut_Some)
    ultimately show ?thesis by (simp add: Join_Cons)
  qed
qed

lemma Split_char_free: "c \<notin> set s \<Longrightarrow> strings_Split s [c] = [s]"
  by (subst strings_Split.simps) (simp add: strings_Cut_char_None)

lemma Split_Join:
  "xs \<noteq> [] \<Longrightarrow> \<forall>x\<in>set xs. c \<notin> set x \<Longrightarrow> strings_Split (strings_Join xs [c]) [c] = xs"
proof (induction xs)
  case Nil
  then show ?case by simp
next
  case (Cons x xs)
  show ?case
  proof (cases "xs = []")
    case True
    with Cons.prems show ?thesis by (simp add: Split_char_free)
  next
    case False
    with Cons have IH: "strings_Split (strings_Join xs [c]) [c] = xs" by simp
    have "strings_Cut (x @ c # strings_Join xs [c]) [c] = Some (x, strings_Join xs [c])"
      using Cons.prems by (intro strings_Cut_char) auto
    with IH show ?thesis
      using False by (subst strings_Split.simps) (simp add: Join_Cons)
  qed
qed

lemma Join_inject:
  assumes "strings_Join xs [c] = strings_Join ys [c]" and "xs \<noteq> []" and "ys \<noteq> []"
    and "\<forall>x\<in>set xs. c \<notin> set x" and "\<forall>y\<in>set ys. c \<notin> set y"
  shows "xs = ys"
  using assms Split_Join by metis

subsection \<open>Replacing substrings\<close>

lemma Cut_first:
  "strings_Cut s sep = Some (a, b) \<Longrightarrow> sep \<noteq> [] \<Longrightarrow> \<not> strings_Contains a sep"
proof (induction s arbitrary: a b)
  case Nil
  then show ?case by simp
next
  case (Cons c cs)
  show ?case
  proof (cases "strings_HasPrefix (c # cs) sep")
    case True
    with Cons.prems show ?thesis by (auto simp: Contains_iff)
  next
    case False
    with Cons.prems obtain a' where a': "strings_Cut cs sep = Some (a', b)" "a = c # a'" by auto
    have "c # cs = a @ sep @ b" using strings_Cut_Some [OF Cons.prems(1)] .
    with False have "\<not> strings_HasPrefix a sep"
      by (metis HasPrefix_iff append.assoc)
    moreover have "\<not> strings_Contains a' sep" using Cons.IH a' Cons.prems(2) by blast
    ultimately show ?thesis
      using a' by (auto simp: Contains_iff HasPrefix_iff Cons_eq_append_conv)
  qed
qed

lemma Split_pieces:
  "sep \<noteq> [] \<Longrightarrow> x \<in> set (strings_Split s sep) \<Longrightarrow> \<not> strings_Contains x sep"
proof (induction s sep rule: strings_Split.induct)
  case (1 s sep)
  show ?case
  proof (cases "strings_Cut s sep")
    case None
    with 1 show ?thesis by (auto simp: strings_Split.simps [of s sep] strings_Contains_def)
  next
    case (Some ab)
    obtain a b where ab: "ab = (a, b)" by (cases ab)
    with Some "1.prems" consider "x = a" | "x \<in> set (strings_Split b sep)"
      by (auto simp: strings_Split.simps [of s sep])
    then show ?thesis
    proof cases
      case 1
      with Some ab "1.prems" show ?thesis by (simp add: Cut_first)
    next
      case 2
      with "1.IH" [OF "1.prems"(1) Some, of a b] ab "1.prems"(1) show ?thesis by simp
    qed
  qed
qed

lemma set_Join: "set (strings_Join xs sep) \<subseteq> \<Union> (set ` set xs) \<union> set sep"
  by (induction xs sep rule: strings_Join.induct) auto

lemma set_Split: "sep \<noteq> [] \<Longrightarrow> x \<in> set (strings_Split s sep) \<Longrightarrow> set x \<subseteq> set s"
proof (induction s sep rule: strings_Split.induct)
  case (1 s sep)
  show ?case
  proof (cases "strings_Cut s sep")
    case None
    with "1.prems" show ?thesis by (auto simp: strings_Split.simps [of s sep])
  next
    case (Some ab)
    obtain a b where ab: "ab = (a, b)" by (cases ab)
    with Some have s: "s = a @ sep @ b" by (simp add: strings_Cut_Some)
    from Some ab "1.prems" consider "x = a" | "x \<in> set (strings_Split b sep)"
      by (auto simp: strings_Split.simps [of s sep])
    then show ?thesis
    proof cases
      case 2
      with "1.IH" [OF "1.prems"(1) Some, of a b] ab "1.prems"(1) have "set x \<subseteq> set b" by simp
      with s show ?thesis by auto
    qed (use s in auto)
  qed
qed

text \<open>A pattern without the new separator cannot straddle it.\<close>

lemma Contains_Join:
  assumes "strings_Contains (strings_Join xs [c]) pat" and "c \<notin> set pat" and "pat \<noteq> []"
  shows "\<exists>x\<in>set xs. strings_Contains x pat"
  using assms(1)
proof (induction xs)
  case Nil
  with assms(3) show ?case by (simp add: Contains_iff)
next
  case (Cons x xs)
  show ?case
  proof (cases "xs = []")
    case True
    with Cons.prems show ?thesis by simp
  next
    case False
    with Cons.prems obtain u v where eq: "x @ c # strings_Join xs [c] = u @ pat @ v"
      by (auto simp: Contains_iff Join_Cons)
    then consider t where "x = u @ t" "t @ c # strings_Join xs [c] = pat @ v"
      | t where "u = x @ t" "c # strings_Join xs [c] = t @ pat @ v"
      by (auto simp: append_eq_append_conv2)
    then show ?thesis
    proof cases
      case 1
      then obtain t' where "t = pat @ t'"
        using assms(2) by (auto simp: append_eq_append_conv2 Cons_eq_append_conv)
      with 1 show ?thesis by (auto simp: Contains_iff)
    next
      case 2
      then have "t \<noteq> []" using assms(2,3) by (auto simp: Cons_eq_append_conv)
      with 2 have "strings_Contains (strings_Join xs [c]) pat"
        by (auto simp: Contains_iff Cons_eq_append_conv)
      with Cons.IH show ?thesis by auto
    qed
  qed
qed

lemma ReplaceAll_absent: "\<not> strings_Contains s old \<Longrightarrow> strings_ReplaceAll s old new = s"
  by (cases "strings_Cut s old")
    (auto simp: strings_ReplaceAll_def strings_Split.simps [of s old] strings_Contains_def)

lemma ReplaceAll_removes:
  "old \<noteq> [] \<Longrightarrow> c \<notin> set old \<Longrightarrow> \<not> strings_Contains (strings_ReplaceAll s old [c]) old"
  using Contains_Join [of "strings_Split s old" c old] Split_pieces [of old _ s]
  by (auto simp: strings_ReplaceAll_def)

lemma set_ReplaceAll: "old \<noteq> [] \<Longrightarrow> set (strings_ReplaceAll s old new) \<subseteq> set s \<union> set new"
  using set_Join [of "strings_Split s old" new] set_Split [of old _ s]
  by (fastforce simp: strings_ReplaceAll_def)

lemma Contains_char: "strings_Contains s [c] \<longleftrightarrow> c \<in> set s"
  by (auto simp: Contains_iff in_set_conv_decomp)

lemma Split_Cons:
  assumes "old \<noteq> []" and "c \<notin> set old"
  shows "strings_Split (c # s) old = (c # hd (strings_Split s old)) # tl (strings_Split s old)"
proof -
  have "\<not> strings_HasPrefix (c # s) old"
    using assms by (cases old) (auto simp: strings_HasPrefix_def)
  then show ?thesis
    using assms(1)
    by (cases "strings_Cut s old")
      (auto simp: strings_Split.simps [of "c # s" old] strings_Split.simps [of s old])
qed

lemma ReplaceAll_char:
  "strings_ReplaceAll s [c] new = concat (map (\<lambda>d. if d = c then new else [d]) s)"
proof (induction s)
  case Nil
  then show ?case by (simp add: strings_ReplaceAll_def strings_Split.simps)
next
  case (Cons d s)
  show ?case
  proof (cases "d = c")
    case True
    have "strings_Split (c # s) [c] = [] # strings_Split s [c]"
      by (subst strings_Split.simps) (simp add: strings_HasPrefix_def)
    with True Cons show ?thesis by (simp add: strings_ReplaceAll_def Join_Cons)
  next
    case False
    have "strings_Join ((d # x) # xs) new = d # strings_Join (x # xs) new" for x xs
      by (cases xs) simp_all
    then have "strings_Join (strings_Split (d # s) [c]) new = d # strings_Join (strings_Split s [c]) new"
      using False by (subst Split_Cons) simp_all
    with False Cons show ?thesis by (simp add: strings_ReplaceAll_def)
  qed
qed

lemma HasPrefix_snoc:
  assumes "old \<noteq> []" and "c \<notin> set old"
  shows "strings_HasPrefix (s @ [c]) old \<longleftrightarrow> strings_HasPrefix s old"
proof
  assume "strings_HasPrefix (s @ [c]) old"
  then obtain t where t: "s @ [c] = old @ t" by (auto simp: HasPrefix_iff)
  show "strings_HasPrefix s old"
  proof (cases t rule: rev_cases)
    case Nil
    with t assms show ?thesis by (metis append_Nil2 in_set_conv_decomp)
  next
    case (snoc t' e)
    with t show ?thesis by (auto simp: HasPrefix_iff)
  qed
qed (auto simp: HasPrefix_iff)

lemma Cut_snoc:
  assumes "old \<noteq> []" and "c \<notin> set old"
  shows "strings_Cut (s @ [c]) old = map_option (\<lambda>(a, b). (a, b @ [c])) (strings_Cut s old)"
proof (induction s)
  case Nil
  have "\<not> strings_HasPrefix [c] old"
    using assms by (cases old) (auto simp: strings_HasPrefix_def)
  with assms(1) show ?case by simp
next
  case (Cons d s)
  have "strings_HasPrefix (d # s @ [c]) old \<longleftrightarrow> strings_HasPrefix (d # s) old"
    using HasPrefix_snoc [OF assms, of "d # s"] by simp
  moreover have "length old \<le> length (d # s)" if "strings_HasPrefix (d # s) old"
    using that by (auto simp: HasPrefix_iff dest!: arg_cong [where f = length])
  moreover have "drop n (d # s @ [c]) = drop n (d # s) @ [c]" if "n \<le> length (d # s)" for n
    using drop_append [of n "d # s" "[c]"] that by simp
  ultimately show ?case
    using Cons by (cases "strings_Cut s old") auto
qed

lemma Join_append_last:
  "xs \<noteq> [] \<Longrightarrow> strings_Join (butlast xs @ [last xs @ t]) sep = strings_Join xs sep @ t"
  by (induction xs sep rule: strings_Join.induct) (auto simp: Join_Cons)

lemma Split_snoc:
  assumes "old \<noteq> []" and "c \<notin> set old"
  shows "strings_Split (s @ [c]) old =
    butlast (strings_Split s old) @ [last (strings_Split s old) @ [c]]"
  using assms
proof (induction s old rule: strings_Split.induct)
  case (1 s old)
  show ?case
  proof (cases "strings_Cut s old")
    case None
    with 1 show ?thesis
      by (simp add: strings_Split.simps [of "s @ [c]" old] strings_Split.simps [of s old] Cut_snoc)
  next
    case (Some ab)
    obtain a b where ab: "ab = (a, b)" by (cases ab)
    with 1 Some show ?thesis
      by (simp add: strings_Split.simps [of "s @ [c]" old] strings_Split.simps [of s old] Cut_snoc)
  qed
qed

text \<open>A first or last character that does not occur in the pattern stays where it is.\<close>

lemma ReplaceAll_Cons:
  assumes "old \<noteq> []" and "c \<notin> set old"
  shows "strings_ReplaceAll (c # s) old new = c # strings_ReplaceAll s old new"
proof -
  obtain x xs where "strings_Split s old = x # xs" by (cases "strings_Split s old") auto
  with assms show ?thesis
    by (cases xs) (simp_all add: strings_ReplaceAll_def Split_Cons)
qed

lemma ReplaceAll_snoc:
  assumes "old \<noteq> []" and "c \<notin> set old"
  shows "strings_ReplaceAll (s @ [c]) old new = strings_ReplaceAll s old new @ [c]"
  using assms by (simp add: strings_ReplaceAll_def Split_snoc Join_append_last)

lemma ReplaceAll_ends:
  assumes "s \<noteq> []" and "old \<noteq> []" and "hd s \<notin> set old" and "last s \<notin> set old"
  shows "strings_ReplaceAll s old new \<noteq> [] \<and> hd (strings_ReplaceAll s old new) = hd s \<and>
    last (strings_ReplaceAll s old new) = last s"
proof -
  obtain c t where s: "s = c # t" using assms(1) by (cases s) auto
  obtain t' d where s': "s = t' @ [d]" using assms(1) by (cases s rule: rev_cases) auto
  have "strings_ReplaceAll s old new = c # strings_ReplaceAll t old new"
    using assms s by (simp add: ReplaceAll_Cons)
  moreover have "strings_ReplaceAll s old new = strings_ReplaceAll t' old new @ [d]"
    using assms s' by (simp add: ReplaceAll_snoc)
  ultimately show ?thesis using s s' by (metis hd_append last_snoc list.sel(1) list.discI)
qed

lemma trim_func_infix: "\<exists>u v. s = u @ trim_func p s @ v"
proof -
  have "s = takeWhile p s @ trim_left p s" by (simp add: trim_left_def)
  moreover have "t = trim_right p t @ rev (takeWhile p (rev t))" for t
    unfolding trim_right_def by (metis rev_append rev_rev_ident takeWhile_dropWhile_id)
  ultimately show ?thesis by (metis trim_func_def)
qed

lemma Contains_TrimSpace: "strings_Contains (strings_TrimSpace s) pat \<Longrightarrow> strings_Contains s pat"
  using trim_func_infix [of s is_space]
  by (auto simp: Contains_iff strings_TrimSpace_def) (metis append.assoc)

lemma TrimSpace_ends:
  "strings_TrimSpace s \<noteq> [] \<Longrightarrow>
    \<not> is_space (hd (strings_TrimSpace s)) \<and> \<not> is_space (last (strings_TrimSpace s))"
  using trim_func_ends [of is_space s] by (simp add: strings_TrimSpace_def)

lemma TrimSpace_id_ends: "\<not> is_space (hd s) \<Longrightarrow> \<not> is_space (last s) \<Longrightarrow> strings_TrimSpace s = s"
  by (simp add: strings_TrimSpace_def trim_func_id)

lemma Fields_word:
  assumes "w \<noteq> []" and "\<forall>c\<in>set w. \<not> is_space c"
  shows "strings_Fields (w @ CHR '' '' # s) = w # strings_Fields s" and "strings_Fields w = [w]"
proof -
  obtain a as where w: "w = a # as" using assms(1) by (cases w) auto
  have sp: "is_space CHR '' ''" by (simp add: is_space_def)
  have "takeWhile (\<lambda>d. \<not> is_space d) (as @ CHR '' '' # s) = as"
    "dropWhile (\<lambda>d. \<not> is_space d) (as @ CHR '' '' # s) = CHR '' '' # s"
    using assms(2) w sp by (simp_all add: takeWhile_append dropWhile_append)
  with assms(2) w sp show "strings_Fields (w @ CHR '' '' # s) = w # strings_Fields s" by simp
  have "takeWhile (\<lambda>d. \<not> is_space d) as = as" "dropWhile (\<lambda>d. \<not> is_space d) as = []"
    using assms(2) w by (simp_all add: takeWhile_eq_all_conv)
  with assms(2) w show "strings_Fields w = [w]" by (simp del: dropWhile_eq_Nil_conv)
qed

lemma Fields_Join:
  "\<forall>w\<in>set ws. w \<noteq> [] \<and> (\<forall>c\<in>set w. \<not> is_space c) \<Longrightarrow> strings_Fields (strings_Join ws '' '') = ws"
proof (induction ws)
  case (Cons w ws)
  then have w: "w \<noteq> []" "\<forall>c\<in>set w. \<not> is_space c" by auto
  show ?case
  proof (cases "ws = []")
    case True
    then show ?thesis using Fields_word(2) [OF w] by simp
  next
    case False
    then have "strings_Join (w # ws) '' '' = w @ CHR '' '' # strings_Join ws '' ''"
      by (simp add: Join_Cons)
    with Cons Fields_word(1) [OF w] show ?thesis by simp
  qed
qed simp

lemma Fields_words: "w \<in> set (strings_Fields s) \<Longrightarrow> w \<noteq> [] \<and> (\<forall>c\<in>set w. \<not> is_space c)"
proof (induction s rule: strings_Fields.induct)
  case (2 c cs)
  show ?case
  proof (cases "is_space c")
    case True
    with 2 show ?thesis by simp
  next
    case False
    with "2.prems" consider "w = c # takeWhile (\<lambda>d. \<not> is_space d) cs"
      | "w \<in> set (strings_Fields (dropWhile (\<lambda>d. \<not> is_space d) cs))" by auto
    then show ?thesis
    proof cases
      case 1
      with False show ?thesis by (auto dest: set_takeWhileD)
    next
      case 2
      with "2.IH"(2) [OF False] show ?thesis by blast
    qed
  qed
qed simp

lemma Fields_subset: "w \<in> set (strings_Fields s) \<Longrightarrow> set w \<subseteq> set s"
proof (induction s rule: strings_Fields.induct)
  case (2 c cs)
  show ?case
  proof (cases "is_space c")
    case True
    with 2 show ?thesis by auto
  next
    case False
    with "2.prems" consider "w = c # takeWhile (\<lambda>d. \<not> is_space d) cs"
      | "w \<in> set (strings_Fields (dropWhile (\<lambda>d. \<not> is_space d) cs))" by auto
    then show ?thesis
    proof cases
      case 1
      then show ?thesis by (auto dest: set_takeWhileD)
    next
      case 2
      with "2.IH"(2) [OF False] show ?thesis by (auto dest: set_dropWhileD)
    qed
  qed
qed simp

lemma Fields_blank: "\<forall>c\<in>set s. is_space c \<Longrightarrow> strings_Fields s = []"
  by (induction s) auto

lemma Fields_blank_prefix: "\<forall>c\<in>set a. is_space c \<Longrightarrow> strings_Fields (a @ s) = strings_Fields s"
  by (induction a) auto

lemma Fields_blank_suffix: "\<forall>c\<in>set b. is_space c \<Longrightarrow> strings_Fields (s @ b) = strings_Fields s"
proof (induction s rule: strings_Fields.induct)
  case 1
  then show ?case by (simp add: Fields_blank)
next
  case (2 c cs)
  show ?case
  proof (cases "is_space c")
    case True
    with 2 show ?thesis by simp
  next
    case False
    show ?thesis
    proof (cases "\<forall>d\<in>set cs. \<not> is_space d")
      case True
      have "takeWhile (\<lambda>d. \<not> is_space d) b = []" using 2(3) by (cases b) auto
      moreover have "dropWhile (\<lambda>d. \<not> is_space d) b = b" using 2(3) by (cases b) auto
      moreover have "takeWhile (\<lambda>d. \<not> is_space d) cs = cs" using True by (simp add: takeWhile_eq_all_conv)
      moreover have "dropWhile (\<lambda>d. \<not> is_space d) cs = []" using True by simp
      ultimately show ?thesis
        using False True 2(3)
        by (simp add: takeWhile_append dropWhile_append Fields_blank
              del: dropWhile_eq_Nil_conv takeWhile_eq_all_conv)
    next
      case ex: False
      then have "takeWhile (\<lambda>d. \<not> is_space d) (cs @ b) = takeWhile (\<lambda>d. \<not> is_space d) cs"
        "dropWhile (\<lambda>d. \<not> is_space d) (cs @ b) = dropWhile (\<lambda>d. \<not> is_space d) cs @ b"
        by (auto simp: takeWhile_append dropWhile_append)
      with False "2.IH"(2) [OF False] 2(3) show ?thesis by simp
    qed
  qed
qed

lemma Fields_TrimSpace: "strings_Fields (strings_TrimSpace s) = strings_Fields s"
proof -
  let ?t = "dropWhile is_space s"
  have "s = takeWhile is_space s @ ?t" by simp
  then have "strings_Fields s = strings_Fields ?t"
    using Fields_blank_prefix [of "takeWhile is_space s" ?t] set_takeWhileD by metis
  moreover have "?t = rev (dropWhile is_space (rev ?t)) @ rev (takeWhile is_space (rev ?t))"
    by (metis rev_append rev_rev_ident takeWhile_dropWhile_id)
  then have "strings_Fields ?t = strings_Fields (rev (dropWhile is_space (rev ?t)))"
    using Fields_blank_suffix [of "rev (takeWhile is_space (rev ?t))"] set_takeWhileD
    by (metis set_rev)
  ultimately show ?thesis
    by (simp add: strings_TrimSpace_def trim_func_def trim_left_def trim_right_def)
qed

lemma dropWhile_keeps:
  "pat \<noteq> [] \<Longrightarrow> \<not> p (hd pat) \<Longrightarrow> \<exists>a'. dropWhile p (a @ pat @ b) = a' @ pat @ b"
proof (induction a)
  case Nil
  then have "dropWhile p (pat @ b) = [] @ pat @ b" by (cases pat) auto
  then show ?case by auto
next
  case (Cons c a)
  then show ?case by (cases "p c") (auto intro: exI [of _ "c # a"])
qed

lemma Contains_TrimSpace_keeps:
  assumes "strings_Contains s pat" and "pat \<noteq> []" and "\<not> is_space (hd pat)" "\<not> is_space (last pat)"
  shows "strings_Contains (strings_TrimSpace s) pat"
proof -
  obtain a b where "s = a @ pat @ b" using assms(1) by (auto simp: Contains_iff)
  with dropWhile_keeps [of pat is_space a b] assms obtain a' where
    l: "dropWhile is_space s = a' @ pat @ b" by auto
  have "rev (a' @ pat @ b) = rev b @ rev pat @ rev a'" by simp
  with dropWhile_keeps [of "rev pat" is_space "rev b" "rev a'"] assms obtain b' where
    r: "dropWhile is_space (rev (a' @ pat @ b)) = b' @ rev pat @ rev a'"
    by (metis hd_rev rev_is_Nil_conv)
  have "strings_TrimSpace s = a' @ pat @ rev b'"
    unfolding strings_TrimSpace_def trim_func_def trim_left_def trim_right_def l r by simp
  then show ?thesis by (auto simp: Contains_iff)
qed

text \<open>Evaluation of trimming on literals.\<close>

lemmas trim_eval =
  strings_TrimSpace_def trim_func_def trim_left_def trim_right_def is_space_def

section \<open>Loops that stop at the first error\<close>

text \<open>The loop \<open>for _, x := range xs { if err := f(x); err != nil { return err } }; return nil\<close>.\<close>

fun range_err ::
    "('a \<Rightarrow> 'w \<Rightarrow> go_error option \<times> 'w) \<Rightarrow> 'a list \<Rightarrow> 'w \<Rightarrow> go_error option \<times> 'w" where
  "range_err f [] w = (None, w)"
| "range_err f (x # xs) w =
     (case f x w of
        (Some err, w') \<Rightarrow> (Some err, w')
      | (None, w') \<Rightarrow> range_err f xs w')"

lemma range_err_adds:
  assumes "range_err f xs w = (e, w')"
    and ok: "\<And>x w w'. f x w = (None, w') \<Longrightarrow> V w' = insert (k x) (V w)"
    and err: "\<And>x w err w'. f x w = (Some err, w') \<Longrightarrow> V w' = V w \<or> V w' = insert (k x) (V w)"
  shows "V w \<subseteq> V w' \<and> V w' \<subseteq> V w \<union> k ` set xs \<and> (e = None \<longrightarrow> V w' = V w \<union> k ` set xs)"
  using assms(1)
proof (induction xs arbitrary: w)
  case Nil
  then show ?case by simp
next
  case (Cons x xs)
  obtain e1 w1 where step: "f x w = (e1, w1)" by (cases "f x w")
  show ?case
  proof (cases e1)
    case None
    with Cons step ok [of x w w1] show ?thesis by fastforce
  next
    case (Some er)
    with Cons step err [of x w er w1] show ?thesis by auto
  qed
qed

lemma range_err_removes:
  assumes "range_err f xs w = (e, w')"
    and ok: "\<And>x w w'. f x w = (None, w') \<Longrightarrow> V w' = V w - {k x}"
    and err: "\<And>x w err w'. f x w = (Some err, w') \<Longrightarrow> V w' = V w \<or> V w' = V w - {k x}"
  shows "V w' \<subseteq> V w \<and> V w - k ` set xs \<subseteq> V w' \<and> (e = None \<longrightarrow> V w' = V w - k ` set xs)"
  using assms(1)
proof (induction xs arbitrary: w)
  case Nil
  then show ?case by simp
next
  case (Cons x xs)
  obtain e1 w1 where step: "f x w = (e1, w1)" by (cases "f x w")
  show ?case
  proof (cases e1)
    case None
    with Cons step ok [of x w w1] show ?thesis by fastforce
  next
    case (Some er)
    with Cons step err [of x w er w1] show ?thesis by auto
  qed
qed

end
