(* ===== verification/Go_Numbers.thy ===== *)
theory Go_Numbers
  imports Go_Prelude
begin

text \<open>
  The number functions of Go's standard library that the repository calls: \<open>strconv.Itoa\<close>,
  \<open>strconv.Atoi\<close>, \<open>time.ParseDuration\<close> and hexadecimal encoding. \<open>time.ParseDuration\<close> is
  modelled with its overflow checks on \<open>uint64\<close> and with the two roundings to \<open>float64\<close> by which
  it scales a decimal fraction.
\<close>

section \<open>Decimal numbers\<close>

definition digit_char :: "nat \<Rightarrow> char" where
  "digit_char d = char_of (48 + d)"

definition is_digit :: "char \<Rightarrow> bool" where
  "is_digit c \<longleftrightarrow> 48 \<le> (of_char c :: nat) \<and> (of_char c :: nat) \<le> 57"

definition digit_val :: "char \<Rightarrow> nat" where
  "digit_val c = of_char c - 48"

fun itoa_nat :: "nat \<Rightarrow> string" where
  "itoa_nat n = (if n < 10 then [digit_char n] else itoa_nat (n div 10) @ [digit_char (n mod 10)])"

declare itoa_nat.simps [simp del]

definition strconv_Itoa :: "int \<Rightarrow> string" where
  "strconv_Itoa i = (if i < 0 then ''-'' @ itoa_nat (nat (- i)) else itoa_nat (nat i))"

definition digits_val :: "string \<Rightarrow> nat" where
  "digits_val s = foldl (\<lambda>n c. 10 * n + digit_val c) 0 s"

definition strconv_Atoi :: "string \<Rightarrow> int option" where
  "strconv_Atoi s =
     (let neg = strings_HasPrefix s ''-'';
          body = (if neg \<or> strings_HasPrefix s ''+'' then tl s else s);
          v = (if neg then - int (digits_val body) else int (digits_val body))
      in if body = [] \<or> \<not> list_all is_digit body then None
         else if v < - (2 ^ 63) \<or> 2 ^ 63 \<le> v then None
         else Some v)"

lemma digit_val_char [simp]: "d < 10 \<Longrightarrow> digit_val (digit_char d) = d"
  by (simp add: digit_val_def digit_char_def)

lemma is_digit_char [simp]: "d < 10 \<Longrightarrow> is_digit (digit_char d)"
  by (simp add: is_digit_def digit_char_def)

lemma itoa_nat_digits: "list_all is_digit (itoa_nat n) \<and> itoa_nat n \<noteq> []"
  by (induction n rule: itoa_nat.induct) (subst (1 2) itoa_nat.simps, auto)

lemma digits_val_itoa [simp]: "digits_val (itoa_nat n) = n"
proof (induction n rule: itoa_nat.induct)
  case (1 n)
  then show ?case
    by (subst itoa_nat.simps) (auto simp: digits_val_def)
qed

lemma Atoi_Itoa:
  assumes "- (2 ^ 63) \<le> i" and "i < 2 ^ 63"
  shows "strconv_Atoi (strconv_Itoa i) = Some i"
proof -
  have nosign: "is_digit c \<Longrightarrow> c \<noteq> CHR ''-'' \<and> c \<noteq> CHR ''+''" for c
    by (auto simp: is_digit_def)
  have "\<not> strings_HasPrefix (itoa_nat n) ''-'' \<and> \<not> strings_HasPrefix (itoa_nat n) ''+''" for n
    using itoa_nat_digits [of n] nosign [of "hd (itoa_nat n)"]
    by (cases "itoa_nat n") (auto simp: strings_HasPrefix_def)
  then show ?thesis
    using assms itoa_nat_digits
    by (auto simp: strconv_Atoi_def strconv_Itoa_def strings_HasPrefix_def Let_def)
qed

section \<open>Hexadecimal text\<close>

definition hex_char :: "nat \<Rightarrow> char" where
  "hex_char d = (if d < 10 then char_of (48 + d) else char_of (87 + d))"

definition hex_byte :: "char \<Rightarrow> string" where
  "hex_byte c = [hex_char (of_char c div 16), hex_char (of_char c mod 16)]"

definition hex_EncodeToString :: "string \<Rightarrow> string" where
  "hex_EncodeToString bs = concat (map hex_byte bs)"

lemma hex_EncodeToString_length [simp]:
  "length (hex_EncodeToString bs) = 2 * length bs"
  by (induction bs) (auto simp: hex_EncodeToString_def hex_byte_def)

text \<open>
  \<open>strconv.Quote\<close>, the verb \<open>%q\<close> of \<open>fmt\<close>: control characters are escaped, and bytes beyond ASCII
  are taken as parts of printable characters and copied.
\<close>

definition go_quote_char :: "char \<Rightarrow> string" where
  "go_quote_char c =
     (if c = CHR 0x22 \<or> c = CHR 0x5C then [CHR 0x5C, c]
      else if c = CHR 0x07 then [CHR 0x5C, CHR ''a'']
      else if c = CHR 0x08 then [CHR 0x5C, CHR ''b'']
      else if c = CHR 0x0C then [CHR 0x5C, CHR ''f'']
      else if c = CHR 0x0A then [CHR 0x5C, CHR ''n'']
      else if c = CHR 0x0D then [CHR 0x5C, CHR ''r'']
      else if c = CHR 0x09 then [CHR 0x5C, CHR ''t'']
      else if c = CHR 0x0B then [CHR 0x5C, CHR ''v'']
      else if (of_char c :: nat) < 32 \<or> c = CHR 0x7F then CHR 0x5C # CHR ''x'' # hex_byte c
      else [c])"

definition strconv_Quote :: "string \<Rightarrow> string" where
  "strconv_Quote s = CHR 0x22 # concat (map go_quote_char s) @ [CHR 0x22]"

section \<open>float64 arithmetic on non-negative rationals\<close>

text \<open>
  A non-negative \<open>float64\<close> is a fraction of naturals. \<open>round53 p q\<close> is the nearest fraction to
  \<open>p / q\<close> with a 53-bit significand, ties to the even significand. The exponents that occur in
  \<open>time.ParseDuration\<close> are far from the limits of the format.
\<close>

fun bit_len :: "nat \<Rightarrow> nat" where
  "bit_len n = (if n = 0 then 0 else Suc (bit_len (n div 2)))"

declare bit_len.simps [simp del]

definition scale2 :: "int \<Rightarrow> nat \<times> nat \<Rightarrow> nat \<times> nat" where
  "scale2 e f = (if 0 \<le> e then (fst f * 2 ^ nat e, snd f) else (fst f, snd f * 2 ^ nat (- e)))"

definition round_half_even :: "nat \<times> nat \<Rightarrow> nat" where
  "round_half_even f =
     (let m = fst f div snd f; r = 2 * (fst f mod snd f)
      in if r < snd f \<or> (r = snd f \<and> even m) then m else Suc m)"

definition round53 :: "nat \<times> nat \<Rightarrow> nat \<times> nat" where
  "round53 f =
     (if fst f = 0 then (0, 1)
      else let e = 53 - (int (bit_len (fst f)) - int (bit_len (snd f)));
               g = scale2 e f;
               e' = (if 2 ^ 53 * snd g \<le> fst g then e - 1 else e)
           in scale2 (- e') (round_half_even (scale2 e' f), 1))"

definition float_scale :: "nat \<Rightarrow> nat \<Rightarrow> nat \<Rightarrow> nat" where
  "float_scale f unit scale =
     (let x = round53 (f, 1);
          y = round53 (unit, scale);
          z = round53 (fst x * fst y, snd x * snd y)
      in fst z div snd z)"

section \<open>time.ParseDuration\<close>

fun leadingInt :: "nat \<Rightarrow> string \<Rightarrow> (nat \<times> string) option" where
  "leadingInt x [] = Some (x, [])"
| "leadingInt x (c # cs) =
     (if \<not> is_digit c then Some (x, c # cs)
      else if 2 ^ 63 div 10 < x then None
      else let y = 10 * x + digit_val c in if 2 ^ 63 < y then None else leadingInt y cs)"

fun leadingFraction :: "bool \<Rightarrow> nat \<Rightarrow> nat \<Rightarrow> string \<Rightarrow> nat \<times> nat \<times> string" where
  "leadingFraction overflow x scale [] = (x, scale, [])"
| "leadingFraction overflow x scale (c # cs) =
     (if \<not> is_digit c then (x, scale, c # cs)
      else if overflow then leadingFraction overflow x scale cs
      else if (2 ^ 63 - 1) div 10 < x then leadingFraction True x scale cs
      else let y = 10 * x + digit_val c
           in if 2 ^ 63 < y then leadingFraction True x scale cs
              else leadingFraction False y (10 * scale) cs)"

definition unitMap :: "(string \<times> nat) list" where
  "unitMap =
     [(''ns'', 1), (''us'', 1000), ([CHR 0xC2, CHR 0xB5, CHR ''s''], 1000),
      ([CHR 0xCE, CHR 0xBC, CHR ''s''], 1000), (''ms'', 1000000), (''s'', 1000000000),
      (''m'', 60000000000), (''h'', 3600000000000)]"

definition quote_byte :: "char \<Rightarrow> string" where
  "quote_byte c =
     (if 128 \<le> (of_char c :: nat) \<or> (of_char c :: nat) < 32 then CHR 0x5C # CHR ''x'' # hex_byte c
      else if c = CHR 0x22 \<or> c = CHR 0x5C then [CHR 0x5C, c]
      else [c])"

definition time_quote :: "string \<Rightarrow> string" where
  "time_quote s = CHR 0x22 # concat (map quote_byte s) @ [CHR 0x22]"

definition invalid_duration :: "string \<Rightarrow> go_error" where
  "invalid_duration orig = Errorf (''time: invalid duration '' @ time_quote orig)"

definition is_unit_char :: "char \<Rightarrow> bool" where
  "is_unit_char c \<longleftrightarrow> c \<noteq> CHR ''.'' \<and> \<not> is_digit c"

text \<open>One round of the loop: a number with an optional fraction and a unit.\<close>

definition duration_item :: "string \<Rightarrow> string \<Rightarrow> go_error + (nat \<times> string)" where
  "duration_item orig s =
     (if is_unit_char (hd s) then Inl (invalid_duration orig)
      else case leadingInt 0 s of
        None \<Rightarrow> Inl (invalid_duration orig)
      | Some (v, s1) \<Rightarrow>
          let pre = length s \<noteq> length s1;
              dot = strings_HasPrefix s1 ''.'';
              (f, scale, s2) = (if dot then leadingFraction False 0 1 (tl s1) else (0, 1, s1));
              post = dot \<and> length (tl s1) \<noteq> length s2;
              u = takeWhile is_unit_char s2;
              s3 = dropWhile is_unit_char s2
          in if \<not> pre \<and> \<not> post then Inl (invalid_duration orig)
             else if u = [] then
               Inl (Errorf (''time: missing unit in duration '' @ time_quote orig))
             else case map_of unitMap u of
               None \<Rightarrow>
                 Inl (Errorf (''time: unknown unit '' @ time_quote u @ '' in duration '' @
                              time_quote orig))
             | Some unit \<Rightarrow>
                 if 2 ^ 63 div unit < v then Inl (invalid_duration orig)
                 else let w = v * unit + (if 0 < f then float_scale f unit scale else 0)
                      in if 2 ^ 63 < w then Inl (invalid_duration orig) else Inr (w, s3))"

lemma leadingInt_length: "leadingInt x s = Some (v, r) \<Longrightarrow> length r \<le> length s"
  by (induction x s rule: leadingInt.induct) (auto simp: Let_def split: if_splits)

lemma leadingFraction_length:
  "leadingFraction b x sc s = (f, sc', r) \<Longrightarrow> length r \<le> length s"
  by (induction b x sc s rule: leadingFraction.induct) (auto simp: Let_def split: if_splits)

lemma dropWhile_shorter:
  "takeWhile p s \<noteq> [] \<Longrightarrow> length (dropWhile p s) < length s"
  by (cases s) (auto simp: less_Suc_eq_le length_dropWhile_le split: if_splits)

lemma duration_item_length:
  assumes "duration_item orig s = Inr (w, r)"
  shows "length r < length s"
proof -
  from assms obtain v s1 f sc s2 where s1: "leadingInt 0 s = Some (v, s1)"
    and s2: "(if strings_HasPrefix s1 ''.'' then leadingFraction False 0 1 (tl s1)
        else (0, 1, s1)) = (f, sc, s2)"
    and u: "takeWhile is_unit_char s2 \<noteq> []" and r: "r = dropWhile is_unit_char s2"
    by (fastforce simp: duration_item_def Let_def split: if_splits option.splits prod.splits)
  have "length s2 \<le> length s1"
    using s2 leadingFraction_length [of False 0 1 "tl s1" f sc s2] by (auto split: if_splits)
  moreover have "length s1 \<le> length s" using s1 by (rule leadingInt_length)
  ultimately show ?thesis using dropWhile_shorter [OF u] r by simp
qed

function duration_loop :: "string \<Rightarrow> nat \<Rightarrow> string \<Rightarrow> go_error + nat" where
  "duration_loop orig d s =
     (if s = [] then Inr d
      else case duration_item orig s of
        Inl e \<Rightarrow> Inl e
      | Inr (v, rest) \<Rightarrow>
          let d' = (d + v) mod 2 ^ 64
          in if 2 ^ 63 < d' then Inl (invalid_duration orig) else duration_loop orig d' rest)"
  by pat_completeness auto
termination
  by (relation "measure (\<lambda>(orig, d, s). length s)") (auto dest: duration_item_length)

declare duration_loop.simps [simp del]

definition time_ParseDuration :: "string \<Rightarrow> go_error + duration" where
  "time_ParseDuration orig =
     (let signed = strings_HasPrefix orig ''-'' \<or> strings_HasPrefix orig ''+'';
          neg = strings_HasPrefix orig ''-'';
          s = (if signed then tl orig else orig)
      in if s = ''0'' then Inr 0
         else if s = [] then Inl (invalid_duration orig)
         else case duration_loop orig 0 s of
           Inl e \<Rightarrow> Inl e
         | Inr d \<Rightarrow>
             if neg then Inr (- int d)
             else if 2 ^ 63 - 1 < d then Inl (invalid_duration orig)
             else Inr (int d))"

lemmas duration_eval =
  time_ParseDuration_def duration_loop.simps duration_item_def is_unit_char_def is_digit_def
  digit_val_def unitMap_def strings_HasPrefix_def

lemma ParseDuration_10s [simp]: "time_ParseDuration ''10s'' = Inr 10000000000"
  by (simp add: duration_eval)

lemma ParseDuration_Nil [simp]: "time_ParseDuration [] = Inl (invalid_duration [])"
  by (simp add: time_ParseDuration_def strings_HasPrefix_def)

lemma duration_loop_bound: "duration_loop orig d s = Inr d' \<Longrightarrow> d \<le> 2 ^ 63 \<Longrightarrow> d' \<le> 2 ^ 63"
proof (induction orig d s rule: duration_loop.induct)
  case (1 orig d s)
  show ?case
  proof (cases "s = []")
    case True
    with "1.prems" show ?thesis by (simp add: duration_loop.simps)
  next
    case False
    with "1.prems" obtain v rest where item: "duration_item orig s = Inr (v, rest)"
      by (auto simp: duration_loop.simps [of orig d s] split: sum.splits)
    with False "1.prems" have "\<not> 2 ^ 63 < (d + v) mod 2 ^ 64"
      and "duration_loop orig ((d + v) mod 2 ^ 64) rest = Inr d'"
      by (auto simp: duration_loop.simps [of orig d s] Let_def split: if_splits)
    with "1.IH" [OF False item] show ?thesis by simp
  qed
qed

text \<open>A parsed duration fits an \<open>int64\<close>.\<close>

lemma ParseDuration_range:
  assumes "time_ParseDuration s = Inr d"
  shows "minDuration \<le> d \<and> d \<le> maxDuration"
proof -
  consider "d = 0"
    | n where "duration_loop s 0 (if strings_HasPrefix s ''-'' \<or> strings_HasPrefix s ''+''
          then tl s else s) = Inr n" and "d = - int n \<or> d = int n \<and> n \<le> 2 ^ 63 - 1"
    using assms
    by (auto simp: time_ParseDuration_def Let_def not_less split: if_splits sum.splits)
  then show ?thesis
  proof cases
    case 1
    then show ?thesis by (simp add: minDuration_def maxDuration_def)
  next
    case (2 n)
    then have "n \<le> 2 ^ 63" by (auto dest: duration_loop_bound)
    then have "int n \<le> 2 ^ 63" by simp
    moreover have "n \<le> 2 ^ 63 - 1 \<Longrightarrow> int n \<le> 2 ^ 63 - 1" by simp
    ultimately show ?thesis
      using 2(2) by (auto simp: minDuration_def maxDuration_def)
  qed
qed

end
