(* ===== verification/Casdoor_Config.thy ===== *)
theory Casdoor_Config
  imports Go_Numbers
begin

text \<open>
  Casdoor configuration and the JWT certificate checks of \<open>src/casdoor/config.go\<close>. Reading a file,
  PEM decoding and X.509 parsing are the parameters of the record \<open>certlib\<close>, one field per function
  of \<open>os\<close>, \<open>encoding/pem\<close> and \<open>crypto/x509\<close> that the code calls.
\<close>

record casdoor_config =
  cc_Endpoint :: string
  cc_ClientID :: string
  cc_ClientSecret :: string
  cc_Certificate :: string
  cc_CertificateFile :: string
  cc_Organization :: string
  cc_Application :: string
  cc_PermissionID :: string
  cc_ModelID :: string
  cc_ResourceID :: string
  cc_EnforcerID :: string
  cc_Owner :: string
  cc_PolicyEnforcer :: string
  cc_PolicyAdapterID :: string
  cc_HTTPTimeout :: string
  cc_DefaultScope :: string
  cc_AllowAnonymous :: bool
  cc_AuditAsync :: bool
  cc_AuditQueue :: int
  cc_AuditTimeout :: string
  cc_RetryAttempts :: int
  cc_RetryBackoff :: string

definition zero_casdoor_config :: casdoor_config where
  "zero_casdoor_config =
     \<lparr>cc_Endpoint = [], cc_ClientID = [], cc_ClientSecret = [], cc_Certificate = [],
      cc_CertificateFile = [], cc_Organization = [], cc_Application = [], cc_PermissionID = [],
      cc_ModelID = [], cc_ResourceID = [], cc_EnforcerID = [], cc_Owner = [],
      cc_PolicyEnforcer = [], cc_PolicyAdapterID = [], cc_HTTPTimeout = [], cc_DefaultScope = [],
      cc_AllowAnonymous = False, cc_AuditAsync = False, cc_AuditQueue = 0, cc_AuditTimeout = [],
      cc_RetryAttempts = 0, cc_RetryBackoff = []\<rparr>"

datatype public_key = RSAPublicKey | OtherPublicKey

record pem_block =
  pb_Type :: string
  pb_Bytes :: string

record certlib =
  ReadFile :: "string \<Rightarrow> go_error + string"
  pem_Decode :: "string \<Rightarrow> (pem_block \<times> string) option"
  ParseCertificate :: "string \<Rightarrow> go_error + public_key"
  ParsePKIXPublicKey :: "string \<Rightarrow> go_error + public_key"
  ParsePKCS1PublicKey :: "string \<Rightarrow> go_error option"

abbreviation newline :: string where "newline \<equiv> [CHR 0x0A]"
abbreviation carriage_return :: string where "carriage_return \<equiv> [CHR 0x0D]"
abbreviation literal_newline :: string where "literal_newline \<equiv> [CHR 0x5C, CHR ''n'']"

definition normalizePEMText :: "string \<Rightarrow> string" where
  "normalizePEMText s0 =
     (let s = strings_TrimSpace s0
      in if s = [] then []
         else let s1 = strings_ReplaceAll s (carriage_return @ newline) newline;
                  s2 = strings_ReplaceAll s1 carriage_return newline;
                  s3 = (if strings_Contains s2 literal_newline \<and> \<not> strings_Contains s2 newline
                        then strings_ReplaceAll s2 literal_newline newline else s2)
              in strings_TrimSpace s3)"

definition ValidateJWTPublicCertificate :: "certlib \<Rightarrow> string \<Rightarrow> go_error option" where
  "ValidateJWTPublicCertificate lib pemText =
     (let cert = normalizePEMText pemText
      in if cert = [] then Some (Errorf ''casdoor.certificate is empty'')
         else case pem_Decode lib cert of
           None \<Rightarrow>
             Some (Errorf ''casdoor.certificate must be PEM encoded public certificate or public key'')
         | Some (block, rest) \<Rightarrow>
             if strings_TrimSpace rest \<noteq> [] then
               Some (Errorf ''casdoor.certificate must contain exactly one PEM block'')
             else if pb_Type block = ''CERTIFICATE'' then
               (case ParseCertificate lib (pb_Bytes block) of
                  Inl err \<Rightarrow> Some (wrapf ''parse casdoor.certificate x509 certificate: '' err [])
                | Inr key \<Rightarrow>
                    if key \<noteq> RSAPublicKey then
                      Some (Errorf (''casdoor.certificate certificate public key must be RSA '' @
                                    ''for RS256 JWT verification''))
                    else None)
             else if pb_Type block = ''PUBLIC KEY'' then
               (case ParsePKIXPublicKey lib (pb_Bytes block) of
                  Inl err \<Rightarrow> Some (wrapf ''parse casdoor.certificate public key: '' err [])
                | Inr key \<Rightarrow>
                    if key \<noteq> RSAPublicKey then
                      Some (Errorf (''casdoor.certificate public key must be RSA '' @
                                    ''for RS256 JWT verification''))
                    else None)
             else if pb_Type block = ''RSA PUBLIC KEY'' then
               (case ParsePKCS1PublicKey lib (pb_Bytes block) of
                  Some err \<Rightarrow> Some (wrapf ''parse casdoor.certificate rsa public key: '' err [])
                | None \<Rightarrow> None)
             else if pb_Type block \<in> {''PRIVATE KEY'', ''RSA PRIVATE KEY'', ''EC PRIVATE KEY''} then
               Some (Errorf (''casdoor.certificate must be a public certificate/public key, '' @
                             ''not a private key''))
             else
               Some (Errorf (''casdoor.certificate unsupported PEM block type '' @
                             strconv_Quote (pb_Type block) @
                             ''; expected CERTIFICATE, PUBLIC KEY, or RSA PUBLIC KEY'')))"

definition missing_certificate :: go_error where
  "missing_certificate =
     Errorf (''casdoor.certificate or casdoor.certificate_file is required for authn JWT '' @
             ''verification; copy the public certificate/public key from the Casdoor Cert page'')"

definition NormalizedCertificate :: "certlib \<Rightarrow> casdoor_config \<Rightarrow> go_error + string" where
  "NormalizedCertificate lib c =
     (let inline = strings_TrimSpace (cc_Certificate c);
          finish = (\<lambda>text.
            let cert = normalizePEMText text
            in if cert = [] then Inl missing_certificate
               else case ValidateJWTPublicCertificate lib cert of
                 Some err \<Rightarrow> Inl err | None \<Rightarrow> Inr cert)
      in if inline = [] \<and> strings_TrimSpace (cc_CertificateFile c) \<noteq> [] then
           (case ReadFile lib (strings_TrimSpace (cc_CertificateFile c)) of
              Inl err \<Rightarrow>
                Inl (wrapf (''read casdoor.certificate_file '' @ strconv_Quote (cc_CertificateFile c) @
                            '': '') err [])
            | Inr b \<Rightarrow> finish (strings_TrimSpace b))
         else finish inline)"

section \<open>Facts about PEM text\<close>

definition pem_normal :: "string \<Rightarrow> bool" where
  "pem_normal s \<longleftrightarrow>
     strings_TrimSpace s = s \<and> CHR 0x0D \<notin> set s \<and>
     (strings_Contains s literal_newline \<longrightarrow> CHR 0x0A \<in> set s)"

lemma pem_normal_fixed: "pem_normal s \<Longrightarrow> normalizePEMText s = s"
proof -
  assume n: "pem_normal s"
  then have "\<not> strings_Contains s (carriage_return @ newline)" "\<not> strings_Contains s carriage_return"
    by (auto simp: pem_normal_def Contains_iff)
  with n show ?thesis
    by (auto simp: normalizePEMText_def pem_normal_def Let_def ReplaceAll_absent Contains_char)
qed

lemma normalizePEMText_normal: "pem_normal (normalizePEMText s0)"
proof (cases "strings_TrimSpace s0 = []")
  case True
  then show ?thesis by (simp add: normalizePEMText_def pem_normal_def Contains_iff)
next
  case False
  define s where "s = strings_TrimSpace s0"
  define s1 where "s1 = strings_ReplaceAll s (carriage_return @ newline) newline"
  define s2 where "s2 = strings_ReplaceAll s1 carriage_return newline"
  define s3 where "s3 = (if strings_Contains s2 literal_newline \<and> \<not> strings_Contains s2 newline
      then strings_ReplaceAll s2 literal_newline newline else s2)"
  have r: "normalizePEMText s0 = strings_TrimSpace s3"
    using False by (simp add: normalizePEMText_def Let_def s_def s1_def s2_def s3_def)
  have space: "c \<noteq> CHR 0x0D \<and> c \<noteq> CHR 0x0A" if "\<not> is_space c" for c
    using that by (auto simp: is_space_def)
  have s: "s \<noteq> []" "\<not> is_space (hd s)" "\<not> is_space (last s)"
    using False TrimSpace_ends [of s0] by (simp_all add: s_def)
  have s1: "s1 \<noteq> []" "hd s1 = hd s" "last s1 = last s"
    using ReplaceAll_ends [of s "carriage_return @ newline" newline] s space [OF s(2)]
      space [OF s(3)] by (auto simp: s1_def)
  have s2: "s2 \<noteq> []" "hd s2 = hd s" "last s2 = last s"
    using ReplaceAll_ends [of s1 carriage_return newline] s1 space [OF s(2)] space [OF s(3)]
    by (auto simp: s2_def)
  have no_cr: "CHR 0x0D \<notin> set s2"
    using ReplaceAll_removes [of carriage_return "CHR 0x0A" s1] by (simp add: s2_def Contains_char)
  then have "CHR 0x0D \<notin> set s3"
    using set_ReplaceAll [of literal_newline s2 newline] by (auto simp: s3_def)
  then have cr: "CHR 0x0D \<notin> set (strings_TrimSpace s3)"
    using set_trim_func [of is_space s3] by (auto simp: strings_TrimSpace_def)
  have "CHR 0x0A \<in> set (strings_TrimSpace s3)"
    if c: "strings_Contains (strings_TrimSpace s3) literal_newline"
  proof -
    have c3: "strings_Contains s3 literal_newline" using c by (rule Contains_TrimSpace)
    then have keep: "\<not> (strings_Contains s2 literal_newline \<and> \<not> strings_Contains s2 newline)"
      using ReplaceAll_removes [of literal_newline "CHR 0x0A" s2]
      by (auto simp: s3_def split: if_splits)
    then have "s3 = s2" by (auto simp: s3_def)
    moreover from this c3 keep have "CHR 0x0A \<in> set s2" by (auto simp: Contains_char)
    moreover have "strings_TrimSpace s2 = s2" using s s2 by (simp add: TrimSpace_id_ends)
    ultimately show ?thesis by simp
  qed
  with cr r show ?thesis by (simp add: pem_normal_def)
qed

lemma normalizePEMText_idem [simp]: "normalizePEMText (normalizePEMText s) = normalizePEMText s"
  by (rule pem_normal_fixed) (rule normalizePEMText_normal)

section \<open>Facts about certificates\<close>

definition public_pem_types :: "string set" where
  "public_pem_types = {''CERTIFICATE'', ''PUBLIC KEY'', ''RSA PUBLIC KEY''}"

lemma ValidateJWT_ok:
  assumes "ValidateJWTPublicCertificate lib text = None"
  shows "\<exists>block rest. pem_Decode lib (normalizePEMText text) = Some (block, rest) \<and>
    strings_TrimSpace rest = [] \<and> pb_Type block \<in> public_pem_types"
  using assms
  by (auto simp: ValidateJWTPublicCertificate_def Let_def public_pem_types_def
      split: if_splits option.splits)

lemma NormalizedCertificate_ok:
  assumes "NormalizedCertificate lib c = Inr cert"
  shows "cert \<noteq> [] \<and> normalizePEMText cert = cert \<and> ValidateJWTPublicCertificate lib cert = None"
  using assms
  by (auto simp: NormalizedCertificate_def Let_def split: if_splits option.splits sum.splits)

end
