(* ===== verification/Metrics.thy ===== *)
theory Metrics
  imports Go_Numbers
begin

text \<open>
  The dependency and request metrics of \<open>src/metrics/metrics.go\<close>. A counter vector is a map from
  label values to its count; of a histogram the model keeps the number of samples per label
  values (the sample itself is a reading of the clock). A nil collector is \<^term>\<open>None\<close>. The
  Prometheus registry is a parameter: \<open>Register\<close> takes a collector by its fully qualified name.
  Lines that are logged are text that no code of the repository reads: the theories of the components
  leave them out, but for those that say otherwise.
\<close>

record metrics_config =
  mc_Namespace :: string
  mc_Subsystem :: string

record metrics =
  m_Requests :: "(string \<times> string \<Rightarrow> nat) option"
  m_Duration :: "(string \<Rightarrow> nat) option"
  m_DependencyDuration :: "(string \<times> string \<Rightarrow> nat) option"
  m_DependencyErrors :: "(string \<times> string \<Rightarrow> nat) option"

text \<open>The result of \<open>Registerer.Register\<close> that \<open>errors.As\<close> distinguishes.\<close>

datatype register_error = AlreadyRegistered | RegisterError go_error

type_synonym 'r registerer = "string \<Rightarrow> 'r \<Rightarrow> register_error option \<times> 'r"

definition metrics_register :: "'r registerer \<Rightarrow> string \<Rightarrow> 'r \<Rightarrow> go_error option \<times> 'r" where
  "metrics_register Register c r =
     (case Register c r of
        (None, r') \<Rightarrow> (None, r')
      | (Some AlreadyRegistered, r') \<Rightarrow> (None, r')
      | (Some (RegisterError err), r') \<Rightarrow> (Some err, r'))"

fun register_all :: "'r registerer \<Rightarrow> string list \<Rightarrow> 'r \<Rightarrow> go_error option \<times> 'r" where
  "register_all Register [] r = (None, r)"
| "register_all Register (c # cs) r =
     (case metrics_register Register c r of
        (None, r') \<Rightarrow> register_all Register cs r'
      | (Some err, r') \<Rightarrow> (Some err, r'))"

definition collector_name :: "metrics_config \<Rightarrow> string \<Rightarrow> string" where
  "collector_name cfg name =
     strings_Join (filter (\<lambda>p. p \<noteq> []) [mc_Namespace cfg, mc_Subsystem cfg, name]) ''_''"

definition metrics_NewWithRegistry ::
    "metrics_config \<Rightarrow> string \<Rightarrow> 'r registerer \<Rightarrow> 'r \<Rightarrow> (go_error + metrics) \<times> 'r" where
  "metrics_NewWithRegistry cfg component Register r =
     (let cfg1 = (if mc_Namespace cfg = [] then cfg\<lparr>mc_Namespace := ''aisphere''\<rparr> else cfg);
          cfg2 = (if mc_Subsystem cfg1 = [] then cfg1\<lparr>mc_Subsystem := component\<rparr> else cfg1);
          m = \<lparr>m_Requests = Some (\<lambda>_. 0), m_Duration = Some (\<lambda>_. 0),
               m_DependencyDuration = Some (\<lambda>_. 0), m_DependencyErrors = Some (\<lambda>_. 0)\<rparr>
      in case register_all Register
                (map (collector_name cfg2)
                   [''requests_total'', ''request_duration_seconds'',
                    ''dependency_duration_seconds'', ''dependency_errors_total'']) r of
           (None, r') \<Rightarrow> (Inr m, r')
         | (Some err, r') \<Rightarrow> (Inl err, r'))"

text \<open>\<open>New\<close> uses the registry of the process, \<open>prometheus.DefaultRegisterer\<close>.\<close>

definition metrics_New :: "'r registerer \<Rightarrow> metrics_config \<Rightarrow> string \<Rightarrow> 'r \<Rightarrow> (go_error + metrics) \<times> 'r" where
  "metrics_New DefaultRegisterer cfg component = metrics_NewWithRegistry cfg component DefaultRegisterer"

definition inc_label :: "('l \<Rightarrow> nat) option \<Rightarrow> 'l \<Rightarrow> ('l \<Rightarrow> nat) option" where
  "inc_label c l = map_option (\<lambda>f. f(l := Suc (f l))) c"

definition label_or_unknown :: "string \<Rightarrow> string" where
  "label_or_unknown s = (if s = [] then ''unknown'' else s)"

definition metrics_Observe :: "metrics option \<Rightarrow> string \<Rightarrow> int \<Rightarrow> metrics option" where
  "metrics_Observe m operation code =
     map_option
       (\<lambda>m. let oper = label_or_unknown operation in
          m\<lparr>m_Requests := inc_label (m_Requests m) (oper, strconv_Itoa code),
            m_Duration := inc_label (m_Duration m) oper\<rparr>) m"

definition metrics_ObserveDependency ::
    "metrics option \<Rightarrow> string \<Rightarrow> string \<Rightarrow> go_error option \<Rightarrow> metrics option" where
  "metrics_ObserveDependency m dependency operation err =
     map_option
       (\<lambda>m. let l = (label_or_unknown dependency, label_or_unknown operation) in
          m\<lparr>m_DependencyDuration := inc_label (m_DependencyDuration m) l,
            m_DependencyErrors :=
              (if err \<noteq> None then inc_label (m_DependencyErrors m) l else m_DependencyErrors m)\<rparr>) m"

section \<open>The world of a call\<close>

text \<open>
  What an operation of the kit reads and writes outside its arguments: the state \<open>service\<close> of the
  remote services it talks to (of any type), and the shared metrics object.
\<close>

record 'x world =
  service :: 'x
  w_metrics :: "metrics option"

definition observe_dependency :: "string \<Rightarrow> string \<Rightarrow> go_error option \<Rightarrow> 'x world \<Rightarrow> 'x world" where
  "observe_dependency dependency operation err w =
     w\<lparr>w_metrics := metrics_ObserveDependency (w_metrics w) dependency operation err\<rparr>"

lemma observe_service [frame_simps, simp]:
  "service (observe_dependency d oper err w) = service w"
  by (simp add: observe_dependency_def)

section \<open>Facts\<close>

definition dep_calls :: "metrics option \<Rightarrow> string \<times> string \<Rightarrow> nat" where
  "dep_calls m l = (case m of None \<Rightarrow> 0 | Some m \<Rightarrow> (case m_DependencyDuration m of None \<Rightarrow> 0 | Some f \<Rightarrow> f l))"

definition dep_failures :: "metrics option \<Rightarrow> string \<times> string \<Rightarrow> nat" where
  "dep_failures m l = (case m of None \<Rightarrow> 0 | Some m \<Rightarrow> (case m_DependencyErrors m of None \<Rightarrow> 0 | Some f \<Rightarrow> f l))"

definition metrics_complete :: "metrics option \<Rightarrow> bool" where
  "metrics_complete m \<longleftrightarrow>
     (case m of None \<Rightarrow> False
      | Some m \<Rightarrow> m_Requests m \<noteq> None \<and> m_Duration m \<noteq> None \<and>
                m_DependencyDuration m \<noteq> None \<and> m_DependencyErrors m \<noteq> None)"

lemma ObserveDependency_calls:
  "metrics_complete m \<Longrightarrow> d \<noteq> [] \<Longrightarrow> oper \<noteq> [] \<Longrightarrow>
    dep_calls (metrics_ObserveDependency m d oper err) l =
      dep_calls m l + (if l = (d, oper) then 1 else 0)"
  by (auto simp: dep_calls_def metrics_ObserveDependency_def metrics_complete_def inc_label_def
      label_or_unknown_def Let_def split: option.splits)

lemma ObserveDependency_failures:
  "metrics_complete m \<Longrightarrow> d \<noteq> [] \<Longrightarrow> oper \<noteq> [] \<Longrightarrow>
    dep_failures (metrics_ObserveDependency m d oper err) l =
      dep_failures m l + (if l = (d, oper) \<and> err \<noteq> None then 1 else 0)"
  by (auto simp: dep_failures_def metrics_ObserveDependency_def metrics_complete_def inc_label_def
      label_or_unknown_def Let_def split: option.splits)

lemma ObserveDependency_complete [simp]:
  "metrics_complete (metrics_ObserveDependency m d oper err) \<longleftrightarrow> metrics_complete m"
  by (auto simp: metrics_ObserveDependency_def metrics_complete_def inc_label_def Let_def
      split: option.splits)

lemma NewWithRegistry_complete:
  "metrics_NewWithRegistry cfg component Register r = (Inr m, r') \<Longrightarrow> metrics_complete (Some m)"
  by (auto simp: metrics_NewWithRegistry_def metrics_complete_def Let_def
      split: prod.splits option.splits)

end
