(* ===== verification/Go_Slog.thy ===== *)
theory Go_Slog
  imports Go_Prelude
begin

text \<open>
  The part of Go's \<open>log/slog\<close> that the code uses: levels, handlers, loggers with attributes and the
  records that they emit. The process-wide default logger, \<open>slog.Default\<close>, is an argument of the
  definitions that read it.
\<close>

section \<open>Levels\<close>

datatype slog_level = LevelDebug | LevelInfo | LevelWarn | LevelError

text \<open>The levels are the numbers -4, 0, 4 and 8.\<close>

definition slog_number :: "slog_level \<Rightarrow> int" where
  "slog_number l = (case l of LevelDebug \<Rightarrow> - 4 | LevelInfo \<Rightarrow> 0 | LevelWarn \<Rightarrow> 4 | LevelError \<Rightarrow> 8)"

lemma slog_number_inject [simp]: "slog_number l = slog_number l' \<longleftrightarrow> l = l'"
  by (cases l; cases l') (simp_all add: slog_number_def)

instantiation slog_level :: linorder
begin

definition less_eq_slog_level :: "slog_level \<Rightarrow> slog_level \<Rightarrow> bool" where
  "less_eq_slog_level l l' \<longleftrightarrow> slog_number l \<le> slog_number l'"

definition less_slog_level :: "slog_level \<Rightarrow> slog_level \<Rightarrow> bool" where
  "less_slog_level l l' \<longleftrightarrow> slog_number l < slog_number l'"

instance
  by standard (auto simp: less_eq_slog_level_def less_slog_level_def dest: order.antisym)

end

section \<open>Loggers\<close>

text \<open>The standard library's own handler writes through package \<open>log\<close>.\<close>

datatype slog_format = TextHandler | JSONHandler | LogHandler

record slog_handler =
  hd_Level :: slog_level
  hd_Format :: slog_format
  hd_AddSource :: bool

type_synonym slog_attrs = "(string \<times> any) list"

record slog_logger =
  sl_handler :: slog_handler
  sl_attrs :: slog_attrs

definition slog_New :: "slog_handler \<Rightarrow> slog_logger" where
  "slog_New h = \<lparr>sl_handler = h, sl_attrs = []\<rparr>"

text \<open>Key and value pairs; a value without a key gets the key \<open>!BADKEY\<close>.\<close>

fun slog_args :: "any list \<Rightarrow> slog_attrs" where
  "slog_args [] = []"
| "slog_args [AStr s] = [(''!BADKEY'', AStr s)]"
| "slog_args (AStr k # v # rest) = (k, v) # slog_args rest"
| "slog_args (x # rest) = (''!BADKEY'', x) # slog_args rest"

definition slog_With :: "any list \<Rightarrow> slog_logger \<Rightarrow> slog_logger" where
  "slog_With args l = l\<lparr>sl_attrs := sl_attrs l @ slog_args args\<rparr>"

text \<open>A handler emits the records from its level upwards.\<close>

definition handler_Enabled :: "slog_handler \<Rightarrow> slog_level \<Rightarrow> bool" where
  "handler_Enabled h l \<longleftrightarrow> hd_Level h \<le> l"

type_synonym slog_record = "slog_level \<times> string \<times> slog_attrs"

definition slog_Log :: "slog_logger \<Rightarrow> slog_level \<Rightarrow> string \<Rightarrow> any list \<Rightarrow> slog_record list \<Rightarrow> slog_record list" where
  "slog_Log l level msg args out =
     (if handler_Enabled (sl_handler l) level
      then out @ [(level, msg, sl_attrs l @ slog_args args)] else out)"

lemma sl_attrs_With [simp]: "sl_attrs (slog_With args l) = sl_attrs l @ slog_args args"
  by (simp add: slog_With_def)

lemma sl_handler_With [simp]: "sl_handler (slog_With args l) = sl_handler l"
  by (simp add: slog_With_def)

text \<open>The value that a reader of the output sees for a key that occurs several times is the last one.\<close>

definition logged :: "slog_logger \<Rightarrow> string \<rightharpoonup> any" where
  "logged l = map_of (rev (sl_attrs l))"

lemma logged_With: "logged (slog_With args l) = logged l ++ map_of (rev (slog_args args))"
  by (simp add: logged_def)

lemma logged_With_other: "k \<notin> fst ` set (slog_args args) \<Longrightarrow> logged (slog_With args l) k = logged l k"
  by (auto simp: logged_With map_add_def dest: map_of_SomeD split: option.splits)
    (metis fst_conv image_eqI map_of_SomeD set_rev)

end
