(* ===== verification/Identity.thy ===== *)
theory Identity
  imports Go_Slog
begin

text \<open>
  Who acts on what: resource names (\<open>src/resource/resource.go\<close>), the action constants
  (\<open>src/action/action.go\<close>), principals and the request context that carries them
  (\<open>src/principal/principal.go\<close>). The context record holds one slot per context key of the
  repository: an absent key is \<^term>\<open>None\<close>, and the slots of pointer type distinguish an absent
  key from a stored nil pointer. The context argument of a function is an option: \<^term>\<open>None\<close> is a
  nil context. Cancellation of a context is part of the environment of theory Retry.
\<close>

section \<open>Resource names\<close>

type_synonym rname = string

definition resource_Build :: "string list \<Rightarrow> rname" where
  "resource_Build parts =
     strings_Join (map (\<lambda>p. strings_Trim p '':'') (filter (\<lambda>p. p \<noteq> []) parts)) '':''"

definition resource_Wildcard :: "string \<Rightarrow> string \<Rightarrow> rname" where
  "resource_Wildcard domain kind = resource_Build [domain, kind, ''*'']"

definition resource_AIHubSkill :: "string \<Rightarrow> rname" where
  "resource_AIHubSkill i = resource_Build [''aihub'', ''skill'', i]"

definition resource_AIHubSkillVersion :: "string \<Rightarrow> string \<Rightarrow> rname" where
  "resource_AIHubSkillVersion skillID version =
     resource_Build [''aihub'', ''skill-version'', skillID, version]"

definition resource_RuntimeSession :: "string \<Rightarrow> rname" where
  "resource_RuntimeSession i = resource_Build [''runtime'', ''session'', i]"

definition resource_SandboxInstance :: "string \<Rightarrow> rname" where
  "resource_SandboxInstance i = resource_Build [''sandbox'', ''instance'', i]"

definition resource_ModelDeployment :: "string \<Rightarrow> rname" where
  "resource_ModelDeployment i = resource_Build [''model'', ''deployment'', i]"

section \<open>Action constants\<close>

definition action_generic :: "string list" where
  "action_generic = [''create'', ''read'', ''update'', ''delete'', ''list'']"

definition action_skill :: "string list" where
  "action_skill =
     [''skill.create'', ''skill.read'', ''skill.update'', ''skill.delete'', ''skill.publish'',
      ''skill.share'', ''skill.upload'', ''skill.download'']"

definition action_platform :: "string list" where
  "action_platform =
     [''agent.run'', ''runtime.session.create'', ''runtime.session.delete'',
      ''sandbox.instance.create'', ''sandbox.instance.delete'', ''model.invoke'']"

section \<open>Principals\<close>

abbreviation SubjectUser :: string where "SubjectUser \<equiv> ''user''"
abbreviation SubjectService :: string where "SubjectService \<equiv> ''service''"
abbreviation SubjectAPIKey :: string where "SubjectAPIKey \<equiv> ''api_key''"
abbreviation SubjectAnon :: string where "SubjectAnon \<equiv> ''anonymous''"

record principal =
  pr_SubjectType :: string
  pr_SubjectID :: string
  pr_Name :: string
  pr_DisplayName :: string
  pr_Email :: string
  pr_Avatar :: string
  pr_OrgID :: string
  pr_ProjectID :: string
  pr_Roles :: "string list"
  pr_Groups :: "string list"
  pr_Token :: string
  pr_TokenID :: string
  pr_Claims :: "(string \<rightharpoonup> any) option"
  pr_Attributes :: "(string \<rightharpoonup> string) option"

text \<open>The struct literal \<open>Principal{SubjectType: ty, SubjectID: i}\<close>: other fields zero.\<close>

definition principal_lit :: "string \<Rightarrow> string \<Rightarrow> principal" where
  "principal_lit ty i =
     \<lparr>pr_SubjectType = ty, pr_SubjectID = i, pr_Name = [], pr_DisplayName = [], pr_Email = [],
      pr_Avatar = [], pr_OrgID = [], pr_ProjectID = [], pr_Roles = [], pr_Groups = [],
      pr_Token = [], pr_TokenID = [], pr_Claims = None, pr_Attributes = None\<rparr>"

definition principal_IsZero :: "principal \<Rightarrow> bool" where
  "principal_IsZero p \<longleftrightarrow> pr_SubjectID p = [] \<and> pr_SubjectType p = []"

definition principal_IsAuthenticated :: "principal \<Rightarrow> bool" where
  "principal_IsAuthenticated p \<longleftrightarrow>
     pr_SubjectID p \<noteq> [] \<and> pr_SubjectType p \<noteq> [] \<and> pr_SubjectType p \<noteq> SubjectAnon"

definition principal_Subject :: "principal \<Rightarrow> string" where
  "principal_Subject p =
     (if pr_SubjectType p = [] then pr_SubjectID p
      else if pr_SubjectID p = [] then pr_SubjectType p
      else pr_SubjectType p @ '':'' @ pr_SubjectID p)"

definition principal_Anonymous :: principal where
  "principal_Anonymous = principal_lit SubjectAnon ''anonymous''"

abbreviation ErrMissingPrincipal :: go_error where
  "ErrMissingPrincipal \<equiv> ErrNew ''principal'' ''principal missing from context''"

section \<open>Request contexts\<close>

record go_context =
  principalKey :: "principal option option"
  requestIDKey :: "string option"
  loggerKey :: "slog_logger option option"
  txKey :: "nat option option"

definition context_Background :: go_context where
  "context_Background = \<lparr>principalKey = None, requestIDKey = None, loggerKey = None, txKey = None\<rparr>"

definition principal_NewContext :: "go_context \<Rightarrow> principal option \<Rightarrow> go_context" where
  "principal_NewContext ctx p = ctx\<lparr>principalKey := Some p\<rparr>"

definition principal_FromContext :: "go_context option \<Rightarrow> principal option \<times> bool" where
  "principal_FromContext ctx =
     (case ctx of
        None \<Rightarrow> (None, False)
      | Some c \<Rightarrow>
          (let (p, ok) = (case principalKey c of None \<Rightarrow> (None, False) | Some v \<Rightarrow> (v, True))
           in (p, ok \<and> p \<noteq> None)))"

definition principal_RequireFromContext :: "go_context option \<Rightarrow> go_error + principal" where
  "principal_RequireFromContext ctx =
     (case principal_FromContext ctx of
        (Some p, True) \<Rightarrow> if principal_IsZero p then Inl ErrMissingPrincipal else Inr p
      | _ \<Rightarrow> Inl ErrMissingPrincipal)"

definition principal_MustFromContext :: "go_context option \<Rightarrow> principal outcome" where
  "principal_MustFromContext ctx =
     (case principal_RequireFromContext ctx of Inl err \<Rightarrow> Panic err | Inr p \<Rightarrow> Ret p)"

section \<open>Facts about resource names\<close>

definition name_part :: "string \<Rightarrow> bool" where
  "name_part p \<longleftrightarrow> p \<noteq> [] \<and> CHR '':'' \<notin> set p"

lemma resource_Build_parts:
  "\<forall>p\<in>set parts. name_part p \<Longrightarrow> resource_Build parts = strings_Join parts '':''"
proof -
  assume parts: "\<forall>p\<in>set parts. name_part p"
  then have "filter (\<lambda>p. p \<noteq> []) parts = parts"
    by (auto simp: filter_id_conv name_part_def)
  moreover from parts have "map (\<lambda>p. strings_Trim p '':'') parts = parts"
    by (intro map_idI Trim_id) (auto simp: name_part_def)
  ultimately show ?thesis by (simp add: resource_Build_def)
qed

lemma resource_Build_Split:
  "parts \<noteq> [] \<Longrightarrow> \<forall>p\<in>set parts. name_part p \<Longrightarrow>
    strings_Split (resource_Build parts) '':'' = parts"
  by (simp add: resource_Build_parts Split_Join name_part_def)

lemma resource_Build_inject:
  "resource_Build ps = resource_Build qs \<Longrightarrow> ps \<noteq> [] \<Longrightarrow> qs \<noteq> [] \<Longrightarrow>
    \<forall>p\<in>set ps. name_part p \<Longrightarrow> \<forall>q\<in>set qs. name_part q \<Longrightarrow> ps = qs"
  by (metis resource_Build_Split)

lemma resource_Build_Nil [simp]: "resource_Build [] = []"
  by (simp add: resource_Build_def)

section \<open>Facts about principals and contexts\<close>

lemma principal_lit_sel [simp]:
  "pr_SubjectType (principal_lit ty i) = ty" "pr_SubjectID (principal_lit ty i) = i"
  "pr_OrgID (principal_lit ty i) = []" "pr_ProjectID (principal_lit ty i) = []"
  "pr_Token (principal_lit ty i) = []"
  by (simp_all add: principal_lit_def)

lemma IsAuthenticated_not_zero: "principal_IsAuthenticated p \<Longrightarrow> \<not> principal_IsZero p"
  by (simp add: principal_IsAuthenticated_def principal_IsZero_def)

lemma IsZero_Token [simp]: "principal_IsZero (p\<lparr>pr_Token := t\<rparr>) = principal_IsZero p"
  by (simp add: principal_IsZero_def)

lemma Subject_eq_Nil [simp]: "principal_Subject p = [] \<longleftrightarrow> principal_IsZero p"
  by (auto simp: principal_Subject_def principal_IsZero_def)

lemma FromContext_NewContext [simp]:
  "principal_FromContext (Some (principal_NewContext ctx p)) = (p, p \<noteq> None)"
  by (simp add: principal_FromContext_def principal_NewContext_def)

lemma FromContext_ok_iff:
  "principal_FromContext ctx = (Some p, True) \<longleftrightarrow>
    (\<exists>c. ctx = Some c \<and> principalKey c = Some (Some p))"
  by (auto simp: principal_FromContext_def split: option.splits)

lemma FromContext_cases:
  "principal_FromContext ctx = (None, False) \<or> (\<exists>p. principal_FromContext ctx = (Some p, True))"
  by (auto simp: principal_FromContext_def split: option.splits)

lemma RequireFromContext_Inr:
  "principal_RequireFromContext ctx = Inr p \<longleftrightarrow>
    principal_FromContext ctx = (Some p, True) \<and> \<not> principal_IsZero p"
  using FromContext_cases [of ctx]
  by (auto simp: principal_RequireFromContext_def split: if_splits)

lemma RequireFromContext_Inl:
  "principal_RequireFromContext ctx = Inl e \<Longrightarrow> e = ErrMissingPrincipal"
  using FromContext_cases [of ctx]
  by (auto simp: principal_RequireFromContext_def split: if_splits)

lemma RequireFromContext_nil [simp]:
  "principal_RequireFromContext None = Inl ErrMissingPrincipal"
  by (simp add: principal_RequireFromContext_def principal_FromContext_def)

lemma Subject_first_colon:
  assumes "principal_IsAuthenticated p" and "CHR '':'' \<notin> set (pr_SubjectType p)"
  shows "strings_Cut (principal_Subject p) '':'' = Some (pr_SubjectType p, pr_SubjectID p)"
  using assms strings_Cut_char [of "CHR '':''" "pr_SubjectType p" "pr_SubjectID p"]
  by (simp add: principal_Subject_def principal_IsAuthenticated_def)

section \<open>Properties of resource names\<close>

text \<open>
  Resource names are unambiguous. From the name that Build makes of parts that are not empty and have
  no colon, splitting at the colons gives the parts back, so different parts never give the same name.
\<close>

theorem resource_name_roundtrip:
  assumes "parts \<noteq> []" and "\<forall>p \<in> set parts. name_part p"
  shows "strings_Split (resource_Build parts) '':'' = parts"
  using resource_Build_Split [OF assms] .

theorem resource_name_roundtrip_witness:
  "strings_Split (resource_Build [''aihub'', ''skill'', ''translator'']) '':'' =
     [''aihub'', ''skill'', ''translator'']"
  by (rule resource_name_roundtrip) (simp_all add: name_part_def)

end
