(* ===== verification/Retry.thy ===== *)
theory Retry
  imports Go_Numbers Identity
begin

text \<open>
  The retry loop of \<open>src/retry/retry.go\<close> and the cancellable call \<open>callWithContext\<close> of
  \<open>src/casdoor/adapter.go\<close>. A function that may fail takes the state of the world and returns
  an error (or \<^term>\<open>None\<close>) with the new state. What the scheduler, the clock and the cancellation
  of the request context do is a parameter, the record \<open>goenv\<close>:
  \<^item> \<open>ctx_poll\<close> is a receive from \<open>ctx.Done()\<close> that does not block: \<open>Some e\<close> when the channel is
    closed, \<open>e\<close> being \<open>ctx.Err()\<close>, which is not nil then;
  \<^item> \<open>timer_select\<close> is the select between a timer and \<open>ctx.Done()\<close>: \<open>None\<close> when the timer case runs;
  \<^item> \<open>call_select\<close> is the select between a call running in its own goroutine and \<open>ctx.Done()\<close>. When the
    context wins, the abandoned goroutine still runs: the flag says whether its effect lands before
    the state is next observed.
\<close>

section \<open>Retry policies\<close>

record retry_config =
  rc_Attempts :: int
  rc_Backoff :: string

record retry_policy =
  rp_Attempts :: int
  rp_Backoff :: duration

definition retry_NewPolicy :: "retry_config \<Rightarrow> retry_policy" where
  "retry_NewPolicy cfg =
     (let p = \<lparr>rp_Attempts = 1, rp_Backoff = 100 * Millisecond\<rparr>;
          p1 = (if 0 < rc_Attempts cfg then p\<lparr>rp_Attempts := rc_Attempts cfg\<rparr> else p)
      in if rc_Backoff cfg \<noteq> [] then
           (case time_ParseDuration (rc_Backoff cfg) of
              Inr d \<Rightarrow> if 0 < d then p1\<lparr>rp_Backoff := d\<rparr> else p1
            | Inl _ \<Rightarrow> p1)
         else p1)"

definition retry_NewPolicyFromStrings :: "string \<Rightarrow> string \<Rightarrow> retry_policy" where
  "retry_NewPolicyFromStrings attempts backoff =
     (let cfg = \<lparr>rc_Attempts = 0, rc_Backoff = backoff\<rparr>
      in retry_NewPolicy
           (if attempts \<noteq> [] then
              (case strconv_Atoi attempts of Some n \<Rightarrow> cfg\<lparr>rc_Attempts := n\<rparr> | None \<Rightarrow> cfg)
            else cfg))"

section \<open>The environment of a call\<close>

datatype 's call_race = CallReturns | CtxDone go_error bool 's

record 's goenv =
  ctx_poll :: "'s \<Rightarrow> go_error option"
  timer_select :: "duration \<Rightarrow> 's \<Rightarrow> go_error option \<times> 's"
  call_select :: "'s \<Rightarrow> 's call_race"

type_synonym 's fallible = "'s \<Rightarrow> go_error option \<times> 's"

text \<open>The same environment for a function that also writes a captured variable.\<close>

definition lift_env :: "'s goenv \<Rightarrow> ('v \<times> 's) goenv" where
  "lift_env env =
     \<lparr>ctx_poll = (\<lambda>(v, s). ctx_poll env s),
      timer_select = (\<lambda>d (v, s). case timer_select env d s of (e, s') \<Rightarrow> (e, (v, s'))),
      call_select = (\<lambda>(v, s). case call_select env s of
         CallReturns \<Rightarrow> CallReturns | CtxDone e applied s' \<Rightarrow> CtxDone e applied (v, s'))\<rparr>"

definition callWithContext :: "go_context option \<Rightarrow> 's goenv \<Rightarrow> 's fallible \<Rightarrow> 's fallible" where
  "callWithContext ctx env fn s =
     (case ctx of
        None \<Rightarrow> fn s
      | Some _ \<Rightarrow>
          (case call_select env s of
             CallReturns \<Rightarrow> fn s
           | CtxDone err applied s' \<Rightarrow> (Some err, if applied then snd (fn s') else s')))"

section \<open>The loop\<close>

text \<open>
  \<open>retry_loop\<close> is the loop of \<open>Do\<close> for a context that is not nil: \<open>n\<close> rounds are left, \<open>err\<close> is the
  last error. With a nil context the loop skips the poll at the top of a round, and the select
  with the backoff timer calls \<open>ctx.Done()\<close> on a nil interface, which panics.
\<close>

fun retry_loop :: "'s goenv \<Rightarrow> duration \<Rightarrow> 's fallible \<Rightarrow> nat \<Rightarrow> go_error option \<Rightarrow> 's fallible" where
  "retry_loop env backoff fn 0 err s = (err, s)"
| "retry_loop env backoff fn (Suc n) err s =
     (case ctx_poll env s of
        Some e \<Rightarrow> (Some e, s)
      | None \<Rightarrow>
          (case fn s of
             (None, s1) \<Rightarrow> (None, s1)
           | (Some e, s1) \<Rightarrow>
               if n = 0 \<or> backoff \<le> 0 then retry_loop env backoff fn n (Some e) s1
               else (case timer_select env backoff s1 of
                       (None, s2) \<Rightarrow> retry_loop env backoff fn n (Some e) s2
                     | (Some ce, s2) \<Rightarrow> (Some ce, s2))))"

fun retry_loop_nil ::
    "duration \<Rightarrow> 's fallible \<Rightarrow> nat \<Rightarrow> go_error option \<Rightarrow> 's \<Rightarrow> (go_error option \<times> 's) outcome" where
  "retry_loop_nil backoff fn 0 err s = Ret (err, s)"
| "retry_loop_nil backoff fn (Suc n) err s =
     (case fn s of
        (None, s1) \<Rightarrow> Ret (None, s1)
      | (Some e, s1) \<Rightarrow>
          if n = 0 \<or> backoff \<le> 0 then retry_loop_nil backoff fn n (Some e) s1
          else Panic nil_dereference)"

definition policy_rounds :: "retry_policy \<Rightarrow> nat" where
  "policy_rounds p = nat (if rp_Attempts p \<le> 0 then 1 else rp_Attempts p)"

text \<open>\<open>Do\<close> at a context that is not nil, and \<open>Do\<close>.\<close>

definition retry_DoCtx :: "'s goenv \<Rightarrow> retry_policy \<Rightarrow> 's fallible \<Rightarrow> 's fallible" where
  "retry_DoCtx env p fn s = retry_loop env (rp_Backoff p) fn (policy_rounds p) None s"

definition retry_Do ::
    "go_context option \<Rightarrow> 's goenv \<Rightarrow> retry_policy \<Rightarrow> 's fallible \<Rightarrow> 's \<Rightarrow> (go_error option \<times> 's) outcome" where
  "retry_Do ctx env p fn s =
     (case ctx of
        None \<Rightarrow> retry_loop_nil (rp_Backoff p) fn (policy_rounds p) None s
      | Some _ \<Rightarrow> Ret (retry_DoCtx env p fn s))"

text \<open>The environment in which the context is never cancelled.\<close>

definition open_env :: "'s goenv" where
  "open_env =
     \<lparr>ctx_poll = (\<lambda>s. None), timer_select = (\<lambda>d s. (None, s)), call_select = (\<lambda>s. CallReturns)\<rparr>"

section \<open>Rules for the loop\<close>

definition env_keeps :: "'s goenv \<Rightarrow> ('s \<Rightarrow> bool) \<Rightarrow> bool" where
  "env_keeps env I \<longleftrightarrow>
     (\<forall>s d e s'. I s \<longrightarrow> timer_select env d s = (e, s') \<longrightarrow> I s') \<and>
     (\<forall>s e b s'. I s \<longrightarrow> call_select env s = CtxDone e b s' \<longrightarrow> I s')"

lemma env_keepsD_timer: "env_keeps env I \<Longrightarrow> I s \<Longrightarrow> timer_select env d s = (e, s') \<Longrightarrow> I s'"
  unfolding env_keeps_def by blast

lemma env_keepsD_call: "env_keeps env I \<Longrightarrow> I s \<Longrightarrow> call_select env s = CtxDone e b s' \<Longrightarrow> I s'"
  unfolding env_keeps_def by blast

lemma env_keeps_True [simp]: "env_keeps env (\<lambda>_. True)"
  by (simp add: env_keeps_def)

lemma open_env_keeps [simp]: "env_keeps open_env I"
  by (simp add: env_keeps_def open_env_def)

lemma open_env_sel [simp]:
  "ctx_poll open_env s = None" "timer_select open_env d s = (None, s)"
  "call_select open_env s = CallReturns"
  by (simp_all add: open_env_def)

lemma lift_open_env [simp]: "lift_env open_env = open_env"
  by (simp add: lift_env_def open_env_def fun_eq_iff)

lemma env_keeps_view:
  assumes "\<And>v. env_keeps env (\<lambda>s. view s = v)"
  shows "env_keeps env (\<lambda>s. P (view s))"
  using assms unfolding env_keeps_def by metis

lemma lift_env_sel [simp]:
  "ctx_poll (lift_env env) (v, s) = ctx_poll env s"
  "timer_select (lift_env env) d (v, s) =
     (fst (timer_select env d s), (v, snd (timer_select env d s)))"
  "call_select (lift_env env) (v, s) =
     (case call_select env s of
        CallReturns \<Rightarrow> CallReturns | CtxDone e applied s' \<Rightarrow> CtxDone e applied (v, s'))"
  by (simp_all add: lift_env_def split: prod.splits)

lemma env_keeps_lift:
  fixes env :: "'s goenv"
  assumes "env_keeps env I"
  shows "env_keeps (lift_env env) (\<lambda>vs :: 'v \<times> 's. I (snd vs))"
  unfolding env_keeps_def
proof (intro conjI allI impI)
  fix vs :: "'v \<times> 's" and d e vs'
  assume "I (snd vs)" "timer_select (lift_env env) d vs = (e, vs')"
  then show "I (snd vs')"
    using env_keepsD_timer [OF assms, of "snd vs" d "fst (timer_select env d (snd vs))"]
    by (cases vs) (auto simp: prod_eq_iff)
next
  fix vs :: "'v \<times> 's" and e b vs'
  assume "I (snd vs)" "call_select (lift_env env) vs = CtxDone e b vs'"
  then show "I (snd vs')"
    using env_keepsD_call [OF assms, of "snd vs"] by (cases vs) (auto split: call_race.splits)
qed

lemma policy_rounds_pos [simp]: "0 < policy_rounds p"
  by (simp add: policy_rounds_def)

lemma policy_rounds_not_0 [simp]: "policy_rounds p \<noteq> 0"
  using policy_rounds_pos [of p] by linarith

text \<open>
  The invariant rule: what the function and the environment keep holds at the end, and a success
  is the success of one call of the function, whose result state is the final one.
\<close>

lemma retry_loop_rule:
  assumes "retry_loop env b fn n err s = (r, s')" and "I s" and "env_keeps env I"
    and fn: "\<And>s e s'. I s \<Longrightarrow> fn s = (e, s') \<Longrightarrow> I s'"
  shows "I s' \<and> (r = None \<longrightarrow> n = 0 \<and> err = None \<or> (\<exists>s0. I s0 \<and> fn s0 = (None, s')))"
  using assms(1,2)
proof (induction n arbitrary: err s)
  case 0
  then show ?case by simp
next
  case (Suc n)
  show ?case
  proof (cases "ctx_poll env s")
    case (Some e)
    with Suc.prems show ?thesis by auto
  next
    case None
    obtain e s1 where fns: "fn s = (e, s1)" by (cases "fn s")
    with Suc.prems fn have I1: "I s1" by blast
    show ?thesis
    proof (cases e)
      case None
      with \<open>ctx_poll env s = None\<close> fns I1 Suc.prems show ?thesis by auto
    next
      case (Some e')
      obtain te s2 where tm: "timer_select env b s1 = (te, s2)" by (cases "timer_select env b s1")
      have I2: "I s2" using env_keepsD_timer [OF assms(3) I1 tm] .
      from Suc.IH [OF _ I1, of "Some e'"] Suc.IH [OF _ I2, of "Some e'"] Suc.prems(1) I2
      show ?thesis
        using \<open>ctx_poll env s = None\<close> fns Some tm
        by (auto split: if_splits option.splits)
    qed
  qed
qed

lemma retry_DoCtx_rule:
  assumes "retry_DoCtx env p fn s = (r, s')" and "I s" and "env_keeps env I"
    and "\<And>s e s'. I s \<Longrightarrow> fn s = (e, s') \<Longrightarrow> I s'"
  shows "I s'" and "r = None \<Longrightarrow> \<exists>s0. I s0 \<and> fn s0 = (None, s')"
  using retry_loop_rule [OF assms(1) [unfolded retry_DoCtx_def] assms(2,3)] assms(4) by auto

lemma retry_DoCtx_success:
  "retry_DoCtx env p fn s = (None, s') \<Longrightarrow> \<exists>s0. fn s0 = (None, s')"
  using retry_DoCtx_rule(2) [of env p fn s None s' "\<lambda>_. True"] by simp

text \<open>The first call succeeds and the context is open: \<open>Do\<close> returns its result at once.\<close>

lemma retry_DoCtx_first:
  "ctx_poll env s = None \<Longrightarrow> fn s = (None, s') \<Longrightarrow> retry_DoCtx env p fn s = (None, s')"
  by (cases "policy_rounds p") (auto simp: retry_DoCtx_def)

text \<open>A cancelled context stops the loop before the first call.\<close>

lemma retry_DoCtx_cancelled:
  "ctx_poll env s = Some e \<Longrightarrow> retry_DoCtx env p fn s = (Some e, s)"
  by (cases "policy_rounds p") (auto simp: retry_DoCtx_def)

lemma callWithContext_success:
  "callWithContext ctx env fn s = (None, s') \<Longrightarrow> fn s = (None, s')"
  by (auto simp: callWithContext_def split: option.splits call_race.splits)

lemma callWithContext_keeps:
  assumes "callWithContext ctx env fn s = (e, s')" and "I s" and "env_keeps env I"
    and fn: "\<And>s e s'. I s \<Longrightarrow> fn s = (e, s') \<Longrightarrow> I s'"
  shows "I s'"
proof (cases "ctx = None \<or> call_select env s = CallReturns")
  case True
  with assms(1) have "fn s = (e, s')" by (auto simp: callWithContext_def split: option.splits)
  with assms(2) fn show ?thesis by blast
next
  case False
  then obtain err b s1 where race: "call_select env s = CtxDone err b s1"
    by (cases "call_select env s") auto
  with assms(2,3) have "I s1" by (blast dest: env_keepsD_call)
  moreover have "s' = (if b then snd (fn s1) else s1)"
    using assms(1) race False by (auto simp: callWithContext_def)
  ultimately show ?thesis using fn by (metis surjective_pairing)
qed

text \<open>The pattern of every remote call of the Casdoor adapter.\<close>

definition retry_call :: "go_context \<Rightarrow> 's goenv \<Rightarrow> retry_policy \<Rightarrow> 's fallible \<Rightarrow> 's fallible" where
  "retry_call ctx env p fn s = retry_DoCtx env p (callWithContext (Some ctx) env fn) s"

lemma retry_call_rule:
  assumes "retry_call ctx env p fn s = (r, s')" and "I s" and "env_keeps env I"
    and fn: "\<And>s e s'. I s \<Longrightarrow> fn s = (e, s') \<Longrightarrow> I s'"
  shows "I s'" and "r = None \<Longrightarrow> \<exists>s0. I s0 \<and> fn s0 = (None, s')"
proof -
  have step: "I s'" if "I s" "callWithContext (Some ctx) env fn s = (e, s')" for s e s'
    using callWithContext_keeps [OF that(2,1) assms(3)] fn by blast
  note rule = retry_DoCtx_rule [OF assms(1) [unfolded retry_call_def] assms(2,3)]
  show "I s'" by (rule rule(1)) (rule step)
  show "\<exists>s0. I s0 \<and> fn s0 = (None, s')" if r: "r = None"
  proof -
    have "\<exists>s0. I s0 \<and> callWithContext (Some ctx) env fn s0 = (None, s')"
      by (rule rule(2)) (rule step, assumption+, rule that)
    then show ?thesis by (blast dest: callWithContext_success)
  qed
qed

lemma retry_call_success:
  "retry_call ctx env p fn s = (None, s') \<Longrightarrow> \<exists>s0. fn s0 = (None, s')"
  using retry_call_rule(2) [of ctx env p fn s None s' "\<lambda>_. True"] by simp

lemma retry_call_first:
  "ctx_poll env s = None \<Longrightarrow> call_select env s = CallReturns \<Longrightarrow> fn s = (None, s') \<Longrightarrow>
    retry_call ctx env p fn s = (None, s')"
  by (simp add: retry_call_def retry_DoCtx_first callWithContext_def)

section \<open>How often the function is called\<close>

definition counted :: "'s fallible \<Rightarrow> (nat \<times> 's) fallible" where
  "counted fn = (\<lambda>(k, s). case fn s of (e, s') \<Rightarrow> (e, (Suc k, s')))"

lemma retry_loop_counted:
  "retry_loop (lift_env env) b (counted fn) n err (k, s) = (r, (k', s')) \<Longrightarrow>
    k \<le> k' \<and> k' \<le> k + n"
proof (induction n arbitrary: err k s)
  case 0
  then show ?case by simp
next
  case (Suc n)
  obtain e s1 where fns: "fn s = (e, s1)" by (cases "fn s")
  obtain te s2 where tm: "timer_select env b s1 = (te, s2)" by (cases "timer_select env b s1")
  show ?case
    using Suc.prems Suc.IH [of _ "Suc k" s1] Suc.IH [of _ "Suc k" s2] fns tm
    by (auto simp: lift_env_def counted_def split: if_splits option.splits)
      (fastforce dest: Suc_leD)+
qed

lemma retry_loop_nil_failing:
  assumes "\<And>s. \<exists>e s'. fn s = (Some e, s')" and "0 < b"
  shows "retry_loop_nil b fn (Suc (Suc n)) err s = Panic nil_dereference"
  using assms(1) [of s] assms(2) by auto

lemma retry_loop_counted_first:
  assumes "retry_loop (lift_env env) b (counted fn) (Suc n) err (k, s) = (r, (k', s'))"
    and "ctx_poll env s = None"
  shows "k < k'"
proof -
  obtain e s1 where f: "fn s = (e, s1)" by fastforce
  obtain te s2 where t: "timer_select env b s1 = (te, s2)" by fastforce
  show ?thesis
    using assms f t retry_loop_counted [of env b fn n _ "Suc k" s1 r k' s']
      retry_loop_counted [of env b fn n _ "Suc k" s2 r k' s']
    by (fastforce simp: counted_def split: option.splits if_splits)
qed

text \<open>
  Effects are counted: when a call has its effect at most once, and exactly once when it returns nil,
  then so many effects are there at the end as calls had one.
\<close>

lemma retry_loop_effects:
  assumes "retry_loop env b fn n err s = (r, s')" and "P k s"
    and env: "\<And>k. env_keeps env (P k)"
    and fn: "\<And>k s e s'. P k s \<Longrightarrow> fn s = (e, s') \<Longrightarrow> P (Suc k) s' \<or> e \<noteq> None \<and> P k s'"
  shows "\<exists>k'. P k' s' \<and> k \<le> k' \<and> k' \<le> k + n \<and> (r = None \<longrightarrow> k < k' \<or> n = 0 \<and> err = None)"
  using assms(1,2)
proof (induction n arbitrary: err k s)
  case 0
  then show ?case by auto
next
  case (Suc n)
  show ?case
  proof (cases "ctx_poll env s")
    case (Some e)
    with Suc.prems show ?thesis by auto
  next
    case polled: None
    obtain e s1 where f: "fn s = (e, s1)" by fastforce
    obtain te s2 where t: "timer_select env b s1 = (te, s2)" by fastforce
    from fn [OF Suc.prems(2) f] obtain k1 where
      k1: "P k1 s1" "k \<le> k1" "k1 \<le> Suc k" "e = None \<Longrightarrow> k < k1" by fastforce
    have P2: "P k1 s2" using env_keepsD_timer [OF env k1(1) t] .
    show ?thesis
    proof (cases e)
      case None
      with polled f Suc.prems(1) k1 show ?thesis by auto
    next
      case (Some e')
      show ?thesis
      proof (cases "(n = 0 \<or> b \<le> 0) \<or> te = None")
        case True
        define s3 where "s3 = (if n = 0 \<or> b \<le> 0 then s1 else s2)"
        have "retry_loop env b fn n (Some e') s3 = (r, s')" and "P k1 s3"
          using Suc.prems(1) polled f t Some True k1(1) P2 by (auto simp: s3_def)
        from Suc.IH [OF this] obtain k' where
          "P k' s'" "k1 \<le> k'" "k' \<le> k1 + n" "r = None \<longrightarrow> k1 < k'" by auto
        with k1 show ?thesis by (intro exI [of _ k']) auto
      next
        case False
        with Suc.prems(1) polled f t Some have "s' = s2" "r = te" by auto
        with False P2 k1 show ?thesis by (intro exI [of _ k1]) auto
      qed
    qed
  qed
qed

lemma callWithContext_effects:
  assumes "callWithContext ctx env fn s = (e, s')" and "P k s"
    and env: "\<And>k. env_keeps env (P k)"
    and fn: "\<And>k s e s'. P k s \<Longrightarrow> fn s = (e, s') \<Longrightarrow> P (Suc k) s' \<or> e \<noteq> None \<and> P k s'"
  shows "P (Suc k) s' \<or> e \<noteq> None \<and> P k s'"
proof (cases "ctx = None \<or> call_select env s = CallReturns")
  case True
  with assms(1) have "fn s = (e, s')" by (auto simp: callWithContext_def split: option.splits)
  with assms(2) fn show ?thesis by blast
next
  case False
  then obtain err b s1 where race: "call_select env s = CtxDone err b s1"
    by (cases "call_select env s") auto
  have "P k s1" using env_keepsD_call [OF env assms(2) race] .
  moreover have "e = Some err" "s' = (if b then snd (fn s1) else s1)"
    using assms(1) race False by (auto simp: callWithContext_def)
  ultimately show ?thesis using fn [of k s1 "fst (fn s1)" "snd (fn s1)"] by auto
qed

lemma retry_call_effects:
  assumes "retry_call ctx env p fn s = (r, s')" and "P 0 s"
    and env: "\<And>k. env_keeps env (P k)"
    and fn: "\<And>k s e s'. P k s \<Longrightarrow> fn s = (e, s') \<Longrightarrow> P (Suc k) s' \<or> e \<noteq> None \<and> P k s'"
  shows "\<exists>k. P k s' \<and> k \<le> policy_rounds p \<and> (r = None \<longrightarrow> 0 < k)"
proof -
  have "P (Suc k) s' \<or> e \<noteq> None \<and> P k s'"
    if "P k s" "callWithContext (Some ctx) env fn s = (e, s')" for k s e s'
    using callWithContext_effects [where P = P, OF that(2,1) env fn] .
  from retry_loop_effects [where P = P,
      OF assms(1) [unfolded retry_call_def retry_DoCtx_def] assms(2) env this]
  show ?thesis by auto
qed

section \<open>Properties of retrying\<close>

text \<open>
  C30: a bounded number of attempts. Under every behaviour of the function, the timer and the context, Do
  calls the function at most as often as the policy says (once when it says nothing useful), at least
  once unless the context is cancelled already, and returns nil only right after a call that did.
\<close>

theorem retry_attempts_bounded:
  assumes "retry_Do (Some ctx) (lift_env env) p (counted fn) (0, s) = Ret (r, (k, s'))"
  shows "k \<le> policy_rounds p \<and> (ctx_poll env s = None \<longrightarrow> 0 < k) \<and>
    (r = None \<longrightarrow> (\<exists>s0. fn s0 = (None, s')))"
proof -
  have run: "retry_loop (lift_env env) (rp_Backoff p) (counted fn) (policy_rounds p) None (0, s) = (r, (k, s'))"
    using assms by (simp add: retry_Do_def retry_DoCtx_def)
  obtain n where n: "policy_rounds p = Suc n" by (cases "policy_rounds p") simp_all
  have "k \<le> policy_rounds p" using retry_loop_counted [OF run] by simp
  moreover have "0 < k" if "ctx_poll env s = None"
    using retry_loop_counted_first [OF run [unfolded n] that] .
  moreover have "\<exists>s0. fn s0 = (None, s')" if r: "r = None"
  proof -
    obtain v where "counted fn v = (None, (k, s'))"
      using retry_DoCtx_success [of "lift_env env" p "counted fn" "(0, s)" "(k, s')"] run r
      unfolding retry_DoCtx_def by blast
    then show ?thesis by (auto simp: counted_def split: prod.splits)
  qed
  ultimately show ?thesis by blast
qed

definition third_time :: "nat fallible" where
  "third_time n = (if n < 2 then (Some (ErrExt ''unavailable''), Suc n) else (None, Suc n))"

theorem retry_attempts_bounded_witness:
  "\<exists>k. retry_Do (Some context_Background) open_env \<lparr>rp_Attempts = 3, rp_Backoff = Second\<rparr>
      (counted third_time) (0, 0) = Ret (None, (k, 3)) \<and> 0 < k \<and> k \<le> 3"
proof -
  have r: "retry_Do (Some context_Background) (lift_env open_env) \<lparr>rp_Attempts = 3, rp_Backoff = Second\<rparr>
      (counted third_time) (0, 0) = Ret (None, (3, 3))"
    by (simp add: retry_Do_def retry_DoCtx_def policy_rounds_def eval_nat_numeral counted_def
        third_time_def)
  from retry_attempts_bounded [OF r] r show ?thesis by (auto simp: policy_rounds_def)
qed

text \<open>
  A nil context is not handled. Called with a nil context, a policy of two attempts or more and a
  backoff, Do panics as soon as the first attempt fails.
\<close>

theorem retry_nil_context_panics:
  assumes "2 \<le> rp_Attempts p" and "0 < rp_Backoff p" and "fn s = (Some e, s1)"
  shows "retry_Do None env p fn s = Panic nil_dereference"
proof -
  obtain n where "policy_rounds p = Suc (Suc n)"
    using assms(1) by (cases "policy_rounds p"; cases "policy_rounds p - 1") (auto simp: policy_rounds_def)
  with assms(2,3) show ?thesis by (simp add: retry_Do_def)
qed

theorem retry_nil_context_panics_witness:
  "retry_Do None open_env \<lparr>rp_Attempts = 3, rp_Backoff = Second\<rparr> third_time 0 = Panic nil_dereference"
  by (rule retry_nil_context_panics [where e = "ErrExt ''unavailable''" and ?s1.0 = 1])
    (simp_all add: third_time_def Second_def Millisecond_def)

end
