(* ===== verification/Authz.thy ===== *)
theory Authz
  imports Identity
begin

text \<open>
  Authorization checks of \<open>src/authz/authz.go\<close>. The interface \<open>Authorizer\<close> is the type
  \<open>authorizer\<close> of its method; its contract is the locale of the same name: an answer that comes with
  an error is a denial, and a request without a principal is refused.
\<close>

abbreviation ErrDenied :: go_error where
  "ErrDenied \<equiv> ErrNew ''authz'' ''permission denied''"
abbreviation ErrNotConfigured :: go_error where
  "ErrNotConfigured \<equiv> ErrNew ''authz'' ''authorizer is nil''"
abbreviation ErrEmptyAuthorization :: go_error where
  "ErrEmptyAuthorization \<equiv>
     ErrNew ''authz'' ''authorization resolver returned empty resource or action''"
abbreviation ErrResolverMissing :: go_error where
  "ErrResolverMissing \<equiv> ErrNew ''authz'' ''authz resolver is required''"

record authz_request =
  rq_Principal :: "principal option"
  rq_Resource :: string
  rq_Action :: string
  rq_Domain :: string
  rq_Extra :: "any list"

type_synonym authz_resolver = "go_context \<Rightarrow> any \<Rightarrow> string \<times> string \<times> go_error option"

record middleware_options =
  mw_AllowEmpty :: bool

type_synonym 'w authorizer =
  "go_context option \<Rightarrow> authz_request \<Rightarrow> 'w \<Rightarrow> (bool \<times> go_error option) \<times> 'w"

definition plain_request :: "principal \<Rightarrow> string \<Rightarrow> string \<Rightarrow> authz_request" where
  "plain_request p resource action =
     \<lparr>rq_Principal = Some p, rq_Resource = resource, rq_Action = action, rq_Domain = [],
      rq_Extra = []\<rparr>"

definition denied_error :: "principal \<Rightarrow> string \<Rightarrow> string \<Rightarrow> go_error" where
  "denied_error p resource action =
     wrapf [] ErrDenied ('': '' @ principal_Subject p @ '' cannot '' @ action @ '' '' @ resource)"

definition authz_RequirePrincipal ::
    "go_context option \<Rightarrow> 'w authorizer option \<Rightarrow> principal option \<Rightarrow> string \<Rightarrow> string \<Rightarrow> 'w
      \<Rightarrow> go_error option \<times> 'w" where
  "authz_RequirePrincipal ctx a p resource action w =
     (case p of
        None \<Rightarrow> (Some ErrMissingPrincipal, w)
      | Some p \<Rightarrow>
          if principal_IsZero p then (Some ErrMissingPrincipal, w)
          else (case a of
                  None \<Rightarrow> (Some ErrNotConfigured, w)
                | Some Authorize \<Rightarrow>
                    if resource = [] \<or> action = [] then (Some ErrEmptyAuthorization, w)
                    else (case Authorize ctx (plain_request p resource action) w of
                            ((ok, Some err), w') \<Rightarrow> (Some err, w')
                          | ((ok, None), w') \<Rightarrow>
                              if \<not> ok then (Some (denied_error p resource action), w')
                              else (None, w'))))"

definition authz_Require ::
    "go_context option \<Rightarrow> 'w authorizer option \<Rightarrow> string \<Rightarrow> string \<Rightarrow> 'w \<Rightarrow> go_error option \<times> 'w" where
  "authz_Require ctx a resource action w =
     (case principal_RequireFromContext ctx of
        Inl err \<Rightarrow> (Some err, w)
      | Inr p \<Rightarrow> authz_RequirePrincipal ctx a (Some p) resource action w)"

lemma RequirePrincipal_success:
  "authz_RequirePrincipal ctx a p resource action w = (None, w') \<longleftrightarrow>
    (\<exists>q Authorize. p = Some q \<and> \<not> principal_IsZero q \<and> a = Some Authorize \<and>
       resource \<noteq> [] \<and> action \<noteq> [] \<and>
       Authorize ctx (plain_request q resource action) w = ((True, None), w'))"
  by (auto simp: authz_RequirePrincipal_def split: option.splits if_splits prod.splits)

lemma denied_is_ErrDenied [simp]: "errors_Is (denied_error p resource action) ErrDenied"
  by (simp add: denied_error_def)

text \<open>Which error a refusal gives.\<close>

lemma RequirePrincipal_error:
  assumes "authz_RequirePrincipal ctx a p resource action w = (Some e, w')"
  shows "e = ErrMissingPrincipal \<or> e = ErrNotConfigured \<or> e = ErrEmptyAuthorization \<or>
    (\<exists>q. p = Some q \<and> e = denied_error q resource action) \<or>
    (\<exists>Authorize req ok. a = Some Authorize \<and> Authorize ctx req w = ((ok, Some e), w'))"
  using assms
  by (auto simp: authz_RequirePrincipal_def split: option.splits if_splits prod.splits)

section \<open>The contract of an authorizer\<close>

locale authorizer =
  fixes Authorize :: "'w authorizer"
  assumes fail_closed: "Authorize ctx req w = ((ok, Some err), w') \<Longrightarrow> \<not> ok"
    and needs_principal: "rq_Principal req = None \<Longrightarrow>
      \<exists>err w'. Authorize ctx req w = ((False, Some err), w')"
begin

lemma allowed_no_error: "Authorize ctx req w = ((True, err), w') \<Longrightarrow> err = None"
  using fail_closed by (cases err) blast+

lemma allowed_has_principal:
  "Authorize ctx req w = ((True, err), w') \<Longrightarrow> \<exists>p. rq_Principal req = Some p"
  using needs_principal [of req ctx w] by (cases "rq_Principal req") auto

text \<open>\<open>RequirePrincipal\<close> lets a request pass exactly when the authorizer answers true.\<close>

lemma require_iff_allowed:
  assumes "\<not> principal_IsZero p" and "resource \<noteq> []" and "action \<noteq> []"
  shows "fst (authz_RequirePrincipal ctx (Some Authorize) (Some p) resource action w) = None \<longleftrightarrow>
    fst (fst (Authorize ctx (plain_request p resource action) w))"
proof -
  obtain ok err w' where A: "Authorize ctx (plain_request p resource action) w = ((ok, err), w')"
    by (metis surj_pair)
  with assms allowed_no_error [of ctx "plain_request p resource action" w err w'] show ?thesis
    by (cases ok; cases err) (auto simp: authz_RequirePrincipal_def)
qed

end

end
