(* ===== verification/Authn.thy ===== *)
theory Authn
  imports Identity
begin

text \<open>
  Authentication of \<open>src/authn/authn.go\<close>: extracting a bearer token from a header and turning a
  token into a context that carries the principal; and the request and response types of
  \<open>src/authn/oauth.go\<close>. The interface \<open>Authenticator\<close> is the type \<open>authenticator\<close>; its contract is
  the locale of that name.
\<close>

abbreviation authn_ErrNotConfigured :: go_error where
  "authn_ErrNotConfigured \<equiv> ErrNew ''authn'' ''authenticator is nil''"
abbreviation ErrTokenMissing :: go_error where
  "ErrTokenMissing \<equiv> ErrNew ''authn'' ''missing bearer token''"
abbreviation ErrPrincipalEmpty :: go_error where
  "ErrPrincipalEmpty \<equiv> ErrNew ''authn'' ''token produced empty principal''"

type_synonym 'w authenticator =
  "go_context \<Rightarrow> string \<Rightarrow> 'w \<Rightarrow> (go_error + principal option) \<times> 'w"

text \<open>What a middleware of a service is configured with.\<close>

type_synonym token_extractor = "go_context \<Rightarrow> string \<times> bool"

record authn_options =
  ao_AllowAnonymous :: bool
  ao_TokenExtractor :: "token_extractor option"

definition ExtractBearer :: "string \<Rightarrow> string \<times> bool" where
  "ExtractBearer header0 =
     (let header = strings_TrimSpace header0
      in if header = [] then ([], False)
         else let parts = strings_SplitN2 header '' ''
              in if length parts = 2 \<and> strings_EqualFold (parts ! 0) ''Bearer'' \<and>
                    strings_TrimSpace (parts ! 1) \<noteq> []
                 then (strings_TrimSpace (parts ! 1), True)
                 else ([], False))"

definition AuthenticateToken ::
    "go_context \<Rightarrow> 'w authenticator option \<Rightarrow> string \<Rightarrow> bool \<Rightarrow> 'w
      \<Rightarrow> (go_context \<times> principal option \<times> go_error option) \<times> 'w" where
  "AuthenticateToken ctx a token allowAnonymous w =
     (let anonymous = (principal_NewContext ctx (Some principal_Anonymous),
                       Some principal_Anonymous, None)
      in case a of
           None \<Rightarrow>
             if allowAnonymous then (anonymous, w)
             else ((ctx, None, Some authn_ErrNotConfigured), w)
         | Some Authenticate \<Rightarrow>
             if token = [] then
               (if allowAnonymous then (anonymous, w) else ((ctx, None, Some ErrTokenMissing), w))
             else (case Authenticate ctx token w of
                     (Inl err, w') \<Rightarrow> ((ctx, None, Some err), w')
                   | (Inr None, w') \<Rightarrow> ((ctx, None, Some ErrPrincipalEmpty), w')
                   | (Inr (Some p), w') \<Rightarrow>
                       if principal_IsZero p then ((ctx, None, Some ErrPrincipalEmpty), w')
                       else (let p' = (if pr_Token p = [] then p\<lparr>pr_Token := token\<rparr> else p)
                             in ((principal_NewContext ctx (Some p'), Some p', None), w'))))"

section \<open>OAuth requests and responses\<close>

text \<open>\<open>url.Values\<close>: for each key its values in order.\<close>

type_synonym url_values = "(string \<times> string list) list"

abbreviation DefaultLoginScope :: string where
  "DefaultLoginScope \<equiv> ''openid profile email''"

record login_request =
  lr_RedirectURI :: string
  lr_State :: string
  lr_Scope :: string
  lr_Prompt :: string
  lr_Extra :: url_values

record logout_request =
  lo_IDTokenHint :: string
  lo_PostLogoutRedirectURI :: string
  lo_State :: string
  lo_Extra :: url_values

record exchange_code_request =
  xc_Code :: string
  xc_RedirectURI :: string
  xc_Extra :: url_values

record refresh_token_request =
  rf_RefreshToken :: string
  rf_Scope :: string
  rf_Extra :: url_values

record token_response =
  tr_AccessToken :: string
  tr_RefreshToken :: string
  tr_IDToken :: string
  tr_TokenType :: string
  tr_ExpiresIn :: int
  tr_Scope :: string
  tr_Raw :: string

text \<open>The three interfaces of a login provider.\<close>

type_synonym login_url_builder = "login_request \<Rightarrow> go_error + string"

type_synonym logout_url_builder = "logout_request \<Rightarrow> go_error + string"

record 'w oauth_exchanger =
  ox_ExchangeCode :: "exchange_code_request \<Rightarrow> 'w \<Rightarrow> (go_error + token_response) \<times> 'w"
  ox_RefreshToken :: "refresh_token_request \<Rightarrow> 'w \<Rightarrow> (go_error + token_response) \<times> 'w"

section \<open>Facts\<close>

lemma ExtractBearer_ok:
  assumes "ExtractBearer h = (tok, True)"
  shows "tok \<noteq> [] \<and> strings_TrimSpace tok = tok"
  using assms by (auto simp: ExtractBearer_def Let_def split: if_splits)

lemma ExtractBearer_fail: "ExtractBearer h = (tok, False) \<Longrightarrow> tok = []"
  by (auto simp: ExtractBearer_def Let_def split: if_splits)

lemma ExtractBearer_header:
  assumes "tok \<noteq> []" and "\<forall>c\<in>set tok. \<not> is_space c"
  shows "ExtractBearer (''Bearer '' @ tok) = (tok, True)"
proof -
  have trim: "strings_TrimSpace (''Bearer '' @ tok) = ''Bearer '' @ tok"
    unfolding strings_TrimSpace_def
    by (rule trim_func_id) (use assms in \<open>auto simp: is_space_def\<close>)
  have "strings_Cut (''Bearer'' @ CHR '' '' # tok) [CHR '' ''] = Some (''Bearer'', tok)"
    by (rule strings_Cut_char) simp
  then have "strings_SplitN2 (''Bearer '' @ tok) '' '' = [''Bearer'', tok]"
    by (simp add: strings_SplitN2_def)
  then show ?thesis
    using trim assms TrimSpace_id [OF assms(2)]
    by (simp add: ExtractBearer_def strings_EqualFold_def)
qed

lemma Anonymous_not_zero [simp]: "\<not> principal_IsZero principal_Anonymous"
  by (simp add: principal_Anonymous_def principal_IsZero_def)

text \<open>
  \<open>AuthenticateToken\<close> returns a context with the principal exactly when it returns no error, and
  leaves the context alone otherwise.
\<close>

lemma AuthenticateToken_ctx:
  assumes "AuthenticateToken ctx a token anon w = ((ctx', p, err), w')"
  shows "err = None \<Longrightarrow> \<exists>q. p = Some q \<and> \<not> principal_IsZero q \<and>
      ctx' = principal_NewContext ctx (Some q)"
    and "err \<noteq> None \<Longrightarrow> p = None \<and> ctx' = ctx"
  using assms
  by (auto simp: AuthenticateToken_def Let_def
      split: option.splits if_splits sum.splits prod.splits)

section \<open>The contract of an authenticator\<close>

locale authenticator =
  fixes Authenticate :: "'w authenticator"
  assumes principal_present: "Authenticate ctx token w = (Inr p, w') \<Longrightarrow>
      \<exists>q. p = Some q \<and> \<not> principal_IsZero q"
    and token_kept: "Authenticate ctx token w = (Inr (Some q), w') \<Longrightarrow> pr_Token q = token"
begin

text \<open>
  With such an authenticator the outcome for a token is decided by the authenticator alone: its
  principal is the one in the context, and the empty-principal error does not occur.
\<close>

lemma token_outcome:
  assumes "token \<noteq> []"
  shows "AuthenticateToken ctx (Some Authenticate) token anon w =
    (case Authenticate ctx token w of
       (Inl err, w') \<Rightarrow> ((ctx, None, Some err), w')
     | (Inr p, w') \<Rightarrow> ((principal_NewContext ctx p, p, None), w'))"
proof -
  obtain r w' where A: "Authenticate ctx token w = (r, w')"
    by (cases "Authenticate ctx token w")
  show ?thesis
  proof (cases r)
    case (Inl err)
    with A assms show ?thesis by (simp add: AuthenticateToken_def)
  next
    case (Inr p)
    then obtain q where "p = Some q" "\<not> principal_IsZero q" "pr_Token q = token"
      using A principal_present token_kept by blast
    with A Inr assms show ?thesis by (simp add: AuthenticateToken_def)
  qed
qed

end

end
