(* ===== verification/Audit_Events.thy ===== *)
theory Audit_Events
  imports Identity
begin

text \<open>
  Audit events of \<open>src/audit/audit.go\<close>: normalising, merging and recording them, and the bounded
  asynchronous recording. The readings of the clock are arguments, one per call of \<open>time.Now\<close>. The
  interface \<open>Recorder\<close> is the type \<open>recorder\<close>.
\<close>

abbreviation ResultSuccess :: string where "ResultSuccess \<equiv> ''success''"
abbreviation ResultFailed :: string where "ResultFailed \<equiv> ''failed''"

record event =
  ev_Name :: string
  ev_Actor :: "principal option"
  ev_Action :: string
  ev_Resource :: string
  ev_Result :: string
  ev_Message :: string
  ev_RequestID :: string
  ev_TraceID :: string
  ev_ClientIP :: string
  ev_UserAgent :: string
  ev_Method :: string
  ev_URI :: string
  ev_Operation :: string
  ev_StatusCode :: int
  ev_Component :: string
  ev_OrgID :: string
  ev_ProjectID :: string
  ev_StartedAt :: gtime
  ev_FinishedAt :: gtime
  ev_Duration :: duration
  ev_Metadata :: "(string \<rightharpoonup> string) option"

definition zero_event :: event where
  "zero_event =
     \<lparr>ev_Name = [], ev_Actor = None, ev_Action = [], ev_Resource = [], ev_Result = [],
      ev_Message = [], ev_RequestID = [], ev_TraceID = [], ev_ClientIP = [], ev_UserAgent = [],
      ev_Method = [], ev_URI = [], ev_Operation = [], ev_StatusCode = 0, ev_Component = [],
      ev_OrgID = [], ev_ProjectID = [], ev_StartedAt = 0, ev_FinishedAt = 0, ev_Duration = 0,
      ev_Metadata = None\<rparr>"

type_synonym audit_resolver = "go_context \<Rightarrow> any \<Rightarrow> any \<Rightarrow> go_error option \<Rightarrow> event"

record audit_options =
  ap_Component :: string
  ap_Resolver :: "audit_resolver option"
  ap_Async :: bool
  ap_AsyncLimit :: int
  ap_AsyncTimeout :: duration

type_synonym 'w recorder = "go_context option \<Rightarrow> event \<Rightarrow> 'w \<Rightarrow> go_error option \<times> 'w"

section \<open>Normalising\<close>

definition norm_times :: "gtime \<Rightarrow> gtime \<Rightarrow> event \<Rightarrow> event" where
  "norm_times now1 now2 base =
     (let b1 = (if time_IsZero (ev_StartedAt base) then base\<lparr>ev_StartedAt := now1\<rparr> else base);
          b2 = (if time_IsZero (ev_FinishedAt b1) then b1\<lparr>ev_FinishedAt := now2\<rparr> else b1)
      in b2\<lparr>ev_Duration := time_Sub (ev_FinishedAt b2) (ev_StartedAt b2)\<rparr>)"

definition norm_result :: "go_error option \<Rightarrow> event \<Rightarrow> event" where
  "norm_result err base =
     (let b1 = (if ev_Result base = []
                then base\<lparr>ev_Result := (if err \<noteq> None then ResultFailed else ResultSuccess)\<rparr>
                else base)
      in case err of
           Some e \<Rightarrow>
             (let b2 = (if ev_StatusCode b1 = 0 then b1\<lparr>ev_StatusCode := 500\<rparr> else b1)
              in if ev_Message b2 = [] then b2\<lparr>ev_Message := error_text e\<rparr> else b2)
         | None \<Rightarrow> if ev_StatusCode b1 = 0 then b1\<lparr>ev_StatusCode := 200\<rparr> else b1)"

definition norm_actor :: "go_context option \<Rightarrow> event \<Rightarrow> event" where
  "norm_actor ctx base =
     (case principal_FromContext ctx of
        (Some p, True) \<Rightarrow>
          (let b1 = base\<lparr>ev_Actor := Some p\<rparr>;
               b2 = (if ev_OrgID b1 = [] then b1\<lparr>ev_OrgID := pr_OrgID p\<rparr> else b1)
           in if ev_ProjectID b2 = [] then b2\<lparr>ev_ProjectID := pr_ProjectID p\<rparr> else b2)
      | _ \<Rightarrow> base)"

definition norm_name :: "event \<Rightarrow> event" where
  "norm_name base =
     (if ev_Name base = []
      then base\<lparr>ev_Name := firstNonEmpty [ev_Action base, ev_Operation base] @ '':'' @ ev_Resource base\<rparr>
      else base)"

definition audit_Normalize ::
    "gtime \<Rightarrow> gtime \<Rightarrow> go_context option \<Rightarrow> event \<Rightarrow> go_error option \<Rightarrow> event" where
  "audit_Normalize now1 now2 ctx base err =
     norm_name (norm_actor ctx (norm_result err (norm_times now1 now2 base)))"

section \<open>Recording\<close>

definition audit_Record ::
    "go_context option \<Rightarrow> 'w recorder option \<Rightarrow> event \<Rightarrow> 'w \<Rightarrow> go_error option \<times> 'w" where
  "audit_Record ctx r ev w = (case r of None \<Rightarrow> (None, w) | Some Record \<Rightarrow> Record ctx ev w)"

text \<open>
  \<open>RecordAsync\<close> runs in the caller's goroutine; the channel \<open>limit\<close> counts the calls that are
  running. A call is three steps: it takes a slot (or drops the event), records with a context that
  keeps the values but has its own timeout, and gives the slot back. \<open>None\<close> is a nil channel, a
  channel is its length and its capacity.
\<close>

type_synonym limit = "(nat \<times> nat) option"

definition async_timeout :: "duration \<Rightarrow> duration" where
  "async_timeout timeout = (if timeout \<le> 0 then 5 * Second else timeout)"

definition async_acquire :: "limit \<Rightarrow> limit option" where
  "async_acquire limit =
     (case limit of
        None \<Rightarrow> Some None
      | Some (len, cap) \<Rightarrow> if len < cap then Some (Some (Suc len, cap)) else None)"

definition async_release :: "limit \<Rightarrow> limit" where
  "async_release limit = map_option (\<lambda>(len, cap). (len - 1, cap)) limit"

text \<open>
  A whole call, with no other call in between; the recorder gets the timeout of its context.
\<close>

definition RecordAsync ::
    "go_context option \<Rightarrow> (duration \<Rightarrow> 'w recorder) option \<Rightarrow> event \<Rightarrow> duration
      \<Rightarrow> limit \<times> 'w \<Rightarrow> limit \<times> 'w" where
  "RecordAsync ctx r ev timeout st =
     (case r of
        None \<Rightarrow> st
      | Some Record \<Rightarrow>
          (case async_acquire (fst st) of
             None \<Rightarrow> st
           | Some limit' \<Rightarrow>
               (let (err, w') = Record (async_timeout timeout) ctx ev (snd st)
                in (async_release limit', w'))))"

section \<open>Merging\<close>

definition pick :: "'a \<Rightarrow> 'a \<Rightarrow> 'a \<Rightarrow> 'a" where
  "pick zero base override = (if override \<noteq> zero then override else base)"

definition audit_Merge :: "event \<Rightarrow> event \<Rightarrow> event" where
  "audit_Merge base override =
     \<lparr>ev_Name = pick [] (ev_Name base) (ev_Name override),
      ev_Actor = (if ev_Actor override \<noteq> None then ev_Actor override else ev_Actor base),
      ev_Action = pick [] (ev_Action base) (ev_Action override),
      ev_Resource = pick [] (ev_Resource base) (ev_Resource override),
      ev_Result = pick [] (ev_Result base) (ev_Result override),
      ev_Message = pick [] (ev_Message base) (ev_Message override),
      ev_RequestID = pick [] (ev_RequestID base) (ev_RequestID override),
      ev_TraceID = pick [] (ev_TraceID base) (ev_TraceID override),
      ev_ClientIP = pick [] (ev_ClientIP base) (ev_ClientIP override),
      ev_UserAgent = pick [] (ev_UserAgent base) (ev_UserAgent override),
      ev_Method = pick [] (ev_Method base) (ev_Method override),
      ev_URI = pick [] (ev_URI base) (ev_URI override),
      ev_Operation = pick [] (ev_Operation base) (ev_Operation override),
      ev_StatusCode = pick 0 (ev_StatusCode base) (ev_StatusCode override),
      ev_Component = pick [] (ev_Component base) (ev_Component override),
      ev_OrgID = pick [] (ev_OrgID base) (ev_OrgID override),
      ev_ProjectID = pick [] (ev_ProjectID base) (ev_ProjectID override),
      ev_StartedAt =
        (if \<not> time_IsZero (ev_StartedAt override) then ev_StartedAt override else ev_StartedAt base),
      ev_FinishedAt =
        (if \<not> time_IsZero (ev_FinishedAt override) then ev_FinishedAt override else ev_FinishedAt base),
      ev_Duration = pick 0 (ev_Duration base) (ev_Duration override),
      ev_Metadata = (if ev_Metadata override \<noteq> None then ev_Metadata override else ev_Metadata base)\<rparr>"

section \<open>Concurrent asynchronous recording\<close>

text \<open>
  Calls of \<open>RecordAsync\<close> on one channel interleave: a call starts (takes a slot and is in flight),
  is dropped, or finishes (gives its slot back).
\<close>

record async_state =
  as_limit :: limit
  as_inflight :: "event list"
  as_dropped :: "event list"

inductive async_step :: "async_state \<Rightarrow> async_state \<Rightarrow> bool" where
  start: "async_acquire (as_limit s) = Some l \<Longrightarrow>
    async_step s (s\<lparr>as_limit := l, as_inflight := ev # as_inflight s\<rparr>)"
| drop: "async_acquire (as_limit s) = None \<Longrightarrow>
    async_step s (s\<lparr>as_dropped := ev # as_dropped s\<rparr>)"
| finish: "ev \<in> set (as_inflight s) \<Longrightarrow>
    async_step s (s\<lparr>as_limit := async_release (as_limit s),
                    as_inflight := remove1 ev (as_inflight s)\<rparr>)"

definition async_init :: "nat \<Rightarrow> async_state" where
  "async_init cap = \<lparr>as_limit = Some (0, cap), as_inflight = [], as_dropped = []\<rparr>"

definition async_inv :: "nat \<Rightarrow> async_state \<Rightarrow> bool" where
  "async_inv cap s \<longleftrightarrow>
     as_limit s = Some (length (as_inflight s), cap) \<and> length (as_inflight s) \<le> cap"

lemma async_inv_init [simp]: "async_inv cap (async_init cap)"
  by (simp add: async_inv_def async_init_def)

lemma async_step_inv: "async_step s t \<Longrightarrow> async_inv cap s \<Longrightarrow> async_inv cap t"
  by (induction rule: async_step.induct)
    (auto simp: async_inv_def async_acquire_def async_release_def length_remove1
      split: if_splits)

lemma async_reach_inv: "async_step\<^sup>*\<^sup>* (async_init cap) s \<Longrightarrow> async_inv cap s"
  by (induction rule: rtranclp_induct) (auto intro: async_step_inv)

lemma async_drop_full:
  "async_inv cap s \<Longrightarrow> async_acquire (as_limit s) = None \<longleftrightarrow> length (as_inflight s) = cap"
  by (auto simp: async_inv_def async_acquire_def)

section \<open>Facts about normalising\<close>

lemmas norm_defs = norm_times_def norm_result_def norm_actor_def norm_name_def Let_def

lemma norm_name_nonempty [simp]: "ev_Name (norm_name ev) \<noteq> []"
  by (simp add: norm_name_def)

lemma norm_name_other [simp]:
  "ev_Result (norm_name ev) = ev_Result ev" "ev_StatusCode (norm_name ev) = ev_StatusCode ev"
  "ev_StartedAt (norm_name ev) = ev_StartedAt ev" "ev_FinishedAt (norm_name ev) = ev_FinishedAt ev"
  "ev_Duration (norm_name ev) = ev_Duration ev" "ev_Actor (norm_name ev) = ev_Actor ev"
  "ev_OrgID (norm_name ev) = ev_OrgID ev" "ev_ProjectID (norm_name ev) = ev_ProjectID ev"
  "ev_Message (norm_name ev) = ev_Message ev" "ev_Action (norm_name ev) = ev_Action ev"
  "ev_Resource (norm_name ev) = ev_Resource ev" "ev_Component (norm_name ev) = ev_Component ev"
  by (simp_all add: norm_name_def)

lemma norm_actor_other [simp]:
  "ev_Result (norm_actor ctx ev) = ev_Result ev"
  "ev_StatusCode (norm_actor ctx ev) = ev_StatusCode ev"
  "ev_StartedAt (norm_actor ctx ev) = ev_StartedAt ev"
  "ev_FinishedAt (norm_actor ctx ev) = ev_FinishedAt ev"
  "ev_Duration (norm_actor ctx ev) = ev_Duration ev"
  "ev_Message (norm_actor ctx ev) = ev_Message ev"
  "ev_Action (norm_actor ctx ev) = ev_Action ev"
  "ev_Resource (norm_actor ctx ev) = ev_Resource ev"
  "ev_Component (norm_actor ctx ev) = ev_Component ev"
  "ev_Name (norm_actor ctx ev) = ev_Name ev"
  using FromContext_cases [of ctx] by (auto simp: norm_actor_def Let_def)

lemma norm_actor_Actor:
  "principal_FromContext ctx = (Some p, True) \<Longrightarrow> ev_Actor (norm_actor ctx ev) = Some p"
  by (simp add: norm_actor_def Let_def)

lemma norm_result_other [simp]:
  "ev_StartedAt (norm_result err ev) = ev_StartedAt ev"
  "ev_FinishedAt (norm_result err ev) = ev_FinishedAt ev"
  "ev_Duration (norm_result err ev) = ev_Duration ev"
  "ev_Action (norm_result err ev) = ev_Action ev"
  "ev_Resource (norm_result err ev) = ev_Resource ev"
  "ev_Component (norm_result err ev) = ev_Component ev"
  "ev_Actor (norm_result err ev) = ev_Actor ev"
  by (auto simp: norm_result_def Let_def split: option.splits)

lemma norm_result_Result:
  "ev_Result (norm_result err ev) =
    (if ev_Result ev \<noteq> [] then ev_Result ev else if err = None then ResultSuccess else ResultFailed)"
  by (auto simp: norm_result_def Let_def split: option.splits)

lemma norm_result_StatusCode:
  "ev_StatusCode (norm_result err ev) =
    (if ev_StatusCode ev \<noteq> 0 then ev_StatusCode ev else if err = None then 200 else 500)"
  by (auto simp: norm_result_def Let_def split: option.splits)

lemma norm_result_Message:
  "ev_Message (norm_result err ev) =
    (if ev_Message ev \<noteq> [] then ev_Message ev
     else case err of None \<Rightarrow> [] | Some e \<Rightarrow> error_text e)"
  by (auto simp: norm_result_def Let_def split: option.splits)

lemma norm_times_other [simp]:
  "ev_Result (norm_times a b ev) = ev_Result ev" "ev_StatusCode (norm_times a b ev) = ev_StatusCode ev"
  "ev_Message (norm_times a b ev) = ev_Message ev" "ev_Action (norm_times a b ev) = ev_Action ev"
  "ev_Resource (norm_times a b ev) = ev_Resource ev" "ev_Component (norm_times a b ev) = ev_Component ev"
  "ev_Actor (norm_times a b ev) = ev_Actor ev"
  by (simp_all add: norm_times_def Let_def)

lemma norm_times_times:
  "ev_StartedAt (norm_times a b ev) = (if time_IsZero (ev_StartedAt ev) then a else ev_StartedAt ev)"
  "ev_FinishedAt (norm_times a b ev) = (if time_IsZero (ev_FinishedAt ev) then b else ev_FinishedAt ev)"
  "ev_Duration (norm_times a b ev) =
     time_Sub (ev_FinishedAt (norm_times a b ev)) (ev_StartedAt (norm_times a b ev))"
  by (simp_all add: norm_times_def Let_def)

section \<open>Facts about merging\<close>

lemma pick_assoc: "pick z (pick z a b) c = pick z a (pick z b c)"
  by (simp add: pick_def)

lemma pick_zero [simp]: "pick z a z = a" "pick z z a = a"
  by (auto simp: pick_def)

section \<open>Properties of audit events\<close>

text \<open>
  C22: asynchronous recording is bounded. However the calls of RecordAsync on a channel of capacity cap
  interleave, at most cap events are being recorded at a time, the channel holds one slot for each of
  them, an event is dropped only when cap events are in flight, and once the calls in flight have
  finished all the slots are free again.
\<close>

theorem async_recording_bounded:
  assumes "async_step\<^sup>*\<^sup>* (async_init cap) s"
  shows "length (as_inflight s) \<le> cap \<and> as_limit s = Some (length (as_inflight s), cap) \<and>
    (async_acquire (as_limit s) = None \<longleftrightarrow> length (as_inflight s) = cap) \<and>
    (\<exists>t. async_step\<^sup>*\<^sup>* s t \<and> as_limit t = Some (0, cap) \<and> as_dropped t = as_dropped s)"
proof -
  have inv: "async_inv cap s" using async_reach_inv [OF assms] .
  have "\<exists>t. async_step\<^sup>*\<^sup>* s t \<and> as_limit t = Some (0, cap) \<and> as_dropped t = as_dropped s"
    using inv
  proof (induction "length (as_inflight s)" arbitrary: s)
    case 0
    then show ?case by (auto simp: async_inv_def)
  next
    case (Suc n)
    then obtain ev evs where ev: "as_inflight s = ev # evs" by (cases "as_inflight s") auto
    define t where "t = s\<lparr>as_limit := async_release (as_limit s), as_inflight := remove1 ev (as_inflight s)\<rparr>"
    have st: "async_step s t" unfolding t_def by (rule finish) (simp add: ev)
    have "n = length (as_inflight t)" "as_dropped t = as_dropped s"
      using Suc(2) ev by (simp_all add: t_def)
    with Suc(1) [of t] async_step_inv [OF st Suc.prems] st show ?case
      by (metis converse_rtranclp_into_rtranclp)
  qed
  with inv async_drop_full [OF inv] show ?thesis by (auto simp: async_inv_def)
qed

theorem async_recording_bounded_witness:
  "async_step\<^sup>*\<^sup>* (async_init 1) \<lparr>as_limit = Some (1, 1), as_inflight = [zero_event], as_dropped = []\<rparr> \<and>
   async_acquire (Some (1, 1)) = None"
proof -
  let ?s = "\<lparr>as_limit = Some (1, 1), as_inflight = [zero_event], as_dropped = []\<rparr>"
  have "async_step (async_init 1) ?s"
    using start [of "async_init 1" "Some (1, 1)" zero_event] by (simp add: async_init_def async_acquire_def)
  then have r: "async_step\<^sup>*\<^sup>* (async_init 1) ?s" by blast
  from async_recording_bounded [OF r] r show ?thesis by simp
qed

text \<open>
  A normalised event is complete. Normalize leaves no event without a name, a result, a status code
  and a duration that is the time from its start to its end; a result, status code or name that the
  caller has set is kept, and an error makes it a failure.
\<close>

theorem normalized_event_complete:
  "ev_Name (audit_Normalize t1 t2 ctx ev err) \<noteq> [] \<and>
   ev_Result (audit_Normalize t1 t2 ctx ev err) =
     (if ev_Result ev \<noteq> [] then ev_Result ev else if err = None then ResultSuccess else ResultFailed) \<and>
   ev_StatusCode (audit_Normalize t1 t2 ctx ev err) =
     (if ev_StatusCode ev \<noteq> 0 then ev_StatusCode ev else if err = None then 200 else 500) \<and>
   ev_Duration (audit_Normalize t1 t2 ctx ev err) =
     time_Sub (ev_FinishedAt (audit_Normalize t1 t2 ctx ev err))
       (ev_StartedAt (audit_Normalize t1 t2 ctx ev err))"
  by (simp add: audit_Normalize_def norm_result_Result norm_result_StatusCode norm_times_times)

text \<open>
  Merging events. Merge is associative and an empty event changes nothing on either side, so a chain
  of overrides can be merged in any grouping.
\<close>

theorem audit_merge_monoid:
  "audit_Merge (audit_Merge a b) c = audit_Merge a (audit_Merge b c) \<and>
   audit_Merge a zero_event = a \<and> audit_Merge zero_event a = a"
  by (auto simp: audit_Merge_def zero_event_def pick_assoc time_IsZero_def)

end
