(* ===== verification/Casdoor_Adapter.thy ===== *)
theory Casdoor_Adapter
  imports Casdoor_Config Metrics Retry Authz Authn Audit_Events
begin

text \<open>
  The Casdoor adapter of \<open>src/casdoor/adapter.go\<close>: construction, ping, authentication,
  authorization and audit records. The Casdoor SDK client is a parameter, the record
  \<open>casdoor_client\<close>: each of its calls takes the state \<open>'x\<close> of the remote service and returns the
  new one. The context argument is one that is not nil; its cancellation is the environment
  \<open>goenv\<close> of theory Retry. The adapter provides the contracts \<open>authorizer\<close> and \<open>authenticator\<close>.
\<close>

section \<open>The SDK client\<close>

record selectors =
  se_PermissionID :: string
  se_ModelID :: string
  se_ResourceID :: string
  se_EnforcerID :: string
  se_Owner :: string

record jwt_claims =
  jc_Name :: string
  jc_DisplayName :: string
  jc_Email :: string
  jc_Avatar :: string
  jc_Owner :: string
  jc_Issuer :: string
  jc_Subject :: string
  jc_Audience :: "string list"

record enforcer =
  en_Owner :: string
  en_Name :: string

text \<open>A Casbin rule; \<open>cr_more\<close> holds the columns after the third.\<close>

record casbin_rule =
  cr_Ptype :: string
  cr_V0 :: string
  cr_V1 :: string
  cr_V2 :: string
  cr_more :: "string list"

record casdoor_record =
  cd_Owner :: string
  cd_Name :: string
  cd_CreatedTime :: string
  cd_Organization :: string
  cd_ClientIp :: string
  cd_User :: string
  cd_Method :: string
  cd_RequestUri :: string
  cd_Action :: string
  cd_StatusCode :: int
  cd_Response :: string
  cd_Object :: string
  cd_IsTriggered :: bool

record 'x casdoor_client =
  sdk_GetApplication :: "string \<Rightarrow> 'x fallible"
  sdk_ParseJwtToken :: "string \<Rightarrow> 'x \<Rightarrow> go_error + jwt_claims"
  sdk_Enforce :: "selectors \<Rightarrow> any list \<Rightarrow> 'x \<Rightarrow> (bool \<times> go_error option) \<times> 'x"
  sdk_AddRecord :: "casdoor_record \<Rightarrow> 'x fallible"
  sdk_AddPolicy :: "enforcer \<Rightarrow> casbin_rule \<Rightarrow> 'x \<Rightarrow> (bool \<times> go_error option) \<times> 'x"
  sdk_RemovePolicy :: "enforcer \<Rightarrow> casbin_rule \<Rightarrow> 'x \<Rightarrow> (bool \<times> go_error option) \<times> 'x"
  sdk_GetPolicies :: "string \<Rightarrow> string \<Rightarrow> 'x \<Rightarrow> (casbin_rule option list \<times> go_error option) \<times> 'x"

section \<open>Construction\<close>

record 'x adapter =
  ad_cfg :: casdoor_config
  ad_client :: "'x casdoor_client"
  ad_retry :: retry_policy
  ad_timeout :: duration

definition adapter_timeout :: "casdoor_config \<Rightarrow> duration" where
  "adapter_timeout cfg =
     (if cc_HTTPTimeout cfg \<noteq> [] then
        (case time_ParseDuration (cc_HTTPTimeout cfg) of
           Inr d \<Rightarrow> if 0 < d then d else 10 * Second
         | Inl _ \<Rightarrow> 10 * Second)
      else 10 * Second)"

definition newAdapter ::
    "certlib \<Rightarrow> (casdoor_config \<Rightarrow> 'x casdoor_client) \<Rightarrow> casdoor_config \<Rightarrow> bool \<Rightarrow> bool
      \<Rightarrow> go_error + 'x adapter" where
  "newAdapter lib NewClient cfg requireCertificate validateProvidedCertificate =
     (let timeout = adapter_timeout cfg;
          certificate0 = normalizePEMText (cc_Certificate cfg);
          cert = (if requireCertificate \<or>
                     (validateProvidedCertificate \<and>
                       (certificate0 \<noteq> [] \<or> strings_TrimSpace (cc_CertificateFile cfg) \<noteq> []))
                  then NormalizedCertificate lib cfg else Inr certificate0)
      in case cert of
           Inl err \<Rightarrow> Inl err
         | Inr certificate \<Rightarrow>
             (let cfg' = cfg\<lparr>cc_Certificate := certificate\<rparr>
              in Inr \<lparr>ad_cfg = cfg', ad_client = NewClient cfg',
                      ad_retry = retry_NewPolicy \<lparr>rc_Attempts = cc_RetryAttempts cfg',
                                                  rc_Backoff = cc_RetryBackoff cfg'\<rparr>,
                      ad_timeout = timeout\<rparr>))"

text \<open>\<open>New\<close> returns the adapter and only logs an error; a nil adapter is \<^term>\<open>None\<close>.\<close>

definition casdoor_New ::
    "certlib \<Rightarrow> (casdoor_config \<Rightarrow> 'x casdoor_client) \<Rightarrow> casdoor_config \<Rightarrow> 'x adapter option" where
  "casdoor_New lib NewClient cfg =
     (case newAdapter lib NewClient cfg False False of Inl _ \<Rightarrow> None | Inr a \<Rightarrow> Some a)"

definition casdoor_NewChecked ::
    "certlib \<Rightarrow> (casdoor_config \<Rightarrow> 'x casdoor_client) \<Rightarrow> casdoor_config \<Rightarrow> go_error + 'x adapter" where
  "casdoor_NewChecked lib NewClient cfg = newAdapter lib NewClient cfg True True"

section \<open>Ping\<close>

definition adapter_Ping ::
    "'x adapter \<Rightarrow> 'x goenv \<Rightarrow> go_context option \<Rightarrow> 'x world \<Rightarrow> go_error option \<times> 'x world" where
  "adapter_Ping a env ctx w =
     (let (err, s) = callWithContext ctx env
                       (sdk_GetApplication (ad_client a) (cc_Application (ad_cfg a))) (service w)
      in (err, observe_dependency ''casdoor'' ''ping'' err (w\<lparr>service := s\<rparr>)))"

section \<open>Authentication\<close>

definition sprint_strings :: "string list \<Rightarrow> string" where
  "sprint_strings xs = ''['' @ strings_Join xs '' '' @ '']''"

definition claims_principal :: "casdoor_config \<Rightarrow> string \<Rightarrow> jwt_claims \<Rightarrow> principal" where
  "claims_principal cfg token claims =
     (let p = \<lparr>pr_SubjectType = SubjectUser, pr_SubjectID = jc_Name claims,
               pr_Name = jc_Name claims, pr_DisplayName = jc_DisplayName claims,
               pr_Email = jc_Email claims, pr_Avatar = jc_Avatar claims,
               pr_OrgID = jc_Owner claims, pr_ProjectID = [], pr_Roles = [], pr_Groups = [],
               pr_Token = token, pr_TokenID = [],
               pr_Claims = Some [''issuer'' \<mapsto> AStr (jc_Issuer claims),
                                 ''subject'' \<mapsto> AStr (jc_Subject claims),
                                 ''audience'' \<mapsto> AStr (sprint_strings (jc_Audience claims))],
               pr_Attributes = None\<rparr>;
          p1 = (if pr_SubjectID p = [] then p\<lparr>pr_SubjectID := jc_Subject claims\<rparr> else p)
      in if pr_OrgID p1 = [] then p1\<lparr>pr_OrgID := cc_Organization cfg\<rparr> else p1)"

definition adapter_Authenticate ::
    "'x adapter \<Rightarrow> 'x goenv \<Rightarrow> go_context \<Rightarrow> string \<Rightarrow> 'x world
      \<Rightarrow> (go_error + principal option) \<times> 'x world" where
  "adapter_Authenticate a env ctx token w =
     (case sdk_ParseJwtToken (ad_client a) token (service w) of
        Inl err \<Rightarrow> (Inl err, observe_dependency ''casdoor'' ''parse_jwt'' (Some err) w)
      | Inr claims \<Rightarrow>
          (let w' = observe_dependency ''casdoor'' ''parse_jwt'' None w
           in case ctx_poll env (service w') of
                Some err \<Rightarrow> (Inl err, w')
              | None \<Rightarrow> (Inr (Some (claims_principal (ad_cfg a) token claims)), w')))"

section \<open>Authorization\<close>

definition no_selectors :: selectors where
  "no_selectors =
     \<lparr>se_PermissionID = [], se_ModelID = [], se_ResourceID = [], se_EnforcerID = [], se_Owner = []\<rparr>"

definition enforceSelectors :: "casdoor_config \<Rightarrow> selectors" where
  "enforceSelectors cfg =
     (if cc_PermissionID cfg \<noteq> [] then no_selectors\<lparr>se_PermissionID := cc_PermissionID cfg\<rparr>
      else if cc_ModelID cfg \<noteq> [] then no_selectors\<lparr>se_ModelID := cc_ModelID cfg\<rparr>
      else if cc_ResourceID cfg \<noteq> [] then no_selectors\<lparr>se_ResourceID := cc_ResourceID cfg\<rparr>
      else if cc_EnforcerID cfg \<noteq> [] then no_selectors\<lparr>se_EnforcerID := cc_EnforcerID cfg\<rparr>
      else if cc_Owner cfg \<noteq> [] then no_selectors\<lparr>se_Owner := cc_Owner cfg\<rparr>
      else no_selectors)"

definition casbin_request ::
    "string \<Rightarrow> string \<Rightarrow> string \<Rightarrow> string \<Rightarrow> any list \<Rightarrow> any list" where
  "casbin_request subject domain resource action extra =
     (let req = (if domain \<noteq> [] then [AStr subject, AStr domain, AStr resource, AStr action]
                 else [AStr subject, AStr resource, AStr action])
      in if extra \<noteq> [] then req @ extra else req)"

text \<open>
  The closure that \<open>Authorize\<close> and \<open>Check\<close> retry: it calls \<open>Enforce\<close> and writes the captured
  variable \<open>allowed\<close>.
\<close>

definition enforce_closure ::
    "'x casdoor_client \<Rightarrow> selectors \<Rightarrow> any list \<Rightarrow> (bool \<times> 'x) fallible" where
  "enforce_closure c sel req vs =
     (case sdk_Enforce c sel req (snd vs) of ((v, err), s') \<Rightarrow> (err, (v, s')))"

definition enforce_retry ::
    "'x adapter \<Rightarrow> 'x goenv \<Rightarrow> go_context \<Rightarrow> any list \<Rightarrow> 'x \<Rightarrow> go_error option \<times> (bool \<times> 'x)" where
  "enforce_retry a env ctx req s =
     retry_call ctx (lift_env env) (ad_retry a)
       (enforce_closure (ad_client a) (enforceSelectors (ad_cfg a)) req) (False, s)"

definition missing_selector :: go_error where
  "missing_selector =
     Errorf ''one of casdoor permission_id/model_id/resource_id/enforcer_id/owner is required''"

definition adapter_Authorize ::
    "'x adapter \<Rightarrow> 'x goenv \<Rightarrow> go_context \<Rightarrow> authz_request \<Rightarrow> 'x world
      \<Rightarrow> (bool \<times> go_error option) \<times> 'x world" where
  "adapter_Authorize a env ctx req w =
     (case rq_Principal req of
        None \<Rightarrow> ((False, Some ErrMissingPrincipal), w)
      | Some p \<Rightarrow>
          if enforceSelectors (ad_cfg a) = no_selectors then ((False, Some missing_selector), w)
          else (case enforce_retry a env ctx
                       (casbin_request (principal_Subject p) (rq_Domain req) (rq_Resource req)
                          (rq_Action req) (rq_Extra req)) (service w) of
                  (err, (allowed, s)) \<Rightarrow>
                    (let w' = observe_dependency ''casdoor'' ''enforce'' err (w\<lparr>service := s\<rparr>)
                     in case err of
                          Some e \<Rightarrow> ((False, Some e), w')
                        | None \<Rightarrow> ((allowed, None), w'))))"

text \<open>
  The adapter as a value of the interface \<open>Authorizer\<close>. Its callers hold a context option; the
  adapter's code assumes one that is not nil, and the checks that come before a call
  (a principal in the context) exclude a nil context.
\<close>

definition adapter_authorizer :: "'x adapter \<Rightarrow> 'x goenv \<Rightarrow> 'x world authorizer" where
  "adapter_authorizer a env ctx req w =
     adapter_Authorize a env (case ctx of Some c \<Rightarrow> c | None \<Rightarrow> context_Background) req w"

section \<open>Audit records\<close>

text \<open>
  What \<open>Record\<close> draws from outside: eight random bytes, the clock as nanoseconds and as an RFC 3339
  text, and the JSON encoding of an event.
\<close>

record record_inputs =
  ri_rand :: "go_error + string"
  ri_unixnano :: int
  ri_created :: string
  ri_marshal :: "event \<Rightarrow> go_error + string"

definition randomName :: "record_inputs \<Rightarrow> string \<Rightarrow> string" where
  "randomName ri pre =
     (case ri_rand ri of
        Inl _ \<Rightarrow> pre @ ''_'' @ strconv_Itoa (ri_unixnano ri)
      | Inr b \<Rightarrow> pre @ ''_'' @ hex_EncodeToString b)"

definition event_record :: "casdoor_config \<Rightarrow> record_inputs \<Rightarrow> event \<Rightarrow> casdoor_record" where
  "event_record cfg ri ev =
     (let actor = (case ev_Actor ev of None \<Rightarrow> ''anonymous'' | Some p \<Rightarrow> pr_SubjectID p);
          org = (case ev_Actor ev of
                   None \<Rightarrow> cc_Organization cfg
                 | Some p \<Rightarrow> if pr_OrgID p \<noteq> [] then pr_OrgID p else cc_Organization cfg);
          name = (if ev_Name ev = [] then randomName ri ''record'' else ev_Name ev);
          object = (case ri_marshal ri ev of Inl _ \<Rightarrow> ''{}'' | Inr b \<Rightarrow> b)
      in \<lparr>cd_Owner = cc_Organization cfg, cd_Name = name, cd_CreatedTime = ri_created ri,
          cd_Organization = org, cd_ClientIp = ev_ClientIP ev, cd_User = actor,
          cd_Method = ev_Method ev, cd_RequestUri = firstNonEmpty [ev_URI ev, ev_Operation ev],
          cd_Action = ev_Action ev, cd_StatusCode = ev_StatusCode ev, cd_Response = ev_Message ev,
          cd_Object = object, cd_IsTriggered = True\<rparr>)"

definition adapter_Record ::
    "'x adapter \<Rightarrow> 'x goenv \<Rightarrow> record_inputs \<Rightarrow> go_context \<Rightarrow> event \<Rightarrow> 'x world
      \<Rightarrow> go_error option \<times> 'x world" where
  "adapter_Record a env ri ctx ev w =
     (let record = event_record (ad_cfg a) ri ev;
          (err, s) = retry_call ctx env (ad_retry a) (sdk_AddRecord (ad_client a) record) (service w)
      in (err, observe_dependency ''casdoor'' ''add_record'' err (w\<lparr>service := s\<rparr>)))"

text \<open>
  The adapter as a value of the interface \<open>Recorder\<close>, for a context that is not nil: with a nil one
  the code runs into the panic of \<open>retry_Do\<close> when the first call fails.
\<close>

definition adapter_recorder :: "'x adapter \<Rightarrow> 'x goenv \<Rightarrow> record_inputs \<Rightarrow> 'x world recorder" where
  "adapter_recorder a env ri ctx ev w =
     adapter_Record a env ri (case ctx of Some c \<Rightarrow> c | None \<Rightarrow> context_Background) ev w"

section \<open>Facts about construction\<close>

lemma casdoor_New_total:
  "\<exists>a. casdoor_New lib NewClient cfg = Some a \<and>
    cc_Certificate (ad_cfg a) = normalizePEMText (cc_Certificate cfg)"
  by (simp add: casdoor_New_def newAdapter_def Let_def)

lemma casdoor_NewChecked_iff:
  "(\<exists>a. casdoor_NewChecked lib NewClient cfg = Inr a \<and> cc_Certificate (ad_cfg a) = cert) \<longleftrightarrow>
    NormalizedCertificate lib cfg = Inr cert"
  by (auto simp: casdoor_NewChecked_def newAdapter_def Let_def split: sum.splits)

lemma adapter_timeout_pos: "0 < adapter_timeout cfg"
  by (auto simp: adapter_timeout_def Second_def split: sum.splits)

section \<open>Facts about selectors\<close>

definition selector_list :: "selectors \<Rightarrow> string list" where
  "selector_list s =
     [se_PermissionID s, se_ModelID s, se_ResourceID s, se_EnforcerID s, se_Owner s]"

lemma enforceSelectors_one:
  "length (filter (\<lambda>v. v \<noteq> []) (selector_list (enforceSelectors cfg))) =
    (if enforceSelectors cfg = no_selectors then 0 else 1)"
  by (simp add: enforceSelectors_def selector_list_def no_selectors_def)

lemma enforceSelectors_none:
  "enforceSelectors cfg = no_selectors \<longleftrightarrow>
    cc_PermissionID cfg = [] \<and> cc_ModelID cfg = [] \<and> cc_ResourceID cfg = [] \<and>
    cc_EnforcerID cfg = [] \<and> cc_Owner cfg = []"
  by (simp add: enforceSelectors_def no_selectors_def)

section \<open>Facts about authorization\<close>

lemma enforce_retry_success:
  assumes "enforce_retry a env ctx req s = (None, (allowed, s'))"
  shows "\<exists>s0. sdk_Enforce (ad_client a) (enforceSelectors (ad_cfg a)) req s0 = ((allowed, None), s')"
proof -
  from assms obtain vs where "enforce_closure (ad_client a) (enforceSelectors (ad_cfg a)) req vs =
      (None, (allowed, s'))"
    unfolding enforce_retry_def by (blast dest: retry_call_success)
  then show ?thesis by (auto simp: enforce_closure_def split: prod.splits)
qed

lemma adapter_Authorize_error:
  "adapter_Authorize a env ctx req w = ((ok, Some err), w') \<Longrightarrow> \<not> ok"
  by (auto simp: adapter_Authorize_def Let_def split: option.splits if_splits prod.splits)

lemma adapter_Authorize_allowed:
  assumes "adapter_Authorize a env ctx req w = ((True, err), w')"
  shows "\<exists>p s0 s'. rq_Principal req = Some p \<and>
    sdk_Enforce (ad_client a) (enforceSelectors (ad_cfg a))
      (casbin_request (principal_Subject p) (rq_Domain req) (rq_Resource req) (rq_Action req)
         (rq_Extra req)) s0 = ((True, None), s') \<and>
    enforceSelectors (ad_cfg a) \<noteq> no_selectors"
  using assms
  by (fastforce simp: adapter_Authorize_def Let_def dest: enforce_retry_success
      split: option.splits if_splits prod.splits)

lemma adapter_Authorize_no_principal:
  "rq_Principal req = None \<Longrightarrow>
    adapter_Authorize a env ctx req w = ((False, Some ErrMissingPrincipal), w)"
  by (simp add: adapter_Authorize_def)

interpretation adapter_authz: authorizer "adapter_authorizer a env" for a env
  by unfold_locales
    (auto simp: adapter_authorizer_def adapter_Authorize_no_principal dest: adapter_Authorize_error)

section \<open>Facts about authentication\<close>

lemma claims_principal_fields [simp]:
  "pr_SubjectType (claims_principal cfg token claims) = SubjectUser"
  "pr_Token (claims_principal cfg token claims) = token"
  "pr_SubjectID (claims_principal cfg token claims) =
     firstNonEmpty [jc_Name claims, jc_Subject claims]"
  "pr_OrgID (claims_principal cfg token claims) =
     firstNonEmpty [jc_Owner claims, cc_Organization cfg]"
  by (simp_all add: claims_principal_def Let_def)

lemma claims_principal_not_zero [simp]: "\<not> principal_IsZero (claims_principal cfg token claims)"
  by (simp add: principal_IsZero_def)

interpretation adapter_authn: authenticator "adapter_Authenticate a env" for a env
  by unfold_locales
    (auto simp: adapter_Authenticate_def Let_def split: sum.splits option.splits)

section \<open>Facts about audit records\<close>

lemma event_record_owner [simp]: "cd_Owner (event_record cfg ri ev) = cc_Organization cfg"
  by (simp add: event_record_def Let_def)

lemma adapter_Record_success:
  assumes "adapter_Record a env ri ctx ev w = (None, w')"
  shows "\<exists>s0. sdk_AddRecord (ad_client a) (event_record (ad_cfg a) ri ev) s0 = (None, service w')"
  using assms
  by (auto simp: adapter_Record_def Let_def split: prod.splits dest: retry_call_success)

section \<open>Properties of the adapter\<close>

text \<open>
  C29: only a checked certificate verifies tokens. NewChecked succeeds exactly when the configured
  certificate, inline or read from its file, is one PEM block of a public type that passes the checks;
  the adapter then holds its normalised text, which normalising again does not change.
\<close>

theorem NewChecked_certificate:
  "((\<exists>a. casdoor_NewChecked lib NewClient cfg = Inr a) \<longleftrightarrow> (\<exists>cert. NormalizedCertificate lib cfg = Inr cert)) \<and>
   (casdoor_NewChecked lib NewClient cfg = Inr a \<longrightarrow>
     NormalizedCertificate lib cfg = Inr (cc_Certificate (ad_cfg a)) \<and>
     normalizePEMText (cc_Certificate (ad_cfg a)) = cc_Certificate (ad_cfg a) \<and>
     (\<exists>block rest. pem_Decode lib (cc_Certificate (ad_cfg a)) = Some (block, rest) \<and>
       strings_TrimSpace rest = [] \<and> pb_Type block \<in> public_pem_types))"
proof (intro conjI impI)
  show "(\<exists>a. casdoor_NewChecked lib NewClient cfg = Inr a) \<longleftrightarrow> (\<exists>cert. NormalizedCertificate lib cfg = Inr cert)"
    using casdoor_NewChecked_iff [of lib NewClient cfg] by blast
  assume "casdoor_NewChecked lib NewClient cfg = Inr a"
  then have cert: "NormalizedCertificate lib cfg = Inr (cc_Certificate (ad_cfg a))"
    using casdoor_NewChecked_iff by blast
  note ok = NormalizedCertificate_ok [OF cert]
  show "NormalizedCertificate lib cfg = Inr (cc_Certificate (ad_cfg a))" by (rule cert)
  show "normalizePEMText (cc_Certificate (ad_cfg a)) = cc_Certificate (ad_cfg a)" using ok by blast
  then show "\<exists>block rest. pem_Decode lib (cc_Certificate (ad_cfg a)) = Some (block, rest) \<and>
       strings_TrimSpace rest = [] \<and> pb_Type block \<in> public_pem_types"
    using ValidateJWT_ok [of lib "cc_Certificate (ad_cfg a)"] ok by simp
qed

definition rsa_certlib :: certlib where
  "rsa_certlib =
     \<lparr>ReadFile = (\<lambda>_. Inl (ErrExt ''no such file'')),
      pem_Decode = (\<lambda>s. Some (\<lparr>pb_Type = ''PUBLIC KEY'', pb_Bytes = s\<rparr>, [])),
      ParseCertificate = (\<lambda>_. Inl (ErrExt ''malformed'')), ParsePKIXPublicKey = (\<lambda>_. Inr RSAPublicKey),
      ParsePKCS1PublicKey = (\<lambda>_. Some (ErrExt ''malformed''))\<rparr>"

definition idle_casdoor :: "'x casdoor_client" where
  "idle_casdoor =
     \<lparr>sdk_GetApplication = (\<lambda>_ s. (None, s)), sdk_ParseJwtToken = (\<lambda>t s. Inl (ErrExt ''token is malformed'')),
      sdk_Enforce = (\<lambda>_ _ s. ((False, None), s)), sdk_AddRecord = (\<lambda>_ s. (None, s)),
      sdk_AddPolicy = (\<lambda>_ _ s. ((False, None), s)), sdk_RemovePolicy = (\<lambda>_ _ s. ((False, None), s)),
      sdk_GetPolicies = (\<lambda>_ _ s. (([], None), s))\<rparr>"

theorem NewChecked_certificate_witness:
  "\<exists>a. casdoor_NewChecked rsa_certlib (\<lambda>_. idle_casdoor :: nat casdoor_client)
      (zero_casdoor_config\<lparr>cc_Certificate := ''pem''\<rparr>) = Inr a \<and>
    normalizePEMText (cc_Certificate (ad_cfg a)) = cc_Certificate (ad_cfg a)"
proof -
  let ?cfg = "zero_casdoor_config\<lparr>cc_Certificate := ''pem''\<rparr>"
  have n: "normalizePEMText ''pem'' = ''pem''"
    by (rule pem_normal_fixed) (simp add: pem_normal_def trim_eval strings_Contains_def strings_HasPrefix_def)
  have "NormalizedCertificate rsa_certlib ?cfg = Inr ''pem''"
    by (simp add: NormalizedCertificate_def ValidateJWTPublicCertificate_def n rsa_certlib_def trim_eval Let_def)
  then obtain a where a: "casdoor_NewChecked rsa_certlib (\<lambda>_. idle_casdoor :: nat casdoor_client) ?cfg = Inr a"
    using NewChecked_certificate [of rsa_certlib "\<lambda>_. idle_casdoor :: nat casdoor_client" ?cfg] by blast
  with NewChecked_certificate [of rsa_certlib "\<lambda>_. idle_casdoor :: nat casdoor_client" ?cfg a] show ?thesis by blast
qed

end
