(* ===== verification/Permission.thy ===== *)
theory Permission
  imports Identity
begin

text \<open>
  The permission facade of \<open>src/permission/permission.go\<close>: grants and their normalisation, roles and
  their expansion into actions, the process-wide role mapper, and \<open>Require\<close>. The interface
  \<open>Manager\<close> is the record \<open>manager\<close> of its methods; each method takes the state of the world and
  returns the new one. The contract of an implementation is the locale \<open>permission_manager\<close>.
\<close>

section \<open>Errors and constants\<close>

abbreviation ErrManagerNil :: go_error where
  "ErrManagerNil \<equiv> ErrNew ''permission'' ''permission manager is nil''"
abbreviation ErrEmptySubject :: go_error where
  "ErrEmptySubject \<equiv> ErrNew ''permission'' ''permission subject is required''"
abbreviation ErrEmptyResource :: go_error where
  "ErrEmptyResource \<equiv> ErrNew ''permission'' ''permission resource is required''"
abbreviation ErrEmptyAction :: go_error where
  "ErrEmptyAction \<equiv> ErrNew ''permission'' ''permission action is required''"
abbreviation ErrEmptyRole :: go_error where
  "ErrEmptyRole \<equiv> ErrNew ''permission'' ''permission role is required''"
abbreviation ErrUnsupportedRole :: go_error where
  "ErrUnsupportedRole \<equiv> ErrNew ''permission'' ''unsupported permission role''"
abbreviation ErrNotSupported :: go_error where
  "ErrNotSupported \<equiv>
     ErrNew ''permission'' ''permission operation is not supported by current backend''"
abbreviation ErrPermissionDenied :: go_error where
  "ErrPermissionDenied \<equiv> ErrNew ''permission'' ''permission denied''"

abbreviation SubjectPublic :: string where "SubjectPublic \<equiv> ''public''"
abbreviation RoleViewer :: string where "RoleViewer \<equiv> ''viewer''"
abbreviation RoleEditor :: string where "RoleEditor \<equiv> ''editor''"
abbreviation RoleOwner :: string where "RoleOwner \<equiv> ''owner''"

section \<open>Requests\<close>

record grant =
  gr_Subject :: string
  gr_SubjectType :: string
  gr_SubjectID :: string
  gr_Resource :: rname
  gr_Action :: string
  gr_Role :: string
  gr_Actions :: "string list"
  gr_Domain :: string
  gr_GrantedBy :: string
  gr_ExpiresAt :: "gtime option"
  gr_Metadata :: "(string \<rightharpoonup> any) option"

definition zero_grant :: grant where
  "zero_grant =
     \<lparr>gr_Subject = [], gr_SubjectType = [], gr_SubjectID = [], gr_Resource = [], gr_Action = [],
      gr_Role = [], gr_Actions = [], gr_Domain = [], gr_GrantedBy = [], gr_ExpiresAt = None,
      gr_Metadata = None\<rparr>"

record share_request =
  sh_Resource :: rname
  sh_SubjectType :: string
  sh_SubjectID :: string
  sh_Role :: string
  sh_Actions :: "string list"
  sh_Domain :: string
  sh_GrantedBy :: string
  sh_ExpiresAt :: "gtime option"
  sh_Metadata :: "(string \<rightharpoonup> any) option"

record check_request =
  ck_Subject :: string
  ck_Principal :: "principal option"
  ck_Resource :: rname
  ck_Action :: string
  ck_Domain :: string
  ck_Extra :: "any list"

record list_filter =
  lf_Subject :: string
  lf_Resource :: rname
  lf_Action :: string
  lf_Domain :: string

record delete_resource_request =
  dr_Resource :: rname
  dr_Reason :: string
  dr_Actor :: string

section \<open>Roles\<close>

type_synonym role_action_mapper = "rname \<Rightarrow> string \<Rightarrow> string list \<Rightarrow> go_error + string list"

fun clean_loop :: "string set \<Rightarrow> string list \<Rightarrow> string list" where
  "clean_loop seen [] = []"
| "clean_loop seen (a # rest) =
     (let a' = strings_TrimSpace a
      in if a' = [] then clean_loop seen rest
         else if a' \<in> seen then clean_loop seen rest
         else a' # clean_loop (insert a' seen) rest)"

definition cleanActions :: "string list \<Rightarrow> string list" where
  "cleanActions xs = clean_loop {} xs"

definition DefaultRoleActionMapper :: role_action_mapper where
  "DefaultRoleActionMapper res role custom =
     (if custom \<noteq> [] then Inr (cleanActions custom)
      else if role = RoleViewer then Inr [''skill.read'', ''skill.download'']
      else if role = RoleEditor then
        Inr [''skill.read'', ''skill.download'', ''skill.update'', ''skill.upload'', ''skill.publish'']
      else if role = RoleOwner then
        Inr [''skill.read'', ''skill.download'', ''skill.update'', ''skill.upload'', ''skill.publish'',
             ''skill.share'', ''skill.delete'']
      else if role = [] then Inl ErrEmptyRole
      else Inl (wrapf [] ErrUnsupportedRole ('': '' @ role)))"

text \<open>The variable \<open>roleMapper.fn\<close>, read and written under its lock.\<close>

type_synonym role_mapper_var = "role_action_mapper option"

definition roleMapper_init :: role_mapper_var where
  "roleMapper_init = Some DefaultRoleActionMapper"

definition SetRoleActionMapper ::
    "role_action_mapper option \<Rightarrow> role_mapper_var \<Rightarrow> role_mapper_var" where
  "SetRoleActionMapper fn var =
     (case fn of None \<Rightarrow> Some DefaultRoleActionMapper | Some f \<Rightarrow> Some f)"

definition RoleActionsForResource ::
    "role_mapper_var \<Rightarrow> rname \<Rightarrow> string \<Rightarrow> string list \<Rightarrow> go_error + string list" where
  "RoleActionsForResource var res role custom =
     (let fn = (case var of None \<Rightarrow> DefaultRoleActionMapper | Some f \<Rightarrow> f) in fn res role custom)"

definition RoleActions ::
    "role_mapper_var \<Rightarrow> string \<Rightarrow> string list \<Rightarrow> go_error + string list" where
  "RoleActions var role custom = RoleActionsForResource var [] role custom"

section \<open>Subjects and normalisation\<close>

definition permission_Subject :: "string \<Rightarrow> string \<Rightarrow> string" where
  "permission_Subject subjectType i =
     (let ty = strings_TrimSpace subjectType; i' = strings_TrimSpace i
      in if ty = [] then i' else if i' = [] then ty else ty @ '':'' @ i')"

definition SubjectFromPrincipal :: "principal option \<Rightarrow> string" where
  "SubjectFromPrincipal p = (case p of None \<Rightarrow> [] | Some p \<Rightarrow> principal_Subject p)"

definition NormalizeGrant :: "grant \<Rightarrow> grant \<times> go_error option" where
  "NormalizeGrant g0 =
     (let g1 = (if gr_Subject g0 = [] \<and> gr_SubjectType g0 \<noteq> []
                then g0\<lparr>gr_Subject := permission_Subject (gr_SubjectType g0) (gr_SubjectID g0)\<rparr>
                else g0);
          g = g1\<lparr>gr_Subject := strings_TrimSpace (gr_Subject g1),
                 gr_Action := strings_TrimSpace (gr_Action g1),
                 gr_Role := strings_TrimSpace (gr_Role g1)\<rparr>
      in if gr_Subject g = [] then (g, Some ErrEmptySubject)
         else if gr_Resource g = [] then (g, Some ErrEmptyResource)
         else if gr_Action g = [] \<and> gr_Role g = [] \<and> gr_Actions g = []
           then (g, Some ErrEmptyAction)
         else if gr_ExpiresAt g \<noteq> None
           then (g, Some (wrapf [] ErrNotSupported '': expires_at on Casbin policy grant''))
         else (g, None))"

definition NormalizeShare :: "share_request \<Rightarrow> grant \<times> go_error option" where
  "NormalizeShare req =
     (if sh_SubjectType req = [] then (zero_grant, Some ErrEmptySubject)
      else if sh_SubjectType req \<noteq> SubjectPublic \<and> sh_SubjectID req = []
        then (zero_grant, Some ErrEmptySubject)
      else if sh_Resource req = [] then (zero_grant, Some ErrEmptyResource)
      else if sh_Role req = [] \<and> sh_Actions req = [] then (zero_grant, Some ErrEmptyRole)
      else NormalizeGrant
        \<lparr>gr_Subject = permission_Subject (sh_SubjectType req) (sh_SubjectID req),
         gr_SubjectType = sh_SubjectType req, gr_SubjectID = sh_SubjectID req,
         gr_Resource = sh_Resource req, gr_Action = [], gr_Role = sh_Role req,
         gr_Actions = sh_Actions req, gr_Domain = sh_Domain req,
         gr_GrantedBy = sh_GrantedBy req, gr_ExpiresAt = sh_ExpiresAt req,
         gr_Metadata = sh_Metadata req\<rparr>)"

section \<open>The manager interface and Require\<close>

record 'w manager =
  mg_Grant :: "grant \<Rightarrow> 'w \<Rightarrow> go_error option \<times> 'w"
  mg_GrantRole :: "grant \<Rightarrow> 'w \<Rightarrow> go_error option \<times> 'w"
  mg_Share :: "share_request \<Rightarrow> 'w \<Rightarrow> go_error option \<times> 'w"
  mg_Revoke :: "grant \<Rightarrow> 'w \<Rightarrow> go_error option \<times> 'w"
  mg_Check :: "check_request \<Rightarrow> 'w \<Rightarrow> (bool \<times> go_error option) \<times> 'w"
  mg_List :: "list_filter \<Rightarrow> 'w \<Rightarrow> (go_error + grant list) \<times> 'w"
  mg_DeleteResourcePolicies :: "rname \<Rightarrow> 'w \<Rightarrow> go_error option \<times> 'w"
  mg_DeleteResourcePoliciesEx :: "delete_resource_request \<Rightarrow> 'w \<Rightarrow> go_error option \<times> 'w"

definition permission_Require ::
    "'w manager option \<Rightarrow> check_request \<Rightarrow> 'w \<Rightarrow> go_error option \<times> 'w" where
  "permission_Require mgr req0 w =
     (case mgr of
        None \<Rightarrow> (Some ErrManagerNil, w)
      | Some m \<Rightarrow>
          (let req = (if ck_Subject req0 = [] \<and> ck_Principal req0 \<noteq> None
                      then req0\<lparr>ck_Subject := SubjectFromPrincipal (ck_Principal req0)\<rparr>
                      else req0)
           in if ck_Subject req = [] then (Some ErrEmptySubject, w)
              else if ck_Resource req = [] then (Some ErrEmptyResource, w)
              else if ck_Action req = [] then (Some ErrEmptyAction, w)
              else (case mg_Check m req w of
                      ((ok, Some err), w') \<Rightarrow> (Some err, w')
                    | ((ok, None), w') \<Rightarrow>
                        if \<not> ok then (Some ErrPermissionDenied, w') else (None, w'))))"

section \<open>Facts about roles\<close>

lemma clean_loop_props:
  "distinct (clean_loop seen xs) \<and> set (clean_loop seen xs) \<inter> seen = {}"
  by (induction seen xs rule: clean_loop.induct) (auto simp: Let_def)

lemma set_clean_loop:
  "set (clean_loop seen xs) = strings_TrimSpace ` set xs - {[]} - seen"
  by (induction seen xs rule: clean_loop.induct) (auto simp: Let_def)

lemma set_cleanActions: "set (cleanActions xs) = strings_TrimSpace ` set xs - {[]}"
  by (simp add: cleanActions_def set_clean_loop)

lemma distinct_cleanActions [simp]: "distinct (cleanActions xs)"
  using clean_loop_props [of "{}" xs] by (simp add: cleanActions_def)

lemma cleanActions_eq_Nil: "cleanActions xs = [] \<longleftrightarrow> (\<forall>x\<in>set xs. strings_TrimSpace x = [])"
proof -
  have "cleanActions xs = [] \<longleftrightarrow> set (cleanActions xs) = {}" by simp
  then show ?thesis by (auto simp: set_cleanActions)
qed

lemma clean_loop_clean:
  "distinct xs \<Longrightarrow> \<forall>x\<in>set xs. x \<noteq> [] \<and> strings_TrimSpace x = x \<Longrightarrow> set xs \<inter> seen = {} \<Longrightarrow>
    clean_loop seen xs = xs"
  by (induction xs arbitrary: seen) (auto simp: Let_def)

lemma cleanActions_idem [simp]: "cleanActions (cleanActions xs) = cleanActions xs"
proof -
  have "\<forall>x\<in>set (cleanActions xs). x \<noteq> [] \<and> strings_TrimSpace x = x"
    by (auto simp: set_cleanActions)
  then show ?thesis
    by (subst (1) cleanActions_def) (auto intro!: clean_loop_clean)
qed

lemma RoleActionsForResource_init [simp]:
  "RoleActionsForResource roleMapper_init = DefaultRoleActionMapper"
  by (auto simp: RoleActionsForResource_def roleMapper_init_def fun_eq_iff)

lemma RoleActionsForResource_nil [simp]:
  "RoleActionsForResource None = DefaultRoleActionMapper"
  by (auto simp: RoleActionsForResource_def fun_eq_iff)

lemma DefaultRoleActionMapper_clean:
  assumes "DefaultRoleActionMapper res role custom = Inr acts"
  shows "distinct acts \<and> (\<forall>a\<in>set acts. a \<noteq> [])"
  using assms by (auto simp: DefaultRoleActionMapper_def set_cleanActions split: if_splits)

section \<open>Facts about normalisation\<close>

lemma TrimSpace_Subject [simp]:
  "strings_TrimSpace (permission_Subject ty i) = permission_Subject ty i"
proof -
  have ends: "t = [] \<or> \<not> is_space (hd t) \<and> \<not> is_space (last t)" if "t = strings_TrimSpace s" for s t
    using trim_func_ends [of is_space s] that by (auto simp: strings_TrimSpace_def)
  show ?thesis
    using ends [of "strings_TrimSpace ty" ty] ends [of "strings_TrimSpace i" i]
    by (auto simp: permission_Subject_def Let_def strings_TrimSpace_def [of "_ @ _"]
        intro!: trim_func_id)
qed

definition normal_grant :: "grant \<Rightarrow> bool" where
  "normal_grant g \<longleftrightarrow>
     gr_Subject g \<noteq> [] \<and> gr_Resource g \<noteq> [] \<and> gr_ExpiresAt g = None \<and>
     (gr_Action g \<noteq> [] \<or> gr_Role g \<noteq> [] \<or> gr_Actions g \<noteq> []) \<and>
     strings_TrimSpace (gr_Subject g) = gr_Subject g \<and>
     strings_TrimSpace (gr_Action g) = gr_Action g \<and>
     strings_TrimSpace (gr_Role g) = gr_Role g"

lemma NormalizeGrant_normal: "NormalizeGrant g = (g', None) \<Longrightarrow> normal_grant g'"
  by (auto simp: NormalizeGrant_def normal_grant_def Let_def split: if_splits)

lemma normal_NormalizeGrant: "normal_grant g \<Longrightarrow> NormalizeGrant g = (g, None)"
  by (auto simp: NormalizeGrant_def normal_grant_def Let_def)

lemma NormalizeGrant_idem: "NormalizeGrant g = (g', None) \<Longrightarrow> NormalizeGrant g' = (g', None)"
  by (blast intro: normal_NormalizeGrant NormalizeGrant_normal)

lemma fst_NormalizeGrant:
  "fst (NormalizeGrant g) =
     g\<lparr>gr_Subject :=
         (if gr_Subject g = [] \<and> gr_SubjectType g \<noteq> []
          then permission_Subject (gr_SubjectType g) (gr_SubjectID g)
          else strings_TrimSpace (gr_Subject g)),
       gr_Action := strings_TrimSpace (gr_Action g), gr_Role := strings_TrimSpace (gr_Role g)\<rparr>"
  by (simp add: NormalizeGrant_def Let_def)

lemma NormalizeGrant_frame:
  assumes "NormalizeGrant g = (g', e)"
  shows "gr_Resource g' = gr_Resource g" "gr_Actions g' = gr_Actions g"
    "gr_Role g' = strings_TrimSpace (gr_Role g)" "gr_Action g' = strings_TrimSpace (gr_Action g)"
    "gr_Domain g' = gr_Domain g"
  using fst_NormalizeGrant [of g] assms by simp_all

lemma NormalizeShare_normal: "NormalizeShare req = (g, None) \<Longrightarrow> normal_grant g"
  by (auto simp: NormalizeShare_def intro: NormalizeGrant_normal split: if_splits)

lemma NormalizeShare_frame:
  assumes "NormalizeShare req = (g, None)"
  shows "gr_Resource g = sh_Resource req" "gr_Actions g = sh_Actions req" "gr_Action g = []"
    "gr_Role g = strings_TrimSpace (sh_Role req)"
    "gr_Subject g = permission_Subject (sh_SubjectType req) (sh_SubjectID req)"
proof -
  from assms obtain g0 where n: "NormalizeGrant g0 = (g, None)"
    and g0: "gr_Resource g0 = sh_Resource req" "gr_Actions g0 = sh_Actions req" "gr_Action g0 = []"
      "gr_Role g0 = sh_Role req" "gr_SubjectType g0 = sh_SubjectType req"
      "gr_SubjectID g0 = sh_SubjectID req"
      "gr_Subject g0 = permission_Subject (sh_SubjectType req) (sh_SubjectID req)"
    by (fastforce simp: NormalizeShare_def split: if_splits)
  show "gr_Resource g = sh_Resource req" "gr_Actions g = sh_Actions req" "gr_Action g = []"
    "gr_Role g = strings_TrimSpace (sh_Role req)"
    using NormalizeGrant_frame [OF n] g0 by simp_all
  show "gr_Subject g = permission_Subject (sh_SubjectType req) (sh_SubjectID req)"
    using fst_NormalizeGrant [of g0] n g0 by simp
qed

section \<open>What a call asks for\<close>

text \<open>A policy is a triple of subject, resource and action.\<close>

type_synonym policy = "string \<times> rname \<times> string"

definition policies_for :: "grant \<Rightarrow> string list \<Rightarrow> policy set" where
  "policies_for g acts = (\<lambda>a. (gr_Subject g, gr_Resource g, a)) ` set acts"

definition role_policies :: "role_mapper_var \<Rightarrow> grant \<Rightarrow> go_error + policy set" where
  "role_policies var g0 =
     (case NormalizeGrant g0 of
        (g, Some err) \<Rightarrow> Inl err
      | (g, None) \<Rightarrow>
          (case RoleActionsForResource var (gr_Resource g) (gr_Role g) (gr_Actions g) of
             Inl err \<Rightarrow> Inl err | Inr acts \<Rightarrow> Inr (policies_for g acts)))"

definition grant_policies :: "role_mapper_var \<Rightarrow> grant \<Rightarrow> go_error + policy set" where
  "grant_policies var g0 =
     (case NormalizeGrant g0 of
        (g, Some err) \<Rightarrow> Inl err
      | (g, None) \<Rightarrow>
          if gr_Action g = [] then role_policies var g else Inr (policies_for g [gr_Action g]))"

definition share_policies :: "role_mapper_var \<Rightarrow> share_request \<Rightarrow> go_error + policy set" where
  "share_policies var req =
     (case NormalizeShare req of (g, Some err) \<Rightarrow> Inl err | (g, None) \<Rightarrow> role_policies var g)"

definition matches :: "list_filter \<Rightarrow> policy \<Rightarrow> bool" where
  "matches f p \<longleftrightarrow>
     (lf_Subject f = [] \<or> lf_Subject f = fst p) \<and>
     (lf_Resource f = [] \<or> lf_Resource f = fst (snd p)) \<and>
     (lf_Action f = [] \<or> lf_Action f = snd (snd p))"

definition grant_triple :: "grant \<Rightarrow> policy" where
  "grant_triple g = (gr_Subject g, gr_Resource g, gr_Action g)"

definition on_resource :: "rname \<Rightarrow> policy set" where
  "on_resource r = {p. fst (snd p) = r}"

text \<open>
  The abstract specification of the manager: a set of policies and the calls that change it. A call
  that fails may have been carried out in part, because a role is granted one policy at a time.
\<close>

datatype manager_call =
    CallGrant grant
  | CallGrantRole grant
  | CallShare share_request
  | CallRevoke grant
  | CallDelete rname

definition added :: "go_error + policy set \<Rightarrow> policy set \<Rightarrow> policy set" where
  "added r P = (case r of Inl _ \<Rightarrow> P | Inr Q \<Rightarrow> P \<union> Q)"

definition removed :: "go_error + policy set \<Rightarrow> policy set \<Rightarrow> policy set" where
  "removed r P = (case r of Inl _ \<Rightarrow> P | Inr Q \<Rightarrow> P - Q)"

fun spec_call :: "role_mapper_var \<Rightarrow> manager_call \<Rightarrow> policy set \<Rightarrow> policy set" where
  "spec_call var (CallGrant g) P = added (grant_policies var g) P"
| "spec_call var (CallGrantRole g) P = added (role_policies var g) P"
| "spec_call var (CallShare req) P = added (share_policies var req) P"
| "spec_call var (CallRevoke g) P = removed (grant_policies var g) P"
| "spec_call var (CallDelete r) P = P - on_resource r"

fun run_call :: "'w manager \<Rightarrow> manager_call \<Rightarrow> 'w \<Rightarrow> go_error option \<times> 'w" where
  "run_call m (CallGrant g) w = mg_Grant m g w"
| "run_call m (CallGrantRole g) w = mg_GrantRole m g w"
| "run_call m (CallShare req) w = mg_Share m req w"
| "run_call m (CallRevoke g) w = mg_Revoke m g w"
| "run_call m (CallDelete r) w = mg_DeleteResourcePolicies m r w"

text \<open>A caller that stops at the first error.\<close>

fun run_calls :: "'w manager \<Rightarrow> manager_call list \<Rightarrow> 'w \<Rightarrow> go_error option \<times> 'w" where
  "run_calls m [] w = (None, w)"
| "run_calls m (c # cs) w =
     (case run_call m c w of
        (None, w') \<Rightarrow> run_calls m cs w'
      | (Some err, w') \<Rightarrow> (Some err, w'))"

definition between :: "'a set \<Rightarrow> 'a set \<Rightarrow> 'a set \<Rightarrow> bool" where
  "between P Q R \<longleftrightarrow> P \<inter> R \<subseteq> Q \<and> Q \<subseteq> P \<union> R"

lemma between_refl [simp, intro]: "between P P R"
  by (auto simp: between_def)

lemma between_right [simp, intro]: "between P R R"
  by (auto simp: between_def)

text \<open>What a share grants: one policy per action of the role, for the subject and resource named.\<close>

lemma share_policies_eq:
  assumes "NormalizeShare req = (g, None)"
    and "RoleActionsForResource var (sh_Resource req) (strings_TrimSpace (sh_Role req)) (sh_Actions req) = Inr acts"
  shows "share_policies var req =
    Inr ((\<lambda>a. (permission_Subject (sh_SubjectType req) (sh_SubjectID req), sh_Resource req, a)) ` set acts)"
  using assms NormalizeShare_frame [OF assms(1)] normal_NormalizeGrant [OF NormalizeShare_normal [OF assms(1)]]
  by (simp add: share_policies_def role_policies_def policies_for_def)

text \<open>The grant by which a client takes a share back.\<close>

definition revoke_of :: "share_request \<Rightarrow> grant" where
  "revoke_of req = zero_grant\<lparr>gr_SubjectType := sh_SubjectType req, gr_SubjectID := sh_SubjectID req,
     gr_Resource := sh_Resource req, gr_Role := sh_Role req, gr_Actions := sh_Actions req\<rparr>"

lemma revoke_policies_eq:
  assumes "NormalizeShare req = (g, None)"
  shows "grant_policies var (revoke_of req) = share_policies var req"
proof -
  note fr = NormalizeShare_frame [OF assms] and nm = NormalizeShare_normal [OF assms]
  let ?h = "revoke_of req"
  obtain h e where h: "NormalizeGrant ?h = (h, e)" by fastforce
  have ty: "sh_SubjectType req \<noteq> []" using assms by (auto simp: NormalizeShare_def)
  have h': "h = ?h\<lparr>gr_Subject := gr_Subject g, gr_Action := [], gr_Role := gr_Role g\<rparr>"
    using fst_NormalizeGrant [of ?h] h ty fr by (simp add: revoke_of_def zero_grant_def)
  then have "normal_grant h"
    using nm fr by (auto simp: normal_grant_def revoke_of_def zero_grant_def)
  moreover have "e = None"
    using h ty fr nm
    by (auto simp: NormalizeGrant_def revoke_of_def zero_grant_def normal_grant_def Let_def split: if_splits)
  ultimately show ?thesis
    using assms fr h h' normal_NormalizeGrant [OF nm] normal_NormalizeGrant [of h]
    by (simp add: grant_policies_def share_policies_def role_policies_def policies_for_def
        revoke_of_def zero_grant_def split: sum.split)
qed

section \<open>The contract of a manager\<close>

locale permission_manager =
  fixes mgr :: "'w manager" and var :: role_mapper_var and policies :: "'w \<Rightarrow> policy set"
  assumes call_ok: "run_call mgr c w = (None, w') \<Longrightarrow> policies w' = spec_call var c (policies w)"
    and call_error: "run_call mgr c w = (Some err, w') \<Longrightarrow>
      between (policies w) (policies w') (spec_call var c (policies w))"
    and check_reads: "mg_Check mgr req w = (r, w') \<Longrightarrow> policies w' = policies w"
    and check_closed: "mg_Check mgr req w = ((ok, Some err), w') \<Longrightarrow> \<not> ok"
    and list_ok: "mg_List mgr f w = (Inr gs, w') \<Longrightarrow>
      policies w' = policies w \<and> grant_triple ` set gs = {p \<in> policies w. matches f p}"
    and delete_ex: "mg_DeleteResourcePoliciesEx mgr dreq w =
      mg_DeleteResourcePolicies mgr (dr_Resource dreq) w"
begin

lemma calls_refine:
  "run_calls mgr cs w = (None, w') \<Longrightarrow> policies w' = fold (spec_call var) cs (policies w)"
proof (induction cs arbitrary: w)
  case Nil
  then show ?case by simp
next
  case (Cons c cs)
  then obtain w1 where "run_call mgr c w = (None, w1)" "run_calls mgr cs w1 = (None, w')"
    by (auto split: prod.splits option.splits)
  with Cons.IH call_ok show ?case by fastforce
qed

lemma delete_clears:
  "mg_DeleteResourcePolicies mgr r w = (None, w') \<Longrightarrow>
    policies w' \<inter> on_resource r = {} \<and> policies w' - on_resource r = policies w - on_resource r"
  using call_ok [of "CallDelete r" w w'] by auto

lemma grant_revoke:
  assumes "mg_Grant mgr g w = (None, w1)" and "mg_Revoke mgr g w1 = (None, w2)"
  shows "policies w2 = removed (grant_policies var g) (policies w)"
  using call_ok [of "CallGrant g" w w1] call_ok [of "CallRevoke g" w1 w2] assms
  by (auto simp: added_def removed_def split: sum.splits)

lemma require_success:
  assumes "permission_Require (Some mgr) req w = (None, w')"
  shows "\<exists>req'. mg_Check mgr req' w = ((True, None), w') \<and> ck_Subject req' \<noteq> [] \<and>
    ck_Resource req' = ck_Resource req \<and> ck_Resource req \<noteq> [] \<and>
    ck_Action req' = ck_Action req \<and> ck_Action req \<noteq> []"
  using assms
  by (auto simp: permission_Require_def Let_def split: if_splits prod.splits option.splits bool.splits)

lemma require_reads: "permission_Require (Some mgr) req w = (e, w') \<Longrightarrow> policies w' = policies w"
  by (auto simp: permission_Require_def Let_def dest: check_reads
      split: if_splits prod.splits option.splits)

end

section \<open>Properties of grants and actions\<close>

lemma remdups_snoc: "remdups (xs @ [x]) = filter (\<lambda>y. y \<noteq> x) (remdups xs) @ [x]"
  by (induction xs) auto

lemma clean_loop_reference:
  "clean_loop seen xs =
     filter (\<lambda>a. a \<notin> seen) (rev (remdups (rev (filter (\<lambda>a. a \<noteq> []) (map strings_TrimSpace xs)))))"
proof (induction seen xs rule: clean_loop.induct)
  case (2 seen a rest)
  then show ?case
    by (auto simp: Let_def remdups_snoc rev_filter intro!: filter_cong)
qed simp

text \<open>
  C38: cleaning a list of actions. The loop with its set of seen actions computes the trimmed actions
  without the blank ones, each kept where it occurs first.
\<close>

theorem cleanActions_reference:
  "cleanActions xs = rev (remdups (rev (filter (\<lambda>a. a \<noteq> []) (map strings_TrimSpace xs))))"
  by (simp add: cleanActions_def clean_loop_reference)

text \<open>
  A normalised grant is well formed. When NormalizeGrant accepts a grant, the result has a subject
  and a resource, names an action, a role or actions, does not expire, and is trimmed; normalising it
  again accepts it and changes nothing. A share request that NormalizeShare accepts gives such a grant.
\<close>

theorem normalized_grant_wf:
  "(NormalizeGrant g = (g', None) \<longrightarrow> normal_grant g' \<and> NormalizeGrant g' = (g', None)) \<and>
   (NormalizeShare req = (h, None) \<longrightarrow> normal_grant h \<and> NormalizeGrant h = (h, None))"
  using NormalizeGrant_normal [of g g'] NormalizeGrant_idem [of g g'] NormalizeShare_normal [of req h]
    normal_NormalizeGrant [of h] by blast

definition bob_reads :: grant where
  "bob_reads = zero_grant\<lparr>gr_SubjectType := ''user'', gr_SubjectID := ''bob'', gr_Resource := ''r'',
     gr_Action := '' read ''\<rparr>"

theorem normalized_grant_wf_witness:
  "\<exists>g'. NormalizeGrant bob_reads = (g', None) \<and> normal_grant g' \<and> NormalizeGrant g' = (g', None)"
proof -
  obtain g' where "NormalizeGrant bob_reads = (g', None)"
    by (simp add: NormalizeGrant_def bob_reads_def zero_grant_def permission_Subject_def trim_eval Let_def)
  with normalized_grant_wf [of bob_reads g'] show ?thesis by blast
qed

end
