(* ===== verification/Casdoor_Policy.thy ===== *)
theory Casdoor_Policy
  imports Casdoor_Adapter Permission
begin

text \<open>
  The permission manager of the Casdoor adapter, \<open>src/casdoor/policy.go\<close>: grants become Casbin rules
  of the policy enforcer, added and removed one at a time through the SDK client, each call under
  the retry policy. The locale \<open>casdoor_policy_api\<close> states what the code relies on of Casdoor's
  policy calls; under it the adapter provides the contract \<open>permission_manager\<close>.
\<close>

section \<open>Operations\<close>

definition policyTarget :: "casdoor_config \<Rightarrow> go_error + (enforcer \<times> string)" where
  "policyTarget cfg =
     (let name = strings_TrimSpace (firstNonEmpty [cc_PolicyEnforcer cfg, cc_EnforcerID cfg])
      in if name = []
         then Inl (Errorf ''casdoor policy_enforcer or enforcer_id is required for policy management'')
         else Inr (\<lparr>en_Owner = cc_Organization cfg, en_Name = name\<rparr>,
                   strings_TrimSpace (cc_PolicyAdapterID cfg)))"

definition p_rule :: "string \<Rightarrow> string \<Rightarrow> string \<Rightarrow> casbin_rule" where
  "p_rule subject object action =
     \<lparr>cr_Ptype = ''p'', cr_V0 = subject, cr_V1 = object, cr_V2 = action, cr_more = []\<rparr>"

text \<open>The closures drop the boolean of the SDK call: false means that nothing had to change.\<close>

definition drop_flag :: "('x \<Rightarrow> (bool \<times> go_error option) \<times> 'x) \<Rightarrow> 'x fallible" where
  "drop_flag f s = (case f s of ((ok, err), s') \<Rightarrow> (err, s'))"

definition adapter_addPolicy ::
    "'x adapter \<Rightarrow> 'x goenv \<Rightarrow> go_context \<Rightarrow> string \<Rightarrow> string \<Rightarrow> string \<Rightarrow> 'x world
      \<Rightarrow> go_error option \<times> 'x world" where
  "adapter_addPolicy a env ctx subject object action w =
     (case policyTarget (ad_cfg a) of
        Inl err \<Rightarrow> (Some err, w)
      | Inr (enforcer, _) \<Rightarrow>
          (let rule = p_rule subject object action;
               (err, s) = retry_call ctx env (ad_retry a)
                            (drop_flag (sdk_AddPolicy (ad_client a) enforcer rule)) (service w)
           in (err, observe_dependency ''casdoor'' ''add_policy'' err (w\<lparr>service := s\<rparr>))))"

definition adapter_removePolicy ::
    "'x adapter \<Rightarrow> 'x goenv \<Rightarrow> go_context \<Rightarrow> string \<Rightarrow> string \<Rightarrow> string \<Rightarrow> 'x world
      \<Rightarrow> go_error option \<times> 'x world" where
  "adapter_removePolicy a env ctx subject object action w =
     (case policyTarget (ad_cfg a) of
        Inl err \<Rightarrow> (Some err, w)
      | Inr (enforcer, _) \<Rightarrow>
          (let rule = p_rule subject object action;
               (err, s) = retry_call ctx env (ad_retry a)
                            (drop_flag (sdk_RemovePolicy (ad_client a) enforcer rule)) (service w)
           in (err, observe_dependency ''casdoor'' ''remove_policy'' err (w\<lparr>service := s\<rparr>))))"

definition adapter_GrantRole ::
    "'x adapter \<Rightarrow> 'x goenv \<Rightarrow> role_mapper_var \<Rightarrow> go_context \<Rightarrow> grant \<Rightarrow> 'x world
      \<Rightarrow> go_error option \<times> 'x world" where
  "adapter_GrantRole a env var ctx grant w =
     (case NormalizeGrant grant of
        (g, Some err) \<Rightarrow> (Some err, w)
      | (g, None) \<Rightarrow>
          (case RoleActionsForResource var (gr_Resource g) (gr_Role g) (gr_Actions g) of
             Inl err \<Rightarrow> (Some err, w)
           | Inr actions \<Rightarrow>
               range_err (adapter_addPolicy a env ctx (gr_Subject g) (gr_Resource g)) actions w))"

definition adapter_Grant ::
    "'x adapter \<Rightarrow> 'x goenv \<Rightarrow> role_mapper_var \<Rightarrow> go_context \<Rightarrow> grant \<Rightarrow> 'x world
      \<Rightarrow> go_error option \<times> 'x world" where
  "adapter_Grant a env var ctx grant w =
     (case NormalizeGrant grant of
        (g, Some err) \<Rightarrow> (Some err, w)
      | (g, None) \<Rightarrow>
          if gr_Action g = [] then adapter_GrantRole a env var ctx g w
          else adapter_addPolicy a env ctx (gr_Subject g) (gr_Resource g) (gr_Action g) w)"

definition adapter_Share ::
    "'x adapter \<Rightarrow> 'x goenv \<Rightarrow> role_mapper_var \<Rightarrow> go_context \<Rightarrow> share_request \<Rightarrow> 'x world
      \<Rightarrow> go_error option \<times> 'x world" where
  "adapter_Share a env var ctx req w =
     (case NormalizeShare req of
        (g, Some err) \<Rightarrow> (Some err, w)
      | (g, None) \<Rightarrow> adapter_GrantRole a env var ctx g w)"

definition adapter_Revoke ::
    "'x adapter \<Rightarrow> 'x goenv \<Rightarrow> role_mapper_var \<Rightarrow> go_context \<Rightarrow> grant \<Rightarrow> 'x world
      \<Rightarrow> go_error option \<times> 'x world" where
  "adapter_Revoke a env var ctx grant w =
     (case NormalizeGrant grant of
        (g, Some err) \<Rightarrow> (Some err, w)
      | (g, None) \<Rightarrow>
          (case (if gr_Action g = []
                 then RoleActionsForResource var (gr_Resource g) (gr_Role g) (gr_Actions g)
                 else Inr [gr_Action g]) of
             Inl err \<Rightarrow> (Some err, w)
           | Inr actions \<Rightarrow>
               range_err (adapter_removePolicy a env ctx (gr_Subject g) (gr_Resource g)) actions w))"

definition check_subject :: "check_request \<Rightarrow> string" where
  "check_subject req =
     (let subject = strings_TrimSpace (ck_Subject req)
      in if subject = [] \<and> ck_Principal req \<noteq> None
         then SubjectFromPrincipal (ck_Principal req) else subject)"

definition adapter_Check ::
    "'x adapter \<Rightarrow> 'x goenv \<Rightarrow> go_context \<Rightarrow> check_request \<Rightarrow> 'x world
      \<Rightarrow> (bool \<times> go_error option) \<times> 'x world" where
  "adapter_Check a env ctx req w =
     (let subject = check_subject req
      in if subject = [] then ((False, Some ErrEmptySubject), w)
         else if ck_Resource req = [] then ((False, Some ErrEmptyResource), w)
         else if ck_Action req = [] then ((False, Some ErrEmptyAction), w)
         else (case enforce_retry a env ctx
                      (casbin_request subject (ck_Domain req) (ck_Resource req) (ck_Action req)
                         (ck_Extra req)) (service w) of
                 (err, (allowed, s)) \<Rightarrow>
                   (let w' = observe_dependency ''casdoor'' ''permission_check'' err (w\<lparr>service := s\<rparr>)
                    in case err of
                         Some e \<Rightarrow> ((False, Some e), w')
                       | None \<Rightarrow> ((allowed, None), w'))))"

text \<open>
  \<open>List\<close>: the closure writes the captured variable \<open>rules\<close>; then the loop keeps the policy rules
  that match the filter. A nil pointer among the rules is \<^term>\<open>None\<close>.
\<close>

definition policies_closure ::
    "'x casdoor_client \<Rightarrow> string \<Rightarrow> string \<Rightarrow> (casbin_rule option list \<times> 'x) fallible" where
  "policies_closure c name adapterID vs =
     (case sdk_GetPolicies c name adapterID (snd vs) of ((rules, err), s') \<Rightarrow> (err, (rules, s')))"

fun filter_rules :: "list_filter \<Rightarrow> casbin_rule option list \<Rightarrow> grant list" where
  "filter_rules f [] = []"
| "filter_rules f (None # rs) = filter_rules f rs"
| "filter_rules f (Some r # rs) =
     (if cr_Ptype r \<noteq> ''p'' then filter_rules f rs
      else (let g = zero_grant\<lparr>gr_Subject := cr_V0 r, gr_Resource := cr_V1 r, gr_Action := cr_V2 r\<rparr>
            in if lf_Subject f \<noteq> [] \<and> lf_Subject f \<noteq> gr_Subject g then filter_rules f rs
               else if lf_Resource f \<noteq> [] \<and> lf_Resource f \<noteq> gr_Resource g then filter_rules f rs
               else if lf_Action f \<noteq> [] \<and> lf_Action f \<noteq> gr_Action g then filter_rules f rs
               else g # filter_rules f rs))"

definition adapter_List ::
    "'x adapter \<Rightarrow> 'x goenv \<Rightarrow> go_context \<Rightarrow> list_filter \<Rightarrow> 'x world
      \<Rightarrow> (go_error + grant list) \<times> 'x world" where
  "adapter_List a env ctx f w =
     (case policyTarget (ad_cfg a) of
        Inl err \<Rightarrow> (Inl err, w)
      | Inr (enforcer, adapterID) \<Rightarrow>
          (case retry_call ctx (lift_env env) (ad_retry a)
                  (policies_closure (ad_client a) (en_Name enforcer) adapterID) ([], service w) of
             (err, (rules, s)) \<Rightarrow>
               (let w' = observe_dependency ''casdoor'' ''get_policies'' err (w\<lparr>service := s\<rparr>)
                in case err of
                     Some e \<Rightarrow> (Inl e, w')
                   | None \<Rightarrow> (Inr (filter_rules f rules), w'))))"

definition adapter_DeleteResourcePoliciesEx ::
    "'x adapter \<Rightarrow> 'x goenv \<Rightarrow> go_context \<Rightarrow> delete_resource_request \<Rightarrow> 'x world
      \<Rightarrow> go_error option \<times> 'x world" where
  "adapter_DeleteResourcePoliciesEx a env ctx req w =
     (if dr_Resource req = [] then (Some ErrEmptyResource, w)
      else (case adapter_List a env ctx
                   \<lparr>lf_Subject = [], lf_Resource = dr_Resource req, lf_Action = [], lf_Domain = []\<rparr> w of
              (Inl err, w1) \<Rightarrow> (Some err, w1)
            | (Inr grants, w1) \<Rightarrow>
                range_err (\<lambda>g. adapter_removePolicy a env ctx (gr_Subject g) (gr_Resource g)
                                (gr_Action g)) grants w1))"

definition adapter_DeleteResourcePolicies ::
    "'x adapter \<Rightarrow> 'x goenv \<Rightarrow> go_context \<Rightarrow> rname \<Rightarrow> 'x world \<Rightarrow> go_error option \<times> 'x world" where
  "adapter_DeleteResourcePolicies a env ctx res w =
     adapter_DeleteResourcePoliciesEx a env ctx \<lparr>dr_Resource = res, dr_Reason = [], dr_Actor = []\<rparr> w"

definition adapter_manager ::
    "'x adapter \<Rightarrow> 'x goenv \<Rightarrow> role_mapper_var \<Rightarrow> go_context \<Rightarrow> 'x world manager" where
  "adapter_manager a env var ctx =
     \<lparr>mg_Grant = adapter_Grant a env var ctx, mg_GrantRole = adapter_GrantRole a env var ctx,
      mg_Share = adapter_Share a env var ctx, mg_Revoke = adapter_Revoke a env var ctx,
      mg_Check = adapter_Check a env ctx, mg_List = adapter_List a env ctx,
      mg_DeleteResourcePolicies = adapter_DeleteResourcePolicies a env ctx,
      mg_DeleteResourcePoliciesEx = adapter_DeleteResourcePoliciesEx a env ctx\<rparr>"

section \<open>What the code relies on of Casdoor\<close>

definition rule_triple :: "casbin_rule \<Rightarrow> policy" where
  "rule_triple r = (cr_V0 r, cr_V1 r, cr_V2 r)"

definition p_policies :: "casbin_rule set \<Rightarrow> policy set" where
  "p_policies R = rule_triple ` {r \<in> R. cr_Ptype r = ''p''}"

text \<open>
  \<open>rules\<close> is the rule set of the policy enforcer as stored in Casdoor. \<open>AddPolicy\<close> and \<open>RemovePolicy\<close>
  that return no error leave the rule stored or not stored; on an error it is unknown whether the
  change was carried out. \<open>GetPolicies\<close> returns the stored rules, and no other client changes them
  while a call of the adapter runs. The policies of the enforcer's model have three columns.
\<close>

definition adapter_policies :: "('x \<Rightarrow> casbin_rule set) \<Rightarrow> 'x world \<Rightarrow> policy set" where
  "adapter_policies rules w = p_policies (rules (service w))"

locale casdoor_policy_api =
  fixes a :: "'x adapter" and env :: "'x goenv" and rules :: "'x \<Rightarrow> casbin_rule set"
  assumes add_ok: "policyTarget (ad_cfg a) = Inr (en, aid) \<Longrightarrow>
      sdk_AddPolicy (ad_client a) en (p_rule u v w) s = ((b, None), s') \<Longrightarrow>
      rules s' = insert (p_rule u v w) (rules s)"
    and add_error: "policyTarget (ad_cfg a) = Inr (en, aid) \<Longrightarrow>
      sdk_AddPolicy (ad_client a) en (p_rule u v w) s = ((b, Some e), s') \<Longrightarrow>
      rules s' = rules s \<or> rules s' = insert (p_rule u v w) (rules s)"
    and remove_ok: "policyTarget (ad_cfg a) = Inr (en, aid) \<Longrightarrow>
      sdk_RemovePolicy (ad_client a) en (p_rule u v w) s = ((b, None), s') \<Longrightarrow>
      rules s' = rules s - {p_rule u v w}"
    and remove_error: "policyTarget (ad_cfg a) = Inr (en, aid) \<Longrightarrow>
      sdk_RemovePolicy (ad_client a) en (p_rule u v w) s = ((b, Some e), s') \<Longrightarrow>
      rules s' = rules s \<or> rules s' = rules s - {p_rule u v w}"
    and get_reads: "sdk_GetPolicies (ad_client a) n i s = (x, s') \<Longrightarrow> rules s' = rules s"
    and get_ok: "policyTarget (ad_cfg a) = Inr (en, aid) \<Longrightarrow>
      sdk_GetPolicies (ad_client a) (en_Name en) aid s = ((rs, None), s') \<Longrightarrow>
      {r. Some r \<in> set rs} = rules s"
    and enforce_reads: "sdk_Enforce (ad_client a) sel req s = (y, s') \<Longrightarrow> rules s' = rules s"
    and undisturbed: "env_keeps env (\<lambda>s. rules s = R)"
    and three_columns: "r \<in> rules s \<Longrightarrow> cr_Ptype r = ''p'' \<Longrightarrow> cr_more r = []"

section \<open>Facts that need no assumption on Casdoor\<close>

lemma cr_Ptype_p_rule [simp]: "cr_Ptype (p_rule u v x) = ''p''"
  by (simp add: p_rule_def)

lemma rule_triple_p_rule [simp]: "rule_triple (p_rule u v x) = (u, v, x)"
  by (simp add: p_rule_def rule_triple_def)

lemma p_policies_insert [simp]:
  "p_policies (insert (p_rule u v x) R) = insert (u, v, x) (p_policies R)"
proof -
  have "{r \<in> insert (p_rule u v x) R. cr_Ptype r = ''p''} =
      insert (p_rule u v x) {r \<in> R. cr_Ptype r = ''p''}" by auto
  then show ?thesis by (simp add: p_policies_def)
qed

lemma three_columns_p_rule:
  "cr_Ptype r = ''p'' \<Longrightarrow> cr_more r = [] \<Longrightarrow> r = p_rule (cr_V0 r) (cr_V1 r) (cr_V2 r)"
  by (cases r) (simp add: p_rule_def)

lemma p_policies_remove:
  assumes "\<And>r. r \<in> R \<Longrightarrow> cr_Ptype r = ''p'' \<Longrightarrow> cr_more r = []"
  shows "p_policies (R - {p_rule u v x}) = p_policies R - {(u, v, x)}"
proof -
  have "r = p_rule u v x" if "r \<in> R" "cr_Ptype r = ''p''" "rule_triple r = (u, v, x)" for r
    using three_columns_p_rule [OF that(2) assms [OF that(1,2)]] that(3)
    unfolding rule_triple_def by (metis prod.inject)
  then have fewer: "{r \<in> R - {p_rule u v x}. cr_Ptype r = ''p''} =
      {r \<in> {r \<in> R. cr_Ptype r = ''p''}. rule_triple r \<noteq> (u, v, x)}"
    using rule_triple_p_rule [of u v x] by blast
  have image: "rule_triple ` {r \<in> Q. rule_triple r \<noteq> t} = rule_triple ` Q - {t}" for Q t by blast
  show ?thesis unfolding p_policies_def fewer image ..
qed

lemma filter_rules_triples:
  "grant_triple ` set (filter_rules f rs) =
     {p \<in> p_policies {r. Some r \<in> set rs}. matches f p}"
proof (induction f rs rule: filter_rules.induct)
  case (3 f r rs)
  have "p_policies {r'. Some r' \<in> set (Some r # rs)} =
      (if cr_Ptype r = ''p'' then insert (rule_triple r) (p_policies {r. Some r \<in> set rs})
       else p_policies {r. Some r \<in> set rs})"
    by (auto simp: p_policies_def)
  then show ?case
    using 3 by (auto simp: Let_def matches_def grant_triple_def rule_triple_def)
qed (auto simp: p_policies_def)

lemma policyTarget_name:
  "policyTarget cfg = Inr (en, aid) \<Longrightarrow>
    en_Owner en = cc_Organization cfg \<and> en_Name en \<noteq> [] \<and> strings_TrimSpace (en_Name en) = en_Name en"
  by (auto simp: policyTarget_def Let_def split: if_splits)

lemma adapter_Check_error:
  "adapter_Check a env ctx req w = ((ok, Some err), w') \<Longrightarrow> \<not> ok"
  by (auto simp: adapter_Check_def Let_def split: option.splits if_splits prod.splits)

lemma adapter_Check_allowed:
  assumes "adapter_Check a env ctx req w = ((True, err), w')"
  shows "\<exists>s0 s'. sdk_Enforce (ad_client a) (enforceSelectors (ad_cfg a))
      (casbin_request (check_subject req) (ck_Domain req) (ck_Resource req) (ck_Action req)
         (ck_Extra req)) s0 = ((True, None), s') \<and> check_subject req \<noteq> [] \<and>
    ck_Resource req \<noteq> [] \<and> ck_Action req \<noteq> []"
  using assms
  by (fastforce simp: adapter_Check_def Let_def dest: enforce_retry_success
      split: option.splits if_splits prod.splits)

section \<open>The adapter implements the manager's contract\<close>

context casdoor_policy_api
begin

lemma enforce_retry_keeps:
  assumes "enforce_retry a env ctx req s = (e, (v, s'))"
  shows "rules s' = rules s"
proof -
  have keep: "env_keeps (lift_env env) (\<lambda>vs :: bool \<times> 'x. rules (snd vs) = rules s)"
    by (rule env_keeps_lift) (rule undisturbed)
  have step: "rules (snd t') = rules s"
    if "rules (snd t) = rules s"
      "enforce_closure (ad_client a) (enforceSelectors (ad_cfg a)) req t = (e', t')" for t e' t'
  proof -
    from that(2) obtain r where
      "sdk_Enforce (ad_client a) (enforceSelectors (ad_cfg a)) req (snd t) = (r, snd t')"
      by (auto simp: enforce_closure_def split: prod.splits)
    with that(1) enforce_reads show ?thesis by metis
  qed
  have "rules (snd (v, s')) = rules s"
    using retry_call_rule(1) [OF assms [unfolded enforce_retry_def] _ keep step] by simp
  then show ?thesis by simp
qed

lemma check_keeps:
  "adapter_Check a env ctx req w = (r, w') \<Longrightarrow> adapter_policies rules w' = adapter_policies rules w"
  by (auto simp: adapter_Check_def adapter_policies_def Let_def dest!: enforce_retry_keeps
      split: if_splits prod.splits option.splits)

text \<open>A change under the retry policy: done when the call succeeds, done or not when it fails.\<close>

lemma change_retry:
  assumes run: "retry_call ctx env pol (drop_flag f) s = (e, s')"
    and ok: "\<And>s b s'. f s = ((b, None), s') \<Longrightarrow> rules s' = G (rules s)"
    and err: "\<And>s b e s'. f s = ((b, Some e), s') \<Longrightarrow> rules s' = rules s \<or> rules s' = G (rules s)"
    and idem: "\<And>R. G (G R) = G R"
  shows "rules s' = G (rules s) \<or> e \<noteq> None \<and> rules s' = rules s"
proof -
  define I where "I t \<longleftrightarrow> rules t = rules s \<or> rules t = G (rules s)" for t
  have keep: "env_keeps env I"
    unfolding I_def
    by (rule env_keeps_view [where view = rules and P = "\<lambda>R. R = rules s \<or> R = G (rules s)"])
      (rule undisturbed)
  have step: "I t'" if "I t" "drop_flag f t = (e', t')" for t e' t'
  proof -
    from \<open>drop_flag f t = (e', t')\<close> obtain b e0 where "f t = ((b, e0), t')"
      by (auto simp: drop_flag_def split: prod.splits)
    with \<open>I t\<close> ok [of t b t'] err [of t b _ t'] idem show ?thesis
      by (cases e0) (auto simp: I_def)
  qed
  have I0: "I s" by (simp add: I_def)
  show ?thesis
  proof (cases e)
    case None
    have "\<exists>s0. I s0 \<and> drop_flag f s0 = (None, s')"
      by (rule retry_call_rule(2) [OF run I0 keep _ None]) (rule step)
    then obtain s0 where "I s0" "drop_flag f s0 = (None, s')" by blast
    then show ?thesis using ok idem
      by (auto simp: I_def drop_flag_def split: prod.splits)
  next
    case (Some er)
    have "I s'" by (rule retry_call_rule(1) [OF run I0 keep]) (rule step)
    with Some show ?thesis by (auto simp: I_def)
  qed
qed

lemma addPolicy_effect:
  assumes "adapter_addPolicy a env ctx u v x w = (e, w')"
  shows "adapter_policies rules w' = insert (u, v, x) (adapter_policies rules w) \<or>
    e \<noteq> None \<and> adapter_policies rules w' = adapter_policies rules w"
proof (cases "policyTarget (ad_cfg a)")
  case (Inl err)
  with assms show ?thesis by (auto simp: adapter_addPolicy_def)
next
  case (Inr t)
  obtain en aid where t: "t = (en, aid)" by (cases t)
  with assms Inr obtain s where
    run: "retry_call ctx env (ad_retry a) (drop_flag (sdk_AddPolicy (ad_client a) en (p_rule u v x)))
      (service w) = (e, s)" and w': "service w' = s"
    by (auto simp: adapter_addPolicy_def Let_def split: prod.splits)
  have "rules s = insert (p_rule u v x) (rules (service w)) \<or> e \<noteq> None \<and> rules s = rules (service w)"
    by (rule change_retry [OF run add_ok [OF Inr [unfolded t]] add_error [OF Inr [unfolded t]]])
      auto
  with w' show ?thesis by (auto simp: adapter_policies_def)
qed

lemma removePolicy_effect:
  assumes "adapter_removePolicy a env ctx u v x w = (e, w')"
  shows "adapter_policies rules w' = adapter_policies rules w - {(u, v, x)} \<or>
    e \<noteq> None \<and> adapter_policies rules w' = adapter_policies rules w"
proof (cases "policyTarget (ad_cfg a)")
  case (Inl err)
  with assms show ?thesis by (auto simp: adapter_removePolicy_def)
next
  case (Inr t)
  obtain en aid where t: "t = (en, aid)" by (cases t)
  with assms Inr obtain s where
    run: "retry_call ctx env (ad_retry a) (drop_flag (sdk_RemovePolicy (ad_client a) en (p_rule u v x)))
      (service w) = (e, s)" and w': "service w' = s"
    by (auto simp: adapter_removePolicy_def Let_def split: prod.splits)
  have "rules s = rules (service w) - {p_rule u v x} \<or> e \<noteq> None \<and> rules s = rules (service w)"
    by (rule change_retry [OF run remove_ok [OF Inr [unfolded t]] remove_error [OF Inr [unfolded t]]])
      auto
  with w' show ?thesis
    using p_policies_remove [of "rules (service w)" u v x] three_columns
    by (metis adapter_policies_def)
qed

lemma list_effect:
  assumes "adapter_List a env ctx f w = (r, w')"
  shows "adapter_policies rules w' = adapter_policies rules w"
    and "r = Inr gs \<Longrightarrow> grant_triple ` set gs = {p \<in> adapter_policies rules w. matches f p}"
proof -
  have "adapter_policies rules w' = adapter_policies rules w \<and>
    (\<forall>gs. r = Inr gs \<longrightarrow> grant_triple ` set gs = {p \<in> adapter_policies rules w. matches f p})"
  proof (cases "policyTarget (ad_cfg a)")
    case (Inl err)
    with assms show ?thesis by (auto simp: adapter_List_def)
  next
    case (Inr t)
    obtain en aid where t: "t = (en, aid)" by (cases t)
    define cl where "cl = policies_closure (ad_client a) (en_Name en) aid"
    obtain e rs s' where
      run: "retry_call ctx (lift_env env) (ad_retry a) cl ([], service w) = (e, (rs, s'))"
      by (metis prod.exhaust)
    have keep: "env_keeps (lift_env env)
        (\<lambda>vs :: casbin_rule option list \<times> 'x. rules (snd vs) = rules (service w))"
      by (rule env_keeps_lift) (rule undisturbed)
    have step: "rules (snd t') = rules (service w)"
      if "rules (snd t) = rules (service w)" "cl t = (e', t')" for t e' t'
    proof -
      from that(2) obtain x where
        "sdk_GetPolicies (ad_client a) (en_Name en) aid (snd t) = (x, snd t')"
        by (auto simp: cl_def policies_closure_def split: prod.splits)
      with that(1) get_reads show ?thesis by metis
    qed
    have kept: "rules (snd (rs, s')) = rules (service w)"
      by (rule retry_call_rule(1) [OF run _ keep]) (simp, rule step)
    have res: "{r. Some r \<in> set rs} = rules (service w)" if "e = None"
    proof -
      have "\<exists>t. rules (snd t) = rules (service w) \<and> cl t = (None, (rs, s'))"
        by (rule retry_call_rule(2) [OF run _ keep _ that]) (simp, rule step)
      then obtain t where "rules (snd t) = rules (service w)"
        and cl: "cl t = (None, (rs, s'))" by blast
      moreover from cl have "sdk_GetPolicies (ad_client a) (en_Name en) aid (snd t) = ((rs, None), s')"
        by (auto simp: cl_def policies_closure_def split: prod.splits)
      ultimately show ?thesis using get_ok [OF Inr [unfolded t]] by metis
    qed
    have "r = (case e of Some e \<Rightarrow> Inl e | None \<Rightarrow> Inr (filter_rules f rs)) \<and> service w' = s'"
      using assms Inr t run by (auto simp: adapter_List_def Let_def cl_def split: option.splits)
    with kept res show ?thesis
      by (auto simp: adapter_policies_def filter_rules_triples split: option.splits)
  qed
  then show "adapter_policies rules w' = adapter_policies rules w"
    and "r = Inr gs \<Longrightarrow> grant_triple ` set gs = {p \<in> adapter_policies rules w. matches f p}"
    by blast+
qed

lemma grant_loop:
  assumes "range_err (adapter_addPolicy a env ctx u v) acts w = (e, w')"
  shows "between (adapter_policies rules w) (adapter_policies rules w')
      (adapter_policies rules w \<union> (\<lambda>x. (u, v, x)) ` set acts)"
    and "e = None \<Longrightarrow>
      adapter_policies rules w' = adapter_policies rules w \<union> (\<lambda>x. (u, v, x)) ` set acts"
  using range_err_adds [OF assms, of "adapter_policies rules" "\<lambda>x. (u, v, x)"] addPolicy_effect
  unfolding between_def by blast+

lemma remove_loop:
  assumes "range_err (\<lambda>g. adapter_removePolicy a env ctx (su g) (ob g) (ac g)) gs w = (e, w')"
  shows "between (adapter_policies rules w) (adapter_policies rules w')
      (adapter_policies rules w - (\<lambda>g. (su g, ob g, ac g)) ` set gs)"
    and "e = None \<Longrightarrow>
      adapter_policies rules w' = adapter_policies rules w - (\<lambda>g. (su g, ob g, ac g)) ` set gs"
  using range_err_removes [OF assms, of "adapter_policies rules" "\<lambda>g. (su g, ob g, ac g)"]
    removePolicy_effect
  unfolding between_def by blast+

lemma role_effect:
  assumes "adapter_GrantRole a env var ctx g w = (e, w')"
  shows "between (adapter_policies rules w) (adapter_policies rules w')
      (added (role_policies var g) (adapter_policies rules w)) \<and>
    (e = None \<longrightarrow> adapter_policies rules w' = added (role_policies var g) (adapter_policies rules w))"
  using assms grant_loop
  by (auto simp: adapter_GrantRole_def role_policies_def added_def policies_for_def
      split: prod.splits option.splits sum.splits)

lemma grant_effect:
  assumes "adapter_Grant a env var ctx g w = (e, w')"
  shows "between (adapter_policies rules w) (adapter_policies rules w')
      (added (grant_policies var g) (adapter_policies rules w)) \<and>
    (e = None \<longrightarrow> adapter_policies rules w' = added (grant_policies var g) (adapter_policies rules w))"
proof -
  obtain g' e' where n: "NormalizeGrant g = (g', e')" by (cases "NormalizeGrant g")
  consider (err) er where "e' = Some er" | (role) "e' = None" "gr_Action g' = []"
    | (act) "e' = None" "gr_Action g' \<noteq> []" by (cases e') auto
  then show ?thesis
  proof cases
    case err
    with assms n show ?thesis by (auto simp: adapter_Grant_def grant_policies_def added_def)
  next
    case role
    with assms n role_effect [of var ctx g' w e w'] show ?thesis
      by (simp add: adapter_Grant_def grant_policies_def)
  next
    case act
    with assms n have "adapter_addPolicy a env ctx (gr_Subject g') (gr_Resource g') (gr_Action g') w
        = (e, w')" by (simp add: adapter_Grant_def)
    from addPolicy_effect [OF this] act n show ?thesis
      by (auto simp: grant_policies_def added_def policies_for_def between_def)
  qed
qed

lemma share_effect:
  assumes "adapter_Share a env var ctx req w = (e, w')"
  shows "between (adapter_policies rules w) (adapter_policies rules w')
      (added (share_policies var req) (adapter_policies rules w)) \<and>
    (e = None \<longrightarrow> adapter_policies rules w' = added (share_policies var req) (adapter_policies rules w))"
  using assms role_effect
  by (auto simp: adapter_Share_def share_policies_def added_def [of "Inl _"]
      split: prod.splits option.splits)

lemma revoke_effect:
  assumes "adapter_Revoke a env var ctx g w = (e, w')"
  shows "between (adapter_policies rules w) (adapter_policies rules w')
      (removed (grant_policies var g) (adapter_policies rules w)) \<and>
    (e = None \<longrightarrow> adapter_policies rules w' = removed (grant_policies var g) (adapter_policies rules w))"
proof -
  obtain g' e' where n: "NormalizeGrant g = (g', e')" by (cases "NormalizeGrant g")
  define acts where "acts = (if gr_Action g' = []
    then RoleActionsForResource var (gr_Resource g') (gr_Role g') (gr_Actions g')
    else Inr [gr_Action g'])"
  have gp: "grant_policies var g = (case acts of Inl er \<Rightarrow> Inl er | Inr as \<Rightarrow> Inr (policies_for g' as))"
    if "e' = None"
    using n that NormalizeGrant_idem [of g g']
    by (simp add: grant_policies_def role_policies_def acts_def)
  show ?thesis
  proof (cases e')
    case (Some er)
    with assms n show ?thesis by (auto simp: adapter_Revoke_def grant_policies_def removed_def)
  next
    case None
    with assms n have run: "(case acts of Inl er \<Rightarrow> (Some er, w) | Inr as \<Rightarrow>
        range_err (adapter_removePolicy a env ctx (gr_Subject g') (gr_Resource g')) as w) = (e, w')"
      by (simp add: adapter_Revoke_def acts_def)
    show ?thesis
    proof (cases acts)
      case (Inl er)
      with run gp None show ?thesis by (auto simp: removed_def)
    next
      case (Inr as)
      with run have "range_err (adapter_removePolicy a env ctx (gr_Subject g') (gr_Resource g')) as w
          = (e, w')" by simp
      from remove_loop [OF this] gp None Inr show ?thesis
        by (auto simp: removed_def policies_for_def)
    qed
  qed
qed

lemma delete_effect:
  assumes "adapter_DeleteResourcePolicies a env ctx r w = (e, w')"
  shows "between (adapter_policies rules w) (adapter_policies rules w')
      (adapter_policies rules w - on_resource r) \<and>
    (e = None \<longrightarrow> adapter_policies rules w' = adapter_policies rules w - on_resource r)"
proof (cases "r = []")
  case True
  with assms show ?thesis
    by (auto simp: adapter_DeleteResourcePolicies_def adapter_DeleteResourcePoliciesEx_def)
next
  case False
  let ?f = "\<lparr>lf_Subject = [], lf_Resource = r, lf_Action = [], lf_Domain = []\<rparr>"
  obtain l w1 where l: "adapter_List a env ctx ?f w = (l, w1)" by (cases "adapter_List a env ctx ?f w")
  note list = list_effect [OF l]
  show ?thesis
  proof (cases l)
    case (Inl er)
    with assms l False list(1) show ?thesis
      by (auto simp: adapter_DeleteResourcePolicies_def adapter_DeleteResourcePoliciesEx_def)
  next
    case (Inr gs)
    with assms l False have run: "range_err (\<lambda>g. adapter_removePolicy a env ctx (gr_Subject g)
        (gr_Resource g) (gr_Action g)) gs w1 = (e, w')"
      by (simp add: adapter_DeleteResourcePolicies_def adapter_DeleteResourcePoliciesEx_def)
    have "adapter_policies rules w - (\<lambda>g. (gr_Subject g, gr_Resource g, gr_Action g)) ` set gs =
        adapter_policies rules w - on_resource r"
      using list(2) [OF Inr] False
      by (auto simp: matches_def on_resource_def grant_triple_def [abs_def])
    with remove_loop [OF run] list(1) show ?thesis by metis
  qed
qed

end

sublocale casdoor_policy_api \<subseteq>
  manages: permission_manager "adapter_manager a env var ctx" var "adapter_policies rules" for var ctx
proof
  fix c w w'
  assume "run_call (adapter_manager a env var ctx) c w = (None, w')"
  then show "adapter_policies rules w' = spec_call var c (adapter_policies rules w)"
    using grant_effect role_effect share_effect revoke_effect delete_effect
    by (cases c) (auto simp: adapter_manager_def)
next
  fix c w err w'
  assume "run_call (adapter_manager a env var ctx) c w = (Some err, w')"
  then show "between (adapter_policies rules w) (adapter_policies rules w')
      (spec_call var c (adapter_policies rules w))"
    using grant_effect role_effect share_effect revoke_effect delete_effect
    by (cases c) (auto simp: adapter_manager_def)
next
  fix dreq w
  show "mg_DeleteResourcePoliciesEx (adapter_manager a env var ctx) dreq w =
      mg_DeleteResourcePolicies (adapter_manager a env var ctx) (dr_Resource dreq) w"
    by (simp add: adapter_manager_def adapter_DeleteResourcePolicies_def
        adapter_DeleteResourcePoliciesEx_def)
qed (auto simp: adapter_manager_def dest: check_keeps adapter_Check_error list_effect)

context casdoor_policy_api
begin

lemma is_manager: "permission_manager (adapter_manager a env var ctx) var (adapter_policies rules)"
  by (rule manages.permission_manager_axioms)

end

section \<open>An enforcer with the ACL model\<close>

text \<open>
  The enforcer that answers the checks uses the rules of the policy enforcer under Casbin's ACL
  model: a request of subject, object and action is allowed when it is one of the policies.
\<close>

locale casdoor_acl = casdoor_policy_api +
  assumes acl: "sdk_Enforce (ad_client a) (enforceSelectors (ad_cfg a)) [AStr u, AStr v, AStr x] s =
    ((ok, None), s') \<Longrightarrow> ok \<longleftrightarrow> (u, v, x) \<in> p_policies (rules s)"
begin

lemma enforce_decides:
  assumes "enforce_retry a env ctx [AStr u, AStr v, AStr x] (service w) = (None, (ok, s'))"
  shows "ok \<longleftrightarrow> (u, v, x) \<in> adapter_policies rules w"
proof -
  from enforce_retry_success [OF assms] obtain s0 where
    enf: "sdk_Enforce (ad_client a) (enforceSelectors (ad_cfg a)) [AStr u, AStr v, AStr x] s0 =
      ((ok, None), s')" by blast
  then have "rules s0 = rules s'" by (blast dest: enforce_reads)
  also have "\<dots> = rules (service w)" using enforce_retry_keeps [OF assms] .
  finally show ?thesis using acl [OF enf] by (simp add: adapter_policies_def)
qed

lemma check_decides:
  assumes "adapter_Check a env ctx req w = ((ok, None), w')" and "ck_Domain req = []" "ck_Extra req = []"
  shows "ok \<longleftrightarrow> (check_subject req, ck_Resource req, ck_Action req) \<in> adapter_policies rules w"
  using assms
  by (auto simp: adapter_Check_def casbin_request_def Let_def dest: enforce_decides
      split: if_splits prod.splits option.splits)

lemma authorize_decides:
  assumes "adapter_Authorize a env ctx (plain_request p res act) w = ((ok, None), w')"
  shows "ok \<longleftrightarrow> (principal_Subject p, res, act) \<in> adapter_policies rules w"
  using assms
  by (auto simp: adapter_Authorize_def casbin_request_def plain_request_def Let_def
      dest: enforce_decides split: if_splits prod.splits option.splits)

lemma authorize_keeps:
  "adapter_Authorize a env ctx req w = (r, w') \<Longrightarrow> adapter_policies rules w' = adapter_policies rules w"
  by (auto simp: adapter_Authorize_def adapter_policies_def Let_def dest!: enforce_retry_keeps
      split: if_splits prod.splits option.splits)

text \<open>A check after any sequence of successful calls answers what the calls have made of the policies.\<close>

lemma check_after_calls:
  assumes "run_calls (adapter_manager a env var ctx) cs w = (None, w1)"
    and "adapter_Check a env ctx req w1 = ((ok, None), w2)"
    and "ck_Domain req = []" "ck_Extra req = []"
  shows "ok \<longleftrightarrow> (check_subject req, ck_Resource req, ck_Action req) \<in>
    fold (spec_call var) cs (adapter_policies rules w)"
  using check_decides [OF assms(2-4)] manages.calls_refine [OF assms(1)] by simp

end

section \<open>Debug log\<close>

text \<open>A nil logger is \<^term>\<open>None\<close>; the log output is the list of records.\<close>

definition logPolicyDebug :: "slog_logger option \<Rightarrow> string \<Rightarrow> any list \<Rightarrow> slog_record list \<Rightarrow> slog_record list" where
  "logPolicyDebug l msg args out = (case l of None \<Rightarrow> out | Some l \<Rightarrow> slog_Log l LevelDebug msg args out)"

end
