(* ===== verification/Casdoor_Reference.thy ===== *)
theory Casdoor_Reference
  imports Casdoor_Policy
begin

text \<open>
  A Casdoor in memory that satisfies the contracts of theory \<open>Casdoor_Policy\<close>: policies and role
  groupings in lists, enforced under the ACL model. The concrete runs of the development use it.
\<close>

record casdoor_store =
  st_policies :: "policy list"
  st_groups :: "(string \<times> string) list"
  st_records :: "casdoor_record list"

definition empty_store :: casdoor_store where
  "empty_store = \<lparr>st_policies = [], st_groups = [], st_records = []\<rparr>"

definition g_rule :: "string \<times> string \<Rightarrow> casbin_rule" where
  "g_rule p = \<lparr>cr_Ptype = ''g'', cr_V0 = fst p, cr_V1 = snd p, cr_V2 = [], cr_more = []\<rparr>"

definition policy_rule :: "policy \<Rightarrow> casbin_rule" where
  "policy_rule = (\<lambda>(u, v, x). p_rule u v x)"

definition store_rules :: "casdoor_store \<Rightarrow> casbin_rule set" where
  "store_rules s = policy_rule ` set (st_policies s) \<union> g_rule ` set (st_groups s)"

fun acl_matches :: "policy list \<Rightarrow> any list \<Rightarrow> bool" where
  "acl_matches P [AStr u, AStr v, AStr x] = ((u, v, x) \<in> set P)"
| "acl_matches P _ = False"

definition token_claims :: "string \<Rightarrow> jwt_claims" where
  "token_claims token =
     \<lparr>jc_Name = token, jc_DisplayName = [], jc_Email = [], jc_Avatar = [], jc_Owner = ''built-in'',
      jc_Issuer = ''casdoor'', jc_Subject = token, jc_Audience = []\<rparr>"

definition store_client :: "casdoor_store casdoor_client" where
  "store_client =
     \<lparr>sdk_GetApplication = (\<lambda>_ s. (None, s)),
      sdk_ParseJwtToken = (\<lambda>token _.
        if token = [] then Inl (ErrExt ''token is malformed'') else Inr (token_claims token)),
      sdk_Enforce = (\<lambda>_ req s. ((acl_matches (st_policies s) req, None), s)),
      sdk_AddRecord = (\<lambda>r s. (None, s\<lparr>st_records := st_records s @ [r]\<rparr>)),
      sdk_AddPolicy = (\<lambda>_ r s.
        if rule_triple r \<in> set (st_policies s) then ((False, None), s)
        else ((True, None), s\<lparr>st_policies := st_policies s @ [rule_triple r]\<rparr>)),
      sdk_RemovePolicy = (\<lambda>_ r s.
        ((rule_triple r \<in> set (st_policies s), None),
         s\<lparr>st_policies := removeAll (rule_triple r) (st_policies s)\<rparr>)),
      sdk_GetPolicies = (\<lambda>_ _ s.
        ((map (Some \<circ> policy_rule) (st_policies s) @ None # map (Some \<circ> g_rule) (st_groups s), None), s))\<rparr>"

definition store_adapter :: "casdoor_store adapter" where
  "store_adapter =
     \<lparr>ad_cfg = zero_casdoor_config\<lparr>cc_Organization := ''built-in'', cc_EnforcerID := ''enforcer''\<rparr>,
      ad_client = store_client, ad_retry = \<lparr>rp_Attempts = 3, rp_Backoff = 100 * Millisecond\<rparr>,
      ad_timeout = 10 * Second\<rparr>"

lemma policy_rule_triple [simp]: "policy_rule (rule_triple (p_rule u v x)) = p_rule u v x"
  by (simp add: policy_rule_def)

lemma policy_rule_inject [simp]:
  "policy_rule p = p_rule u v x \<longleftrightarrow> p = (u, v, x)" "p_rule u v x = policy_rule p \<longleftrightarrow> p = (u, v, x)"
  by (cases p; auto simp: policy_rule_def p_rule_def)+

lemma rule_kinds [simp]:
  "cr_Ptype (policy_rule p) = ''p''" "cr_more (policy_rule p) = []" "cr_Ptype (g_rule q) = ''g''"
  "rule_triple (policy_rule p) = p"
  by (auto simp: policy_rule_def p_rule_def g_rule_def rule_triple_def split: prod.splits)

lemma g_rule_not_p [simp]: "g_rule p \<noteq> p_rule u v x" "p_rule u v x \<noteq> g_rule p"
  by (auto simp: g_rule_def p_rule_def)

lemma store_policies [simp]: "p_policies (store_rules s) = set (st_policies s)"
proof -
  have "{r \<in> store_rules s. cr_Ptype r = ''p''} = policy_rule ` set (st_policies s)"
    by (auto simp: store_rules_def)
  then show ?thesis by (simp add: p_policies_def image_image)
qed

interpretation store: casdoor_acl store_adapter open_env store_rules
proof
  fix en aid u v w s b s'
  assume "sdk_RemovePolicy (ad_client store_adapter) en (p_rule u v w) s = ((b, None), s')"
  then have "s' = s\<lparr>st_policies := removeAll (u, v, w) (st_policies s)\<rparr>"
    by (simp add: store_adapter_def store_client_def)
  then show "store_rules s' = store_rules s - {p_rule u v w}"
    by (auto simp: store_rules_def)
qed (auto simp: store_adapter_def store_client_def store_rules_def
    store_policies [unfolded store_rules_def] image_iff split: if_splits)

section \<open>Evaluating runs\<close>

lemma store_target [simp]:
  "policyTarget (ad_cfg store_adapter) = Inr (\<lparr>en_Owner = ''built-in'', en_Name = ''enforcer''\<rparr>, [])"
  by (simp add: store_adapter_def policyTarget_def zero_casdoor_config_def Let_def
      trim_eval)

lemma store_selectors [simp]:
  "enforceSelectors (ad_cfg store_adapter) = no_selectors\<lparr>se_EnforcerID := ''enforcer''\<rparr>"
  by (simp add: store_adapter_def enforceSelectors_def zero_casdoor_config_def)

lemma store_add [simp]:
  "adapter_addPolicy store_adapter open_env ctx u v x w =
     (None, observe_dependency ''casdoor'' ''add_policy'' None
        (w\<lparr>service := (service w)\<lparr>st_policies :=
            (if (u, v, x) \<in> set (st_policies (service w)) then st_policies (service w)
             else st_policies (service w) @ [(u, v, x)])\<rparr>\<rparr>))"
proof -
  let ?f = "drop_flag (sdk_AddPolicy (ad_client store_adapter)
    \<lparr>en_Owner = ''built-in'', en_Name = ''enforcer''\<rparr> (p_rule u v x))"
  have "?f s = (None, s\<lparr>st_policies :=
      (if (u, v, x) \<in> set (st_policies s) then st_policies s else st_policies s @ [(u, v, x)])\<rparr>)" for s
    by (simp add: drop_flag_def store_adapter_def store_client_def)
  then show ?thesis
    using retry_call_first [of open_env "service w" ?f _ ctx "ad_retry store_adapter"]
    by (simp add: adapter_addPolicy_def)
qed

lemma store_remove [simp]:
  "adapter_removePolicy store_adapter open_env ctx u v x w =
     (None, observe_dependency ''casdoor'' ''remove_policy'' None
        (w\<lparr>service := (service w)\<lparr>st_policies := removeAll (u, v, x) (st_policies (service w))\<rparr>\<rparr>))"
proof -
  let ?f = "drop_flag (sdk_RemovePolicy (ad_client store_adapter)
    \<lparr>en_Owner = ''built-in'', en_Name = ''enforcer''\<rparr> (p_rule u v x))"
  have "?f s = (None, s\<lparr>st_policies := removeAll (u, v, x) (st_policies s)\<rparr>)" for s
    by (simp add: drop_flag_def store_adapter_def store_client_def)
  then show ?thesis
    using retry_call_first [of open_env "service w" ?f _ ctx "ad_retry store_adapter"]
    by (simp add: adapter_removePolicy_def)
qed

lemma store_enforce [simp]:
  "enforce_retry store_adapter open_env ctx req s = (None, (acl_matches (st_policies s) req, s))"
  unfolding enforce_retry_def lift_open_env
  by (rule retry_call_first) (simp_all add: enforce_closure_def store_adapter_def store_client_def)

lemma store_list [simp]:
  "adapter_List store_adapter open_env ctx f w =
     (Inr (filter_rules f (map (Some \<circ> policy_rule) (st_policies (service w)) @
             None # map (Some \<circ> g_rule) (st_groups (service w)))),
      observe_dependency ''casdoor'' ''get_policies'' None w)"
proof -
  let ?cl = "policies_closure (ad_client store_adapter) ''enforcer'' []"
  have "retry_call ctx open_env (ad_retry store_adapter) ?cl ([], service w) =
      (None, (map (Some \<circ> policy_rule) (st_policies (service w)) @
             None # map (Some \<circ> g_rule) (st_groups (service w)), service w))"
    by (rule retry_call_first) (simp_all add: policies_closure_def store_adapter_def store_client_def)
  then show ?thesis by (simp add: adapter_List_def)
qed

lemmas store_eval =
  adapter_manager_def adapter_Grant_def adapter_GrantRole_def adapter_Share_def adapter_Revoke_def
  adapter_DeleteResourcePolicies_def adapter_DeleteResourcePoliciesEx_def adapter_Check_def
  adapter_Authorize_def NormalizeGrant_def NormalizeShare_def zero_grant_def
  DefaultRoleActionMapper_def cleanActions_def permission_Subject_def check_subject_def
  trim_eval casbin_request_def Let_def
  policy_rule_def p_rule_def g_rule_def adapter_policies_def empty_store_def

text \<open>A run of the manager on an empty Casdoor, and the requests of the runs.\<close>

definition store_world :: "policy list \<Rightarrow> casdoor_store world" where
  "store_world P = \<lparr>service = empty_store\<lparr>st_policies := P\<rparr>, w_metrics = None\<rparr>"

definition alice_viewer :: share_request where
  "alice_viewer =
     \<lparr>sh_Resource = ''aihub:skill:translator'', sh_SubjectType = ''user'', sh_SubjectID = ''alice'',
      sh_Role = '' viewer '', sh_Actions = [], sh_Domain = [], sh_GrantedBy = ''bob'',
      sh_ExpiresAt = None, sh_Metadata = None\<rparr>"

lemma observe_no_metrics [simp]:
  "w_metrics w = None \<Longrightarrow> observe_dependency d oper err w = w"
  by (simp add: observe_dependency_def metrics_ObserveDependency_def)

lemma share_run:
  "run_calls (adapter_manager store_adapter open_env roleMapper_init ctx) [CallShare alice_viewer]
     (store_world []) =
   (None, store_world [(''user:alice'', ''aihub:skill:translator'', ''skill.read''),
                       (''user:alice'', ''aihub:skill:translator'', ''skill.download'')])"
  by (simp add: store_eval alice_viewer_def store_world_def)

end
