(* ===== verification/Access.thy ===== *)
theory Access
  imports Authz Audit_Events
begin

text \<open>
  The access guard of \<open>src/access/access.go\<close>: principal lookup, authorization and audit behind one
  facade. A nil \<open>*Guard\<close> is \<^term>\<open>None\<close>. The readings of the clock in \<open>Record\<close> are arguments: one
  of its own, and the two of \<open>audit.Normalize\<close>.
\<close>

record access_check =
  ac_Resource :: string
  ac_Action :: string
  ac_Domain :: string
  ac_Reason :: string
  ac_Extra :: "any list"

record access_event =
  ae_Name :: string
  ae_Action :: string
  ae_Resource :: string
  ae_Result :: string
  ae_Message :: string
  ae_RequestID :: string
  ae_TraceID :: string
  ae_ClientIP :: string
  ae_UserAgent :: string
  ae_Method :: string
  ae_URI :: string
  ae_Operation :: string
  ae_StatusCode :: int
  ae_Component :: string
  ae_OrgID :: string
  ae_ProjectID :: string
  ae_StartedAt :: gtime
  ae_FinishedAt :: gtime
  ae_Metadata :: "(string \<rightharpoonup> string) option"

record 'w guard =
  g_authz :: "'w authorizer option"
  g_audit :: "'w recorder option"
  g_component :: string

definition NewGuard :: "'w authorizer option \<Rightarrow> 'w recorder option \<Rightarrow> string \<Rightarrow> 'w guard" where
  "NewGuard authz audit component =
     \<lparr>g_authz = authz, g_audit = audit, g_component = component\<rparr>"

definition guard_Principal :: "'w guard option \<Rightarrow> go_context option \<Rightarrow> go_error + principal" where
  "guard_Principal g ctx = principal_RequireFromContext ctx"

definition guard_authz :: "'w guard option \<Rightarrow> 'w authorizer option" where
  "guard_authz g = (case g of None \<Rightarrow> None | Some g \<Rightarrow> g_authz g)"

definition check_request_of :: "principal \<Rightarrow> access_check \<Rightarrow> authz_request" where
  "check_request_of p chk =
     \<lparr>rq_Principal = Some p, rq_Resource = ac_Resource chk, rq_Action = ac_Action chk,
      rq_Domain = ac_Domain chk, rq_Extra = ac_Extra chk\<rparr>"

definition guard_Can ::
    "'w guard option \<Rightarrow> go_context option \<Rightarrow> access_check \<Rightarrow> 'w \<Rightarrow> (bool \<times> go_error option) \<times> 'w" where
  "guard_Can g ctx chk w =
     (case principal_RequireFromContext ctx of
        Inl err \<Rightarrow> ((False, Some err), w)
      | Inr p \<Rightarrow>
          (case guard_authz g of
             None \<Rightarrow> ((False, Some ErrNotConfigured), w)
           | Some Authorize \<Rightarrow>
               if ac_Resource chk = [] \<or> ac_Action chk = []
               then ((False, Some ErrEmptyAuthorization), w)
               else Authorize ctx (check_request_of p chk) w))"

definition guard_Require ::
    "'w guard option \<Rightarrow> go_context option \<Rightarrow> access_check \<Rightarrow> 'w \<Rightarrow> (go_error + principal) \<times> 'w" where
  "guard_Require g ctx chk w =
     (case principal_RequireFromContext ctx of
        Inl err \<Rightarrow> (Inl err, w)
      | Inr p \<Rightarrow>
          (case guard_authz g of
             None \<Rightarrow> (Inl ErrNotConfigured, w)
           | Some Authorize \<Rightarrow>
               if ac_Resource chk = [] \<or> ac_Action chk = [] then (Inl ErrEmptyAuthorization, w)
               else (case authz_RequirePrincipal ctx (Some Authorize) (Some p)
                            (ac_Resource chk) (ac_Action chk) w of
                       (Some err, w') \<Rightarrow> (Inl err, w')
                     | (None, w') \<Rightarrow> (Inr p, w'))))"

text \<open>The event that \<open>Record\<close> hands to the recorder.\<close>

definition guard_event ::
    "string \<Rightarrow> gtime \<Rightarrow> gtime \<Rightarrow> gtime \<Rightarrow> go_context option \<Rightarrow> access_event \<Rightarrow> event" where
  "guard_event component now now1 now2 ctx ev0 =
     (let ev1 = (if time_IsZero (ae_StartedAt ev0) then ev0\<lparr>ae_StartedAt := now\<rparr> else ev0);
          ev = (if time_IsZero (ae_FinishedAt ev1) then ev1\<lparr>ae_FinishedAt := now\<rparr> else ev1);
          aev = \<lparr>ev_Name = ae_Name ev, ev_Actor = None, ev_Action = ae_Action ev,
                 ev_Resource = ae_Resource ev, ev_Result = ae_Result ev,
                 ev_Message = ae_Message ev, ev_RequestID = ae_RequestID ev,
                 ev_TraceID = ae_TraceID ev, ev_ClientIP = ae_ClientIP ev,
                 ev_UserAgent = ae_UserAgent ev, ev_Method = ae_Method ev, ev_URI = ae_URI ev,
                 ev_Operation = ae_Operation ev, ev_StatusCode = ae_StatusCode ev,
                 ev_Component = firstNonEmpty [ae_Component ev, component],
                 ev_OrgID = ae_OrgID ev, ev_ProjectID = ae_ProjectID ev,
                 ev_StartedAt = ae_StartedAt ev, ev_FinishedAt = ae_FinishedAt ev,
                 ev_Duration = 0, ev_Metadata = ae_Metadata ev\<rparr>
      in audit_Normalize now1 now2 ctx aev None)"

type_synonym clock3 = "gtime \<times> gtime \<times> gtime"

definition guard_Record ::
    "'w guard option \<Rightarrow> clock3 \<Rightarrow> go_context option \<Rightarrow> access_event \<Rightarrow> 'w \<Rightarrow> go_error option \<times> 'w" where
  "guard_Record g clk ctx ev w =
     (case g of
        None \<Rightarrow> (None, w)
      | Some g \<Rightarrow>
          (case g_audit g of
             None \<Rightarrow> (None, w)
           | Some Record \<Rightarrow>
               (case clk of (now, now1, now2) \<Rightarrow>
                  audit_Record ctx (Some Record)
                    (guard_event (g_component g) now now1 now2 ctx ev) w)))"

definition denied_event :: "go_error \<Rightarrow> access_event \<Rightarrow> access_event" where
  "denied_event err ev0 =
     (let ev1 = ev0\<lparr>ae_Result := ResultFailed\<rparr>;
          ev2 = (if ae_Message ev1 = [] then ev1\<lparr>ae_Message := error_text err\<rparr> else ev1)
      in if ae_StatusCode ev2 = 0 then ev2\<lparr>ae_StatusCode := 403\<rparr> else ev2)"

definition allowed_event :: "access_event \<Rightarrow> access_event" where
  "allowed_event ev = ev\<lparr>ae_Result := firstNonEmpty [ae_Result ev, ResultSuccess]\<rparr>"

definition guard_RequireAndAudit ::
    "'w guard option \<Rightarrow> clock3 \<Rightarrow> go_context option \<Rightarrow> access_check \<Rightarrow> access_event \<Rightarrow> 'w
      \<Rightarrow> (go_error + principal) \<times> 'w" where
  "guard_RequireAndAudit g clk ctx chk ev w =
     (case guard_Require g ctx chk w of
        (Inl err, w') \<Rightarrow> (Inl err, snd (guard_Record g clk ctx (denied_event err ev) w'))
      | (Inr p, w') \<Rightarrow> (Inr p, snd (guard_Record g clk ctx (allowed_event ev) w')))"

section \<open>Facts\<close>

lemma guard_authz_simps [simp]:
  "guard_authz None = None" "guard_authz (Some g) = g_authz g"
  by (simp_all add: guard_authz_def)

lemma NewGuard_sel [simp]:
  "g_authz (NewGuard a r c) = a" "g_audit (NewGuard a r c) = r" "g_component (NewGuard a r c) = c"
  by (simp_all add: NewGuard_def)

text \<open>What a passed check means: exactly this question was put to the authorizer and answered yes.\<close>

lemma guard_Require_success:
  "guard_Require g ctx chk w = (Inr p, w') \<longleftrightarrow>
    (\<exists>Authorize. guard_authz g = Some Authorize \<and>
       principal_FromContext ctx = (Some p, True) \<and> \<not> principal_IsZero p \<and>
       ac_Resource chk \<noteq> [] \<and> ac_Action chk \<noteq> [] \<and>
       Authorize ctx (plain_request p (ac_Resource chk) (ac_Action chk)) w = ((True, None), w'))"
proof (cases "principal_RequireFromContext ctx")
  case (Inl e)
  then have "\<not> (principal_FromContext ctx = (Some p, True) \<and> \<not> principal_IsZero p)"
    using RequireFromContext_Inr [of ctx p] by auto
  with Inl show ?thesis by (auto simp: guard_Require_def)
next
  case (Inr q)
  then have q: "principal_FromContext ctx = (Some q, True)" "\<not> principal_IsZero q"
    by (simp_all add: RequireFromContext_Inr)
  show ?thesis
  proof (cases "guard_authz g")
    case None
    with Inr show ?thesis by (simp add: guard_Require_def)
  next
    case (Some Authorize)
    have "guard_Require g ctx chk w = (Inr p, w') \<longleftrightarrow>
        ac_Resource chk \<noteq> [] \<and> ac_Action chk \<noteq> [] \<and> p = q \<and>
        authz_RequirePrincipal ctx (Some Authorize) (Some q) (ac_Resource chk) (ac_Action chk) w
          = (None, w')"
      using Inr Some by (auto simp: guard_Require_def split: prod.splits option.splits)
    with q Some show ?thesis by (auto simp: RequirePrincipal_success)
  qed
qed

lemma guard_Require_frame:
  "guard_Require g ctx (chk\<lparr>ac_Domain := d, ac_Extra := x\<rparr>) w = guard_Require g ctx chk w"
  by (simp add: guard_Require_def split: sum.split option.split)

lemma guard_event_fields:
  "ev_Result (guard_event c now n1 n2 ctx ev) =
     (if ae_Result ev = [] then ResultSuccess else ae_Result ev)"
  "ev_StatusCode (guard_event c now n1 n2 ctx ev) =
     (if ae_StatusCode ev = 0 then 200 else ae_StatusCode ev)"
  "ev_Message (guard_event c now n1 n2 ctx ev) = ae_Message ev"
  "ev_Action (guard_event c now n1 n2 ctx ev) = ae_Action ev"
  "ev_Resource (guard_event c now n1 n2 ctx ev) = ae_Resource ev"
  "ev_Component (guard_event c now n1 n2 ctx ev) = firstNonEmpty [ae_Component ev, c]"
  by (auto simp: guard_event_def audit_Normalize_def Let_def norm_result_Result
      norm_result_StatusCode norm_result_Message)

lemma guard_event_Actor:
  "principal_FromContext ctx = (Some p, True) \<Longrightarrow>
    ev_Actor (guard_event c now n1 n2 ctx ev) = Some p"
  by (simp add: guard_event_def audit_Normalize_def Let_def norm_actor_Actor)

lemma denied_event_fields [simp]:
  "ae_Result (denied_event err ev) = ResultFailed"
  "ae_Message (denied_event err ev) = (if ae_Message ev = [] then error_text err else ae_Message ev)"
  "ae_StatusCode (denied_event err ev) = (if ae_StatusCode ev = 0 then 403 else ae_StatusCode ev)"
  "ae_Action (denied_event err ev) = ae_Action ev"
  "ae_Resource (denied_event err ev) = ae_Resource ev"
  by (auto simp: denied_event_def Let_def)

section \<open>A guard over an authorizer\<close>

text \<open>The guard as a client of the authorizer's contract.\<close>

context authorizer
begin

text \<open>\<open>Can\<close> never answers yes together with an error.\<close>

lemma can_no_error:
  "guard_authz g = Some Authorize \<Longrightarrow> guard_Can g ctx chk w = ((True, err), w') \<Longrightarrow> err = None"
  by (auto simp: guard_Can_def dest: allowed_no_error split: sum.splits if_splits)

text \<open>For a check without domain and extra arguments, \<open>Can\<close> and \<open>Require\<close> agree.\<close>

lemma can_iff_require:
  assumes "guard_authz g = Some Authorize" and "ac_Domain chk = []" and "ac_Extra chk = []"
  shows "fst (fst (guard_Can g ctx chk w)) \<longleftrightarrow> (\<exists>p. fst (guard_Require g ctx chk w) = Inr p)"
proof -
  have same: "check_request_of p chk = plain_request p (ac_Resource chk) (ac_Action chk)" for p
    using assms by (simp add: check_request_of_def plain_request_def)
  show ?thesis
  proof (cases "principal_RequireFromContext ctx")
    case (Inl e)
    then show ?thesis by (simp add: guard_Can_def guard_Require_def)
  next
    case (Inr p)
    then have "\<not> principal_IsZero p" by (simp add: RequireFromContext_Inr)
    with Inr assms same require_iff_allowed [of p "ac_Resource chk" "ac_Action chk" ctx w]
    show ?thesis
      by (auto simp: guard_Can_def guard_Require_def split: prod.splits option.splits)
  qed
qed

end

section \<open>Properties of the guard\<close>

text \<open>
  C23: the audit trail tells the decision. RequireAndAudit returns what Require decides, whatever the
  recorder answers, and hands exactly one event to the recorder: for a denied request one with the result
  failed and the status code 403 unless the caller has set one, for an allowed request one whose actor is
  the principal.
\<close>

theorem audit_tells_decision:
  assumes "g_audit g = Some Record" and "guard_Require (Some g) ctx chk w = (d, w1)"
    and "guard_RequireAndAudit (Some g) clk ctx chk ev w = (r, w')"
  shows "r = d \<and> (\<exists>e. w' = snd (Record ctx e w1) \<and> ev_Action e = ae_Action ev \<and>
      ev_Resource e = ae_Resource ev \<and>
      (case d of
         Inl err \<Rightarrow> ev_Result e = ResultFailed \<and>
           ev_StatusCode e = (if ae_StatusCode ev = 0 then 403 else ae_StatusCode ev)
       | Inr p \<Rightarrow> ev_Actor e = Some p \<and>
           ev_Result e = (if ae_Result ev = [] then ResultSuccess else ae_Result ev)))"
proof -
  obtain now now1 now2 where clk: "clk = (now, now1, now2)" by (cases clk)
  let ?e = "\<lambda>x. guard_event (g_component g) now now1 now2 ctx x"
  show ?thesis
  proof (cases d)
    case (Inl err)
    then have "r = Inl err \<and> w' = snd (Record ctx (?e (denied_event err ev)) w1)"
      using assms clk by (simp add: guard_RequireAndAudit_def guard_Record_def audit_Record_def)
    with Inl show ?thesis
      by (intro conjI exI [of _ "?e (denied_event err ev)"]) (simp_all add: guard_event_fields)
  next
    case (Inr p)
    then have "r = Inr p \<and> w' = snd (Record ctx (?e (allowed_event ev)) w1)"
      using assms clk by (simp add: guard_RequireAndAudit_def guard_Record_def audit_Record_def)
    moreover have "principal_FromContext ctx = (Some p, True)"
      using assms(2) Inr by (auto simp: guard_Require_success)
    ultimately show ?thesis
      using Inr by (intro conjI exI [of _ "?e (allowed_event ev)"])
        (simp_all add: guard_event_fields guard_event_Actor allowed_event_def)
  qed
qed

definition log_guard :: "event list guard" where
  "log_guard = NewGuard (Some (\<lambda>ctx req w. ((False, None), w)))
     (Some (\<lambda>ctx e w. (Some (ErrExt ''disk full''), w @ [e]))) ''hub''"

definition blank_access_event :: access_event where
  "blank_access_event =
     \<lparr>ae_Name = [], ae_Action = ''read'', ae_Resource = ''r'', ae_Result = [], ae_Message = [],
      ae_RequestID = [], ae_TraceID = [], ae_ClientIP = [], ae_UserAgent = [], ae_Method = [], ae_URI = [],
      ae_Operation = [], ae_StatusCode = 0, ae_Component = [], ae_OrgID = [], ae_ProjectID = [],
      ae_StartedAt = 0, ae_FinishedAt = 0, ae_Metadata = None\<rparr>"

theorem audit_tells_decision_witness:
  "\<exists>e. guard_RequireAndAudit (Some log_guard) (1, 2, 3) None
      \<lparr>ac_Resource = ''r'', ac_Action = ''read'', ac_Domain = [], ac_Reason = [], ac_Extra = []\<rparr>
      blank_access_event [] = (Inl ErrMissingPrincipal, [e]) \<and>
    ev_Result e = ResultFailed \<and> ev_StatusCode e = 403"
proof -
  let ?chk = "\<lparr>ac_Resource = ''r'', ac_Action = ''read'', ac_Domain = [], ac_Reason = [], ac_Extra = []\<rparr>"
  have a: "g_audit log_guard = Some (\<lambda>ctx e w. (Some (ErrExt ''disk full''), w @ [e]))"
    by (simp add: log_guard_def)
  have d: "guard_Require (Some log_guard) None ?chk [] = (Inl ErrMissingPrincipal, [])"
    by (simp add: guard_Require_def)
  obtain r w' where x: "guard_RequireAndAudit (Some log_guard) (1, 2, 3) None ?chk blank_access_event [] = (r, w')"
    by fastforce
  from audit_tells_decision [OF a d x] x show ?thesis by (auto simp: blank_access_event_def)
qed

end
