(* ===== verification/Audit_Trail.thy ===== *)
theory Audit_Trail
  imports Casdoor_Reference Access
begin

text \<open>
  The audit trail in Casdoor: \<open>RequireAndAudit\<close> (\<open>src/access/access.go\<close>) over the adapter's \<open>Record\<close> and
  \<open>Authorize\<close> (\<open>src/casdoor/adapter.go\<close>), down to the records that Casdoor keeps. The locale
  \<open>casdoor_log\<close> states what that takes of Casdoor: adding appends a record or fails, with or without
  effect, and nothing else that the guard calls touches the records.
\<close>

section \<open>Records in Casdoor\<close>

locale casdoor_log =
  fixes a :: "'x adapter" and env :: "'x goenv" and recs :: "'x \<Rightarrow> casdoor_record list"
  assumes add_appends: "sdk_AddRecord (ad_client a) r s = (None, s') \<Longrightarrow> recs s' = recs s @ [r]"
    and add_fails: "sdk_AddRecord (ad_client a) r s = (Some e, s') \<Longrightarrow>
      recs s' = recs s \<or> recs s' = recs s @ [r]"
    and enforce_adds_none: "sdk_Enforce (ad_client a) sel req s = (y, s') \<Longrightarrow> recs s' = recs s"
    and waiting_adds_none: "env_keeps env (\<lambda>s. recs s = R)"
begin

lemma Record_effect:
  assumes "adapter_Record a env ri ctx ev w = (err, w')"
  shows "\<exists>k. recs (service w') = recs (service w) @ replicate k (event_record (ad_cfg a) ri ev) \<and>
    k \<le> policy_rounds (ad_retry a) \<and> (err = None \<longrightarrow> 0 < k)"
proof -
  let ?r = "event_record (ad_cfg a) ri ev"
  let ?P = "\<lambda>k s. recs s = recs (service w) @ replicate k ?r"
  have run: "retry_call ctx env (ad_retry a) (sdk_AddRecord (ad_client a) ?r) (service w) = (err, service w')"
    using assms by (auto simp: adapter_Record_def Let_def split: prod.splits)
  have "?P (Suc k) s' \<or> e \<noteq> None \<and> ?P k s'"
    if "?P k s" "sdk_AddRecord (ad_client a) ?r s = (e, s')" for k s e s'
    using that add_appends [of ?r s s'] add_fails [of ?r s _ s']
    by (cases e) (auto simp: replicate_append_same)
  from retry_call_effects [where P = ?P, OF run _ waiting_adds_none this] show ?thesis by simp
qed

lemma Authorize_effect:
  assumes "adapter_Authorize a env ctx req w = (r, w')"
  shows "recs (service w') = recs (service w)"
proof (cases "rq_Principal req = None \<or> enforceSelectors (ad_cfg a) = no_selectors")
  case True
  with assms show ?thesis by (auto simp: adapter_Authorize_def split: option.splits)
next
  case False
  then obtain p where p: "rq_Principal req = Some p" by auto
  let ?q = "casbin_request (principal_Subject p) (rq_Domain req) (rq_Resource req) (rq_Action req) (rq_Extra req)"
  obtain err b s where run: "enforce_retry a env ctx ?q (service w) = (err, (b, s))"
    by (metis surj_pair)
  have "recs (snd (b, s)) = recs (service w)"
    by (rule retry_call_rule(1) [where I = "\<lambda>vs. recs (snd vs) = recs (service w)",
          OF run [unfolded enforce_retry_def]])
      (auto simp: enforce_closure_def intro: env_keeps_lift waiting_adds_none
        dest: enforce_adds_none split: prod.splits)
  with assms p False run show ?thesis
    by (auto simp: adapter_Authorize_def Let_def split: option.splits)
qed

lemma Require_effect:
  assumes "guard_Require (Some (NewGuard (Some (adapter_authorizer a env)) aud c)) ctx chk w = (d, w')"
  shows "recs (service w') = recs (service w)"
  using assms
  by (auto simp: guard_Require_def authz_RequirePrincipal_def adapter_authorizer_def
      dest: Authorize_effect split: sum.splits if_splits prod.splits option.splits)

end

interpretation store_log: casdoor_log store_adapter open_env st_records
  by unfold_locales (auto simp: store_adapter_def store_client_def split: if_splits)

section \<open>The record of a decision\<close>

lemma event_record_fields:
  "cd_Action (event_record cfg ri e) = ev_Action e"
  "cd_StatusCode (event_record cfg ri e) = ev_StatusCode e"
  "cd_Response (event_record cfg ri e) = ev_Message e"
  "cd_User (event_record cfg ri e) =
     (case ev_Actor e of None \<Rightarrow> ''anonymous'' | Some p \<Rightarrow> pr_SubjectID p)"
  by (simp_all add: event_record_def Let_def)

lemma guard_event_caller:
  "ev_Actor (guard_event c now n1 n2 ctx ev) = fst (principal_FromContext ctx)"
  using FromContext_cases [of ctx]
proof (elim disjE exE)
  assume "principal_FromContext ctx = (None, False)"
  then show ?thesis by (simp add: guard_event_def audit_Normalize_def norm_actor_def Let_def)
qed (simp add: guard_event_Actor)

text \<open>What \<open>RequireAndAudit\<close> hands to the recorder, by the decision.\<close>

definition decision_event :: "go_error + principal \<Rightarrow> access_event \<Rightarrow> access_event" where
  "decision_event d ev = (case d of Inl err \<Rightarrow> denied_event err ev | Inr p \<Rightarrow> allowed_event ev)"

lemma RequireAndAudit_steps:
  assumes "guard_RequireAndAudit (Some (NewGuard z (Some Record) c)) (now, n1, n2) ctx chk ev w = (d, w')"
  shows "\<exists>w1. guard_Require (Some (NewGuard z (Some Record) c)) ctx chk w = (d, w1) \<and>
    snd (Record ctx (guard_event c now n1 n2 ctx (decision_event d ev)) w1) = w'"
  using assms
  by (auto simp: guard_RequireAndAudit_def guard_Record_def audit_Record_def decision_event_def
      split: prod.splits sum.splits)

lemma decision_event_fields:
  "ae_Action (decision_event d ev) = ae_Action ev"
  "ae_StatusCode (decision_event d ev) =
     (if ae_StatusCode ev = 0 then case d of Inl _ \<Rightarrow> 403 | Inr _ \<Rightarrow> 0 else ae_StatusCode ev)"
  "ae_Message (decision_event d ev) =
     (if ae_Message ev = [] then case d of Inl err \<Rightarrow> error_text err | Inr _ \<Rightarrow> [] else ae_Message ev)"
  by (auto simp: decision_event_def allowed_event_def split: sum.splits)

text \<open>
  C24: the decision is in Casdoor's records. RequireAndAudit over the adapter leaves the earlier records
  alone and appends copies of one record, at most as many as the retry policy has attempts: the action
  asked for, the caller or anonymous, and for a refusal the status 403 with the error's text, for an
  allowed request the status 200, unless the caller of the guard has set them. A copy is there unless
  Record returned an error, which the guard drops.
\<close>

theorem decision_is_recorded:
  assumes "casdoor_log a env recs"
    and "guard_RequireAndAudit
        (Some (NewGuard (Some (adapter_authorizer a env)) (Some (adapter_recorder a env ri)) c))
        (now, n1, n2) (Some ctx) chk ev w = (d, w')"
  shows "\<exists>rec k w1 e err. recs (service w') = recs (service w) @ replicate k rec \<and>
      k \<le> policy_rounds (ad_retry a) \<and>
      adapter_recorder a env ri (Some ctx) e w1 = (err, w') \<and> (k = 0 \<longrightarrow> err \<noteq> None) \<and>
      cd_Action rec = ae_Action ev \<and>
      cd_User rec = (case fst (principal_FromContext (Some ctx)) of
        None \<Rightarrow> ''anonymous'' | Some p \<Rightarrow> pr_SubjectID p) \<and>
      cd_StatusCode rec = (if ae_StatusCode ev \<noteq> 0 then ae_StatusCode ev
        else case d of Inl _ \<Rightarrow> 403 | Inr _ \<Rightarrow> 200) \<and>
      cd_Response rec = (if ae_Message ev \<noteq> [] then ae_Message ev
        else case d of Inl refused \<Rightarrow> error_text refused | Inr _ \<Rightarrow> [])"
proof -

  let ?e = "guard_event c now n1 n2 (Some ctx) (decision_event d ev)"
  let ?rec = "event_record (ad_cfg a) ri ?e"
  obtain w1 err where
    req: "guard_Require (Some (NewGuard (Some (adapter_authorizer a env))
        (Some (adapter_recorder a env ri)) c)) (Some ctx) chk w = (d, w1)"
    and rcd: "adapter_recorder a env ri (Some ctx) ?e w1 = (err, w')"
    using RequireAndAudit_steps [OF assms(2)] by (metis prod.collapse)
  have same: "recs (service w1) = recs (service w)"
    by (rule casdoor_log.Require_effect [OF assms(1) req])
  obtain k where "recs (service w') = recs (service w1) @ replicate k ?rec"
    "k \<le> policy_rounds (ad_retry a)" "err = None \<longrightarrow> 0 < k"
    using casdoor_log.Record_effect [OF assms(1) rcd [unfolded adapter_recorder_def]] by blast
  with same rcd show ?thesis
    by (intro exI [of _ ?rec] exI [of _ k] exI [of _ w1] exI [of _ ?e] exI [of _ err])
      (auto simp: event_record_fields guard_event_caller guard_event_fields decision_event_fields
        split: sum.splits)
qed

definition audited_guard :: "record_inputs \<Rightarrow> casdoor_store world guard" where
  "audited_guard ri =
     NewGuard (Some (adapter_authorizer store_adapter open_env))
       (Some (adapter_recorder store_adapter open_env ri)) ''hub''"

definition fixed_inputs :: record_inputs where
  "fixed_inputs =
     \<lparr>ri_rand = Inr ''abcdefgh'', ri_unixnano = 0, ri_created = ''2025-01-01T00:00:00Z'',
      ri_marshal = (\<lambda>ev. Inr ''{}'')\<rparr>"

theorem decision_is_recorded_witness:
  "\<exists>rec k. st_records (service (snd (guard_RequireAndAudit (Some (audited_guard fixed_inputs)) (1, 2, 3) (Some context_Background)
      \<lparr>ac_Resource = ''r'', ac_Action = ''read'', ac_Domain = [], ac_Reason = [], ac_Extra = []\<rparr>
      blank_access_event (store_world [])))) = replicate k rec \<and> k \<le> 3 \<and>
    cd_User rec = ''anonymous'' \<and> cd_Action rec = ''read'' \<and> cd_StatusCode rec = 403"
proof -
  let ?chk = "\<lparr>ac_Resource = ''r'', ac_Action = ''read'', ac_Domain = [], ac_Reason = [], ac_Extra = []\<rparr>"
  obtain d w' where run: "guard_RequireAndAudit (Some (audited_guard fixed_inputs)) (1, 2, 3) (Some context_Background) ?chk
      blank_access_event (store_world []) = (d, w')"
    by fastforce
  have d: "d = Inl ErrMissingPrincipal"
    using run by (auto simp: guard_RequireAndAudit_def guard_Require_def
        principal_RequireFromContext_def principal_FromContext_def context_Background_def split: prod.splits)
  have rounds: "policy_rounds (ad_retry store_adapter) = 3"
    by (simp add: policy_rounds_def store_adapter_def)
  from decision_is_recorded [OF store_log.casdoor_log_axioms run [unfolded audited_guard_def]] d rounds
  obtain rec k where "st_records (service w') = replicate k rec" "k \<le> 3" "cd_User rec = ''anonymous''"
    "cd_Action rec = ''read''" "cd_StatusCode rec = 403"
    by (auto simp: principal_FromContext_def context_Background_def blank_access_event_def store_world_def empty_store_def)
  with run show ?thesis by (intro exI [of _ rec] exI [of _ k]) simp
qed

end
