(* ===== verification/Logx.thy ===== *)
theory Logx
  imports Identity
begin

text \<open>
  Logging of \<open>src/logx/logx.go\<close>: the logger that \<open>New\<close> makes of its settings, the logger and the
  request identifier that a context carries. \<open>dflt\<close> is \<open>slog.Default()\<close>. The functions that derive a
  context take one that is not nil, since \<open>context.WithValue\<close> panics on a nil parent.
\<close>

section \<open>Settings\<close>

record logx_config =
  lx_Level :: string
  lx_Format :: string
  lx_AddSource :: bool

definition logx_New :: "logx_config \<Rightarrow> slog_logger" where
  "logx_New cfg =
     (let l = strings_ToLower (strings_TrimSpace (lx_Level cfg));
          level = (if l = ''debug'' then LevelDebug
                   else if l = ''warn'' \<or> l = ''warning'' then LevelWarn
                   else if l = ''error'' then LevelError
                   else LevelInfo);
          opts = (\<lambda>f. \<lparr>hd_Level = level, hd_Format = f, hd_AddSource = lx_AddSource cfg\<rparr>)
      in if strings_EqualFold (lx_Format cfg) ''text'' then slog_New (opts TextHandler)
         else slog_New (opts JSONHandler))"

lemma errors_are_logged: "handler_Enabled (sl_handler (logx_New cfg)) LevelError"
  by (simp add: handler_Enabled_def logx_New_def slog_New_def Let_def less_eq_slog_level_def slog_number_def)

lemma unknown_level_is_info:
  "strings_ToLower (strings_TrimSpace (lx_Level cfg)) \<notin> {''debug'', ''warn'', ''warning'', ''error''} \<Longrightarrow>
    handler_Enabled (sl_handler (logx_New cfg)) l \<longleftrightarrow> LevelInfo \<le> l"
  by (simp add: handler_Enabled_def logx_New_def slog_New_def Let_def)

section \<open>The logger of a context\<close>

definition logx_NewContext :: "slog_logger \<Rightarrow> go_context \<Rightarrow> slog_logger option \<Rightarrow> go_context" where
  "logx_NewContext dflt ctx logger =
     (let l = (case logger of None \<Rightarrow> dflt | Some l \<Rightarrow> l) in ctx\<lparr>loggerKey := Some (Some l)\<rparr>)"

definition logx_FromContext :: "slog_logger \<Rightarrow> go_context option \<Rightarrow> slog_logger" where
  "logx_FromContext dflt ctx =
     (case ctx of
        None \<Rightarrow> dflt
      | Some c \<Rightarrow> (case loggerKey c of Some (Some l) \<Rightarrow> l | _ \<Rightarrow> dflt))"

definition logx_With :: "slog_logger \<Rightarrow> go_context \<Rightarrow> any list \<Rightarrow> go_context" where
  "logx_With dflt ctx attrs =
     logx_NewContext dflt ctx (Some (slog_With attrs (logx_FromContext dflt (Some ctx))))"

definition WithRequestID :: "slog_logger \<Rightarrow> go_context \<Rightarrow> string \<Rightarrow> go_context" where
  "WithRequestID dflt ctx requestID =
     (if requestID = [] then ctx
      else logx_With dflt (ctx\<lparr>requestIDKey := Some requestID\<rparr>) [AStr ''request_id'', AStr requestID])"

definition RequestID :: "go_context option \<Rightarrow> string" where
  "RequestID ctx =
     (case ctx of None \<Rightarrow> []
      | Some c \<Rightarrow> (case requestIDKey c of None \<Rightarrow> [] | Some v \<Rightarrow> v))"

section \<open>Facts\<close>

lemma FromContext_NewContext_logger [simp]:
  "logx_FromContext dflt (Some (logx_NewContext dflt ctx logger)) = (case logger of None \<Rightarrow> dflt | Some l \<Rightarrow> l)"
  by (simp add: logx_FromContext_def logx_NewContext_def)

lemma FromContext_With [simp]:
  "logx_FromContext dflt (Some (logx_With dflt ctx attrs)) = slog_With attrs (logx_FromContext dflt (Some ctx))"
  by (simp add: logx_With_def)

lemma logger_frames [simp]:
  "logx_FromContext dflt (Some (principal_NewContext ctx p)) = logx_FromContext dflt (Some ctx)"
  "logx_FromContext dflt (Some (ctx\<lparr>requestIDKey := r\<rparr>)) = logx_FromContext dflt (Some ctx)"
  "logx_FromContext dflt (Some (ctx\<lparr>txKey := t\<rparr>)) = logx_FromContext dflt (Some ctx)"
  by (simp_all add: logx_FromContext_def principal_NewContext_def)

lemma RequestID_frames [simp]:
  "RequestID (Some (principal_NewContext ctx p)) = RequestID (Some ctx)"
  "RequestID (Some (ctx\<lparr>txKey := t\<rparr>)) = RequestID (Some ctx)"
  "RequestID (Some (logx_NewContext dflt ctx l)) = RequestID (Some ctx)"
  "RequestID (Some (logx_With dflt ctx attrs)) = RequestID (Some ctx)"
  by (simp_all add: RequestID_def principal_NewContext_def logx_NewContext_def logx_With_def Let_def)

lemma RequestID_With:
  "RequestID (Some (WithRequestID dflt ctx r)) = (if r = [] then RequestID (Some ctx) else r)"
  by (simp add: WithRequestID_def) (simp add: RequestID_def)

lemma FromContext_WithRequestID:
  "logx_FromContext dflt (Some (WithRequestID dflt ctx r)) =
     (if r = [] then logx_FromContext dflt (Some ctx)
      else slog_With [AStr ''request_id'', AStr r] (logx_FromContext dflt (Some ctx)))"
  by (simp add: WithRequestID_def)

section \<open>The property\<close>

text \<open>What the middleware of a request does to its context.\<close>

datatype context_step =
    StepPrincipal "principal option"
  | StepTx "nat option"
  | StepWith "any list"
  | StepRequestID string

fun context_run :: "slog_logger \<Rightarrow> context_step \<Rightarrow> go_context \<Rightarrow> go_context" where
  "context_run dflt (StepPrincipal p) ctx = principal_NewContext ctx p"
| "context_run dflt (StepTx tx) ctx = ctx\<lparr>txKey := Some tx\<rparr>"
| "context_run dflt (StepWith attrs) ctx = logx_With dflt ctx attrs"
| "context_run dflt (StepRequestID r) ctx = WithRequestID dflt ctx r"

definition own_attrs :: "context_step \<Rightarrow> bool" where
  "own_attrs st \<longleftrightarrow> (case st of StepWith attrs \<Rightarrow> ''request_id'' \<notin> fst ` set (slog_args attrs) | _ \<Rightarrow> True)"

definition names_request :: "slog_logger \<Rightarrow> go_context \<Rightarrow> bool" where
  "names_request dflt ctx \<longleftrightarrow>
     (RequestID (Some ctx) \<noteq> [] \<longrightarrow>
        logged (logx_FromContext dflt (Some ctx)) ''request_id'' = Some (AStr (RequestID (Some ctx))))"

lemma names_request_step:
  assumes "names_request dflt ctx" and "own_attrs st"
  shows "names_request dflt (context_run dflt st ctx)"
proof (cases st)
  case (StepRequestID r)
  with assms(1) show ?thesis
    by (simp add: names_request_def RequestID_With FromContext_WithRequestID)
      (simp add: logged_With)
next
  case (StepWith attrs)
  with assms show ?thesis by (simp add: names_request_def own_attrs_def logged_With_other)
qed (use assms(1) in \<open>simp_all add: names_request_def\<close>)


definition text_logger :: slog_logger where
  "text_logger = slog_New \<lparr>hd_Level = LevelInfo, hd_Format = TextHandler, hd_AddSource = False\<rparr>"


end
