(* ===== verification/Redis_KV.thy ===== *)
theory Redis_KV
  imports Metrics Retry
begin

text \<open>
  Redis as the repository uses it. The client of \<open>go-redis\<close> is a parameter, the record
  \<open>redis_client\<close>: each command takes the state \<open>'x\<close> of the server and returns the new one. The two Lua
  scripts of \<open>src/cache/lock.go\<close> are values of the type \<open>lua_script\<close>. The locale \<open>redis_kv\<close> states
  what the code relies on, over a view \<open>kv\<close> of the keys that are live at the moment of the
  command; keys expire between commands. The laws allow the client to send a command again after a
  network failure, and leave open whether a command that returned an error was carried out. A Redis
  in memory with expiry times satisfies them.
\<close>

section \<open>The client\<close>

abbreviation redis_Nil :: go_error where
  "redis_Nil \<equiv> ErrNew ''redis'' ''redis: nil''"

text \<open>
  \<open>if redis.call("GET", KEYS[i]) == ARGV[j] then return <command> else return 0 end\<close>; indices count
  from 1 as in Lua.
\<close>

datatype redis_command = DEL nat | PEXPIRE nat nat

datatype lua_script = IfGetEq nat nat redis_command

record 'x redis_client =
  rd_Ping :: "'x fallible"
  rd_Close :: "'x fallible"
  rd_Set :: "string \<Rightarrow> string \<Rightarrow> duration \<Rightarrow> 'x fallible"
  rd_SetNX :: "string \<Rightarrow> string \<Rightarrow> duration \<Rightarrow> 'x \<Rightarrow> (bool \<times> go_error option) \<times> 'x"
  rd_Get :: "string \<Rightarrow> 'x \<Rightarrow> (go_error + string) \<times> 'x"
  rd_GetDel :: "string \<Rightarrow> 'x \<Rightarrow> (go_error + string) \<times> 'x"
  rd_Exists :: "string \<Rightarrow> 'x \<Rightarrow> (go_error + int) \<times> 'x"
  rd_Eval :: "lua_script \<Rightarrow> string list \<Rightarrow> string list \<Rightarrow> 'x \<Rightarrow> (int \<times> go_error option) \<times> 'x"

section \<open>What a script does\<close>

text \<open>A script runs atomically. \<open>PEXPIRE\<close> with a time that is not positive deletes the key.\<close>

definition run_command :: "redis_command \<Rightarrow> string list \<Rightarrow> string list \<Rightarrow> (string \<rightharpoonup> string) \<Rightarrow> int \<times> (string \<rightharpoonup> string)" where
  "run_command c keys args m =
     (case c of
        DEL i \<Rightarrow> (if m (keys ! (i - 1)) = None then (0, m) else (1, m(keys ! (i - 1) := None)))
      | PEXPIRE i j \<Rightarrow>
          (if m (keys ! (i - 1)) = None then (0, m)
           else (case strconv_Atoi (args ! (j - 1)) of
                   None \<Rightarrow> (0, m)
                 | Some ms \<Rightarrow> if ms \<le> 0 then (1, m(keys ! (i - 1) := None)) else (1, m))))"

fun run_script :: "lua_script \<Rightarrow> string list \<Rightarrow> string list \<Rightarrow> (string \<rightharpoonup> string) \<Rightarrow> int \<times> (string \<rightharpoonup> string)" where
  "run_script (IfGetEq i j c) keys args m =
     (if m (keys ! (i - 1)) = Some (args ! (j - 1)) then run_command c keys args m else (0, m))"

section \<open>The contract\<close>

locale redis_kv =
  fixes c :: "'x redis_client" and kv :: "'x \<Rightarrow> string \<rightharpoonup> string"
  assumes set_ok: "rd_Set c k v ttl s = (None, s') \<Longrightarrow> kv s' = (kv s)(k \<mapsto> v)"
    and set_error: "rd_Set c k v ttl s = (Some e, s') \<Longrightarrow> kv s' = kv s \<or> kv s' = (kv s)(k \<mapsto> v)"
    and setnx_true: "rd_SetNX c k v ttl s = ((True, None), s') \<Longrightarrow>
      kv s k = None \<and> kv s' = (kv s)(k \<mapsto> v)"
    and setnx_false: "rd_SetNX c k v ttl s = ((False, e0), s') \<Longrightarrow>
      kv s' = kv s \<or> kv s k = None \<and> kv s' = (kv s)(k \<mapsto> v)"
    and setnx_error: "rd_SetNX c k v ttl s = ((ok, Some e), s') \<Longrightarrow> \<not> ok"
    and get_reads: "rd_Get c k s = (r, s') \<Longrightarrow> kv s' = kv s"
    and get_value: "rd_Get c k s = (Inr v, s') \<Longrightarrow> kv s k = Some v"
    and get_nil: "rd_Get c k s = (Inl redis_Nil, s') \<Longrightarrow> kv s k = None"
    and getdel_value: "rd_GetDel c k s = (Inr v, s') \<Longrightarrow> kv s k = Some v \<and> kv s' = (kv s)(k := None)"
    and getdel_nil: "rd_GetDel c k s = (Inl redis_Nil, s') \<Longrightarrow> kv s' = (kv s)(k := None)"
    and getdel_error: "rd_GetDel c k s = (Inl e, s') \<Longrightarrow> kv s' = kv s \<or> kv s' = (kv s)(k := None)"
    and exists_reads: "rd_Exists c k s = (x, s') \<Longrightarrow> kv s' = kv s"
    and exists_count: "rd_Exists c k s = (Inr n, s') \<Longrightarrow> n = (if kv s k = None then 0 else 1)"
    and eval_ok: "rd_Eval c scr keys args s = ((n, None), s') \<Longrightarrow>
      \<exists>m. (m = kv s \<or> m = snd (run_script scr keys args (kv s))) \<and> run_script scr keys args m = (n, kv s')"
    and eval_error: "rd_Eval c scr keys args s = ((n, Some e), s') \<Longrightarrow>
      n = 0 \<and> (kv s' = kv s \<or> kv s' = snd (run_script scr keys args (kv s)))"

section \<open>A Redis in memory\<close>

text \<open>A key holds its value and the time it expires at, if any; the clock counts nanoseconds.\<close>

record redis_mem =
  rm_now :: gtime
  rm_data :: "string \<rightharpoonup> string \<times> gtime option"

definition mem_kv :: "redis_mem \<Rightarrow> string \<rightharpoonup> string" where
  "mem_kv s k =
     (case rm_data s k of
        None \<Rightarrow> None
      | Some (v, None) \<Rightarrow> Some v
      | Some (v, Some t) \<Rightarrow> if rm_now s < t then Some v else None)"

definition mem_expiry :: "redis_mem \<Rightarrow> duration \<Rightarrow> gtime option" where
  "mem_expiry s ttl =
     (if ttl \<le> 0 then None else Some (rm_now s + Millisecond * max 1 (ttl div Millisecond)))"

definition mem_store :: "string \<Rightarrow> string \<Rightarrow> duration \<Rightarrow> redis_mem \<Rightarrow> redis_mem" where
  "mem_store k v ttl s = s\<lparr>rm_data := (rm_data s)(k \<mapsto> (v, mem_expiry s ttl))\<rparr>"

definition mem_delete :: "string \<Rightarrow> redis_mem \<Rightarrow> redis_mem" where
  "mem_delete k s = s\<lparr>rm_data := (rm_data s)(k := None)\<rparr>"

fun mem_command :: "redis_command \<Rightarrow> string list \<Rightarrow> string list \<Rightarrow> redis_mem \<Rightarrow> int \<times> redis_mem" where
  "mem_command (DEL i) keys args s =
     (if mem_kv s (keys ! (i - 1)) = None then (0, s) else (1, mem_delete (keys ! (i - 1)) s))"
| "mem_command (PEXPIRE i j) keys args s =
     (case mem_kv s (keys ! (i - 1)) of
        None \<Rightarrow> (0, s)
      | Some v \<Rightarrow>
          (case strconv_Atoi (args ! (j - 1)) of
             None \<Rightarrow> (0, s)
           | Some ms \<Rightarrow>
               if ms \<le> 0 then (1, mem_delete (keys ! (i - 1)) s)
               else (1, mem_store (keys ! (i - 1)) v (ms * Millisecond) s)))"

fun mem_eval :: "lua_script \<Rightarrow> string list \<Rightarrow> string list \<Rightarrow> redis_mem \<Rightarrow> int \<times> redis_mem" where
  "mem_eval (IfGetEq i j cmd) keys args s =
     (if mem_kv s (keys ! (i - 1)) = Some (args ! (j - 1)) then mem_command cmd keys args s else (0, s))"

definition mem_redis :: "redis_mem redis_client" where
  "mem_redis =
     \<lparr>rd_Ping = (\<lambda>s. (None, s)), rd_Close = (\<lambda>s. (None, s)),
      rd_Set = (\<lambda>k v ttl s. (None, mem_store k v ttl s)),
      rd_SetNX = (\<lambda>k v ttl s.
        if mem_kv s k = None then ((True, None), mem_store k v ttl s) else ((False, None), s)),
      rd_Get = (\<lambda>k s. (case mem_kv s k of None \<Rightarrow> Inl redis_Nil | Some v \<Rightarrow> Inr v, s)),
      rd_GetDel = (\<lambda>k s.
        (case mem_kv s k of None \<Rightarrow> Inl redis_Nil | Some v \<Rightarrow> Inr v, mem_delete k s)),
      rd_Exists = (\<lambda>k s. (Inr (if mem_kv s k = None then 0 else 1), s)),
      rd_Eval = (\<lambda>scr keys args s. case mem_eval scr keys args s of (n, s') \<Rightarrow> ((n, None), s'))\<rparr>"

text \<open>Time passes.\<close>

definition mem_wait :: "duration \<Rightarrow> redis_mem \<Rightarrow> redis_mem" where
  "mem_wait d s = s\<lparr>rm_now := rm_now s + d\<rparr>"

lemma mem_expiry_later: "mem_expiry s ttl = Some t \<Longrightarrow> rm_now s < t"
  by (auto simp: mem_expiry_def Millisecond_def split: if_splits)

lemma mem_kv_store [simp]: "mem_kv (mem_store k v ttl s) = (mem_kv s)(k \<mapsto> v)"
  using mem_expiry_later [of s ttl]
  by (auto simp: mem_kv_def [abs_def] mem_store_def fun_eq_iff split: option.splits)

lemma mem_kv_delete [simp]: "mem_kv (mem_delete k s) = (mem_kv s)(k := None)"
  by (auto simp: mem_kv_def [abs_def] mem_delete_def fun_eq_iff split: option.splits)

lemma mem_command_runs:
  "mem_command cmd keys args s = (n, s') \<Longrightarrow> run_command cmd keys args (mem_kv s) = (n, mem_kv s')"
  by (cases cmd)
    (auto simp: run_command_def fun_upd_idem split: option.splits if_splits)

lemma mem_eval_runs:
  "mem_eval scr keys args s = (n, s') \<Longrightarrow> run_script scr keys args (mem_kv s) = (n, mem_kv s')"
  by (cases scr) (auto dest: mem_command_runs split: if_splits)

interpretation mem: redis_kv mem_redis mem_kv
  by unfold_locales
    (auto simp: mem_redis_def dest: mem_eval_runs split: if_splits option.splits prod.splits)

text \<open>Waiting only makes keys expire, and not before the time to live is over.\<close>

lemma mem_wait_expires: "0 \<le> d \<Longrightarrow> mem_kv (mem_wait d s) k = Some v \<Longrightarrow> mem_kv s k = Some v"
  by (auto simp: mem_kv_def mem_wait_def split: option.splits if_splits)

lemma mem_wait_store:
  "0 \<le> d \<Longrightarrow> d < Millisecond * (ttl div Millisecond) \<Longrightarrow>
    mem_kv (mem_wait d (mem_store k v ttl s)) k = Some v"
  by (auto simp: mem_kv_def mem_wait_def mem_store_def mem_expiry_def Millisecond_def)

end
