(* ===== verification/Cache.thy ===== *)
theory Cache
  imports Redis_KV
begin

text \<open>
  The cache package: keys (\<open>src/cache/key.go\<close>), JSON values (\<open>src/cache/json.go\<close>) and the
  construction of the Redis client (\<open>src/cache/redis.go\<close>). The JSON codec of the value type is a
  parameter, the record \<open>json_codec\<close>, as are the client constructors of \<open>go-redis\<close>.
\<close>

section \<open>Keys\<close>

definition cache_Key :: "string list \<Rightarrow> string" where
  "cache_Key parts =
     strings_Join (map (\<lambda>p. strings_Trim p '':'') (filter (\<lambda>p. p \<noteq> []) parts)) '':''"

section \<open>JSON values\<close>

abbreviation ErrCacheMiss :: go_error where
  "ErrCacheMiss \<equiv> ErrNew ''cache'' ''cache miss''"

record 'v json_codec =
  js_Marshal :: "'v \<Rightarrow> go_error + string"
  js_Unmarshal :: "string \<Rightarrow> go_error + 'v"
  js_zero :: 'v

definition SetJSON ::
    "'v json_codec \<Rightarrow> 'x redis_client \<Rightarrow> string \<Rightarrow> 'v \<Rightarrow> duration \<Rightarrow> 'x \<Rightarrow> go_error option \<times> 'x" where
  "SetJSON js rdb key v ttl s =
     (case js_Marshal js v of
        Inl err \<Rightarrow> (Some err, s)
      | Inr b \<Rightarrow> rd_Set rdb key b ttl s)"

definition GetJSON ::
    "'v json_codec \<Rightarrow> 'x redis_client \<Rightarrow> string \<Rightarrow> 'x \<Rightarrow> ('v \<times> go_error option) \<times> 'x" where
  "GetJSON js rdb key s =
     (case rd_Get rdb key s of
        (Inl err, s') \<Rightarrow>
          if err = redis_Nil then ((js_zero js, Some ErrCacheMiss), s') else ((js_zero js, Some err), s')
      | (Inr b, s') \<Rightarrow>
          (case js_Unmarshal js b of
             Inl err \<Rightarrow> ((js_zero js, Some err), s')
           | Inr out \<Rightarrow> ((out, None), s')))"

definition RememberJSON ::
    "'v json_codec \<Rightarrow> 'x redis_client \<Rightarrow> string \<Rightarrow> duration \<Rightarrow> ('x \<Rightarrow> ('v \<times> go_error option) \<times> 'x) \<Rightarrow> 'x
      \<Rightarrow> ('v \<times> go_error option) \<times> 'x" where
  "RememberJSON js rdb key ttl load s =
     (case GetJSON js rdb key s of
        ((v, None), s1) \<Rightarrow> ((v, None), s1)
      | ((v, Some err), s1) \<Rightarrow>
          if \<not> errors_Is err ErrCacheMiss then ((v, Some err), s1)
          else (case load s1 of
                  ((v, Some err), s2) \<Rightarrow> ((v, Some err), s2)
                | ((v, None), s2) \<Rightarrow> (case SetJSON js rdb key v ttl s2 of (err, s3) \<Rightarrow> ((v, err), s3))))"

section \<open>The Redis client\<close>

record redis_config =
  rc_Mode :: string
  rc_Addr :: string
  rc_Addrs :: "string list"
  rc_Username :: string
  rc_Password :: string
  rc_DB :: int
  rc_DialTimeout :: string
  rc_ReadTimeout :: string
  rc_WriteTimeout :: string
  rc_PoolSize :: int

record redis_options =
  ro_Addrs :: "string list"
  ro_Username :: string
  ro_Password :: string
  ro_DB :: int
  ro_DialTimeout :: duration
  ro_ReadTimeout :: duration
  ro_WriteTimeout :: duration
  ro_PoolSize :: int

definition durOrDefault :: "string \<Rightarrow> duration \<Rightarrow> duration" where
  "durOrDefault t fallback =
     (if t = [] then fallback
      else case time_ParseDuration t of Inl _ \<Rightarrow> fallback | Inr d \<Rightarrow> d)"

text \<open>The options of \<open>redis.NewClient\<close>, and those of \<open>redis.NewClusterClient\<close>, which has no database.\<close>

definition single_options :: "redis_config \<Rightarrow> redis_options" where
  "single_options cfg =
     \<lparr>ro_Addrs = [rc_Addr cfg], ro_Username = rc_Username cfg, ro_Password = rc_Password cfg,
      ro_DB = rc_DB cfg, ro_DialTimeout = durOrDefault (rc_DialTimeout cfg) (5 * Second),
      ro_ReadTimeout = durOrDefault (rc_ReadTimeout cfg) (3 * Second),
      ro_WriteTimeout = durOrDefault (rc_WriteTimeout cfg) (3 * Second),
      ro_PoolSize = rc_PoolSize cfg\<rparr>"

definition cluster_options :: "redis_config \<Rightarrow> redis_options" where
  "cluster_options cfg = (single_options cfg)\<lparr>ro_Addrs := rc_Addrs cfg, ro_DB := 0\<rparr>"

record 'x redis_handle =
  rh_Client :: "'x redis_client option"
  rh_mode :: string

record 'x redis_dialer =
  dial_single :: "redis_options \<Rightarrow> 'x redis_client"
  dial_cluster :: "redis_options \<Rightarrow> 'x redis_client"

definition redis_mode :: "redis_config \<Rightarrow> string" where
  "redis_mode cfg = (if rc_Mode cfg = [] then ''single'' else rc_Mode cfg)"

definition redis_client_for :: "'x redis_dialer \<Rightarrow> redis_config \<Rightarrow> go_error + 'x redis_client" where
  "redis_client_for d cfg =
     (if redis_mode cfg = ''single'' then
        (if rc_Addr cfg = [] then Inl (Errorf ''redis.addr is required'')
         else Inr (dial_single d (single_options cfg)))
      else if redis_mode cfg = ''cluster'' then
        (if rc_Addrs cfg = [] then Inl (Errorf ''redis.addrs is required for cluster'')
         else Inr (dial_cluster d (cluster_options cfg)))
      else Inl (Errorf ''redis.mode only supports single or cluster''))"

definition NewRedis ::
    "'x redis_dialer \<Rightarrow> redis_config \<Rightarrow> 'x world \<Rightarrow> (go_error + 'x redis_handle) \<times> 'x world" where
  "NewRedis d cfg w =
     (case redis_client_for d cfg of
        Inl err \<Rightarrow> (Inl err, w)
      | Inr client \<Rightarrow>
          (case rd_Ping client (service w) of
             (Some err, s1) \<Rightarrow>
               (let s2 = snd (rd_Close client s1)
                in (Inl (wrapf ''ping redis: '' err []),
                    observe_dependency ''redis'' ''ping'' (Some err) (w\<lparr>service := s2\<rparr>)))
           | (None, s1) \<Rightarrow>
               (Inr \<lparr>rh_Client = Some client, rh_mode = redis_mode cfg\<rparr>,
                observe_dependency ''redis'' ''init'' None (w\<lparr>service := s1\<rparr>))))"

definition redis_Close :: "'x redis_handle option \<Rightarrow> 'x \<Rightarrow> go_error option \<times> 'x" where
  "redis_Close r s =
     (case r of
        None \<Rightarrow> (None, s)
      | Some r \<Rightarrow> (case rh_Client r of None \<Rightarrow> (None, s) | Some client \<Rightarrow> rd_Close client s))"

definition redis_Ping ::
    "'x redis_handle option \<Rightarrow> 'x world \<Rightarrow> go_error option \<times> 'x world" where
  "redis_Ping r w =
     (case r of
        None \<Rightarrow> (Some (Errorf ''redis not initialized''), w)
      | Some r \<Rightarrow>
          (case rh_Client r of
             None \<Rightarrow> (Some (Errorf ''redis not initialized''), w)
           | Some client \<Rightarrow>
               (case rd_Ping client (service w) of
                  (err, s) \<Rightarrow> (err, observe_dependency ''redis'' ''ping'' err (w\<lparr>service := s\<rparr>)))))"

section \<open>Facts about keys\<close>

lemma cache_Key_parts:
  assumes "\<forall>p\<in>set parts. p \<noteq> [] \<and> CHR '':'' \<notin> set p"
  shows "cache_Key parts = strings_Join parts '':''"
proof -
  from assms have "filter (\<lambda>p. p \<noteq> []) parts = parts" by (auto simp: filter_id_conv)
  moreover from assms have "map (\<lambda>p. strings_Trim p '':'') parts = parts"
    by (intro map_idI Trim_id) auto
  ultimately show ?thesis by (simp add: cache_Key_def)
qed

section \<open>Facts about JSON values\<close>

context redis_kv
begin

lemma GetJSON_reads: "GetJSON js c key s = (r, s') \<Longrightarrow> kv s' = kv s"
  by (auto simp: GetJSON_def dest: get_reads split: prod.splits sum.splits if_splits)

lemma GetJSON_value:
  "GetJSON js c key s = ((v, None), s') \<Longrightarrow> \<exists>b. kv s key = Some b \<and> js_Unmarshal js b = Inr v"
  by (auto simp: GetJSON_def dest: get_value split: prod.splits sum.splits if_splits)

text \<open>What is stored is read back.\<close>

lemma SetJSON_GetJSON:
  assumes "SetJSON js c key v ttl s = (None, s1)" and "GetJSON js c key s1 = ((v', None), s2)"
    and codec: "\<And>b. js_Marshal js v = Inr b \<Longrightarrow> js_Unmarshal js b = Inr v"
  shows "v' = v"
  using assms GetJSON_value [OF assms(2)]
  by (auto simp: SetJSON_def dest!: set_ok split: sum.splits)

text \<open>
  \<open>RememberJSON\<close> without an error: the value is the one decoded from the cache and nothing changes,
  or the key was missing, and the value is the loaded one and is now stored.
\<close>

lemma RememberJSON_ok:
  assumes "RememberJSON js c key ttl load s = ((v, None), s')"
  shows "(\<exists>b. kv s key = Some b \<and> js_Unmarshal js b = Inr v \<and> kv s' = kv s) \<or>
    (\<exists>s1 s2 b. kv s1 = kv s \<and> load s1 = ((v, None), s2) \<and> js_Marshal js v = Inr b \<and>
       kv s' = (kv s2)(key \<mapsto> b))"
proof -
  obtain v1 e1 s1 where g: "GetJSON js c key s = ((v1, e1), s1)" by (metis surj_pair)
  show ?thesis
  proof (cases e1)
    case None
    with g assms have "v1 = v" "s1 = s'" by (auto simp: RememberJSON_def)
    with g None GetJSON_value [of js key s v1 s1] GetJSON_reads [OF g] show ?thesis by auto
  next
    case (Some er)
    with g assms obtain s2 where "load s1 = ((v, None), s2)" "SetJSON js c key v ttl s2 = (None, s')"
      by (auto simp: RememberJSON_def split: if_splits prod.splits option.splits)
    with GetJSON_reads [OF g] show ?thesis
      by (auto simp: SetJSON_def dest!: set_ok split: sum.splits)
  qed
qed

end

section \<open>Facts about the client\<close>

lemma NewRedis_ok:
  assumes "NewRedis d cfg w = (Inr r, w')"
  shows "\<exists>client. rh_Client r = Some client \<and> redis_client_for d cfg = Inr client \<and>
    rd_Ping client (service w) = (None, service w') \<and> rh_mode r \<in> {''single'', ''cluster''}"
  using assms
  by (auto simp: NewRedis_def redis_client_for_def Let_def
      split: sum.splits prod.splits option.splits if_splits)

section \<open>Properties of the cache\<close>

text \<open>
  A JSON value comes back. What GetJSON reads without an error right after SetJSON stored a value
  under the key is that value, when the codec decodes what it encodes; and GetJSON of any other key
  finds what was there before.
\<close>

theorem json_cache_roundtrip:
  assumes "redis_kv c kv" and "SetJSON js c key v ttl s = (None, s1)"
    and "GetJSON js c key' s1 = ((v', None), s2)"
    and "\<And>b. js_Marshal js v = Inr b \<Longrightarrow> js_Unmarshal js b = Inr v"
  shows "if key' = key then v' = v else \<exists>b. kv s key' = Some b \<and> js_Unmarshal js b = Inr v'"
proof (cases "key' = key")
  case True
  then show ?thesis using redis_kv.SetJSON_GetJSON [OF assms(1,2)] assms(3,4) by simp
next
  case False
  obtain b where "js_Marshal js v = Inr b" "rd_Set c key b ttl s = (None, s1)"
    using assms(2) by (auto simp: SetJSON_def split: sum.splits)
  then have "kv s1 = (kv s)(key \<mapsto> b)" using redis_kv.set_ok [OF assms(1)] by blast
  with False redis_kv.GetJSON_value [OF assms(1,3)] show ?thesis by auto
qed

definition string_codec :: "string json_codec" where
  "string_codec = \<lparr>js_Marshal = (\<lambda>v. Inr (CHR ''s'' # v)),
     js_Unmarshal = (\<lambda>b. case b of c # v \<Rightarrow> if c = CHR ''s'' then Inr v else Inl (ErrExt ''invalid character'')
        | [] \<Rightarrow> Inl (ErrExt ''unexpected end of JSON input'')), js_zero = []\<rparr>"

definition cache_start :: redis_mem where
  "cache_start = \<lparr>rm_now = 0, rm_data = Map.empty\<rparr>"

lemma cache_run:
  "SetJSON string_codec mem_redis ''k'' ''v'' Second cache_start =
     (None, mem_store ''k'' ''sv'' Second cache_start)"
  "GetJSON string_codec mem_redis ''k'' (mem_store ''k'' ''sv'' Second cache_start) =
     ((''v'', None), mem_store ''k'' ''sv'' Second cache_start)"
  by (simp_all add: SetJSON_def GetJSON_def string_codec_def mem_redis_def)

theorem json_cache_roundtrip_witness:
  "GetJSON string_codec mem_redis ''k'' (snd (SetJSON string_codec mem_redis ''k'' ''v'' Second cache_start)) =
     ((''v'', None), mem_store ''k'' ''sv'' Second cache_start)"
  using json_cache_roundtrip [OF mem.redis_kv_axioms cache_run] cache_run
  by (simp add: string_codec_def)



end
