(* ===== verification/Go_URL.thy ===== *)
theory Go_URL
  imports Go_Numbers "HOL-Library.List_Lexorder" "HOL-Library.Char_ord"
begin

text \<open>
  The part of \<open>net/url\<close> that \<open>src/casdoor/oauth.go\<close> uses: query escaping and \<open>url.Values\<close>. Values are a
  list of keys with their values; the keys are distinct, as in the Go map, and \<open>Encode\<close> sorts them.
\<close>

section \<open>Query escaping\<close>

definition unreserved :: "char \<Rightarrow> bool" where
  "unreserved c \<longleftrightarrow>
     (let n = (of_char c :: nat)
      in 97 \<le> n \<and> n \<le> 122 \<or> 65 \<le> n \<and> n \<le> 90 \<or> 48 \<le> n \<and> n \<le> 57 \<or> c \<in> set ''-_.~'')"

definition upper_hex :: "nat \<Rightarrow> char" where
  "upper_hex d = (if d < 10 then char_of (48 + d) else char_of (55 + d))"

definition escape_char :: "char \<Rightarrow> string" where
  "escape_char c =
     (if unreserved c then [c]
      else if c = CHR '' '' then ''+''
      else [CHR ''%'', upper_hex (of_char c div 16), upper_hex (of_char c mod 16)])"

definition QueryEscape :: "string \<Rightarrow> string" where
  "QueryEscape s = concat (map escape_char s)"

definition unhex :: "char \<Rightarrow> nat option" where
  "unhex c =
     (let n = (of_char c :: nat)
      in if 48 \<le> n \<and> n \<le> 57 then Some (n - 48)
         else if 97 \<le> n \<and> n \<le> 102 then Some (n - 87)
         else if 65 \<le> n \<and> n \<le> 70 then Some (n - 55) else None)"

fun QueryUnescape :: "string \<Rightarrow> string option" where
  "QueryUnescape [] = Some []"
| "QueryUnescape (c # cs) =
     (if c = CHR ''%'' then
        (case cs of
           h # l # rest \<Rightarrow>
             (case (unhex h, unhex l, QueryUnescape rest) of
                (Some a, Some b, Some t) \<Rightarrow> Some (char_of (16 * a + b) # t)
              | _ \<Rightarrow> None)
         | _ \<Rightarrow> None)
      else map_option (Cons (if c = CHR ''+'' then CHR '' '' else c)) (QueryUnescape cs))"

section \<open>Values\<close>

type_synonym query_values = "(string \<times> string list) list"

fun values_Set :: "string \<Rightarrow> string \<Rightarrow> query_values \<Rightarrow> query_values" where
  "values_Set k v [] = [(k, [v])]"
| "values_Set k v ((k', vs) # q) = (if k = k' then (k', [v]) # q else (k', vs) # values_Set k v q)"

fun values_Add :: "string \<Rightarrow> string \<Rightarrow> query_values \<Rightarrow> query_values" where
  "values_Add k v [] = [(k, [v])]"
| "values_Add k v ((k', vs) # q) = (if k = k' then (k', vs @ [v]) # q else (k', vs) # values_Add k v q)"

definition values_get :: "query_values \<Rightarrow> string \<Rightarrow> string list" where
  "values_get q k = (case map_of q k of None \<Rightarrow> [] | Some vs \<Rightarrow> vs)"

definition values_wf :: "query_values \<Rightarrow> bool" where
  "values_wf q \<longleftrightarrow> distinct (map fst q)"

definition encode_pair :: "string \<times> string \<Rightarrow> string" where
  "encode_pair p = QueryEscape (fst p) @ ''='' @ QueryEscape (snd p)"

definition values_pairs :: "query_values \<Rightarrow> (string \<times> string) list" where
  "values_pairs q = concat (map (\<lambda>(k, vs). map (Pair k) vs) q)"

definition values_Encode :: "query_values \<Rightarrow> string" where
  "values_Encode q = strings_Join (map encode_pair (values_pairs (sort_key fst q))) ''&''"

text \<open>\<open>ParseQuery\<close>: a piece that is malformed is skipped (\<open>URL.Query\<close> drops the error).\<close>

definition parse_piece :: "string \<Rightarrow> (string \<times> string) option" where
  "parse_piece s =
     (if s = [] \<or> strings_Contains s '';'' then None
      else (let kv = (case strings_Cut s ''='' of Some kv \<Rightarrow> kv | None \<Rightarrow> (s, []))
            in case (QueryUnescape (fst kv), QueryUnescape (snd kv)) of
                 (Some k, Some v) \<Rightarrow> Some (k, v) | _ \<Rightarrow> None))"

fun add_all :: "(string \<times> string) list \<Rightarrow> query_values \<Rightarrow> query_values" where
  "add_all [] q = q"
| "add_all ((k, v) # ps) q = add_all ps (values_Add k v q)"

definition ParseQuery :: "string \<Rightarrow> query_values" where
  "ParseQuery s = add_all (List.map_filter parse_piece (strings_Split s ''&'')) []"

section \<open>URLs\<close>

text \<open>
  A parsed URL: the text up to the path (scheme, user information and host), the decoded path, the
  raw path that \<open>url.Parse\<close> keeps when the default encoding of the path differs from it, the raw query
  and the fragment. \<open>url.Parse\<close> itself is a parameter of its callers.
\<close>

record url =
  url_prefix :: string
  url_Path :: string
  url_RawPath :: string
  url_RawQuery :: string
  url_fragment :: string

definition percent :: "char \<Rightarrow> string" where
  "percent c = [CHR ''%'', upper_hex (of_char c div 16), upper_hex (of_char c mod 16)]"

definition PathEscape :: "string \<Rightarrow> string" where
  "PathEscape s = concat (map (\<lambda>c. if unreserved c \<or> c \<in> set ''$&+:=@'' then [c] else percent c) s)"

definition encode_path :: "string \<Rightarrow> string" where
  "encode_path s = concat (map (\<lambda>c. if unreserved c \<or> c \<in> set ''$&+,/:;=@'' then [c] else percent c) s)"

fun PathUnescape :: "string \<Rightarrow> string option" where
  "PathUnescape [] = Some []"
| "PathUnescape (c # cs) =
     (if c = CHR ''%'' then
        (case cs of
           h # l # rest \<Rightarrow>
             (case (unhex h, unhex l, PathUnescape rest) of
                (Some a, Some b, Some t) \<Rightarrow> Some (char_of (16 * a + b) # t)
              | _ \<Rightarrow> None)
         | _ \<Rightarrow> None)
      else map_option (Cons c) (PathUnescape cs))"

definition valid_encoded :: "string \<Rightarrow> bool" where
  "valid_encoded s \<longleftrightarrow>
     list_all (\<lambda>c. unreserved c \<or> c \<in> set ''!$&()*+,;=:@[]%/'' \<or> c = CHR 0x27) s"

definition url_EscapedPath :: "url \<Rightarrow> string" where
  "url_EscapedPath u =
     (if url_RawPath u \<noteq> [] \<and> valid_encoded (url_RawPath u) \<and>
         PathUnescape (url_RawPath u) = Some (url_Path u) then url_RawPath u
      else if url_Path u = ''*'' then ''*'' else encode_path (url_Path u))"

definition url_String :: "url \<Rightarrow> string" where
  "url_String u =
     url_prefix u @ url_EscapedPath u @ (if url_RawQuery u = [] then [] else ''?'' @ url_RawQuery u) @
     (if url_fragment u = [] then [] else ''#'' @ url_fragment u)"

section \<open>Escaping round trip\<close>

lemma unhex_upper_hex [simp]: "d < 16 \<Longrightarrow> unhex (upper_hex d) = Some d"
  by (simp add: unhex_def upper_hex_def)

lemma of_char_div [simp]: "(of_char c :: nat) div 16 < 16"
  using nat_of_char_less_256 [of c] by (simp add: less_mult_imp_div_less)

lemma escape_char_specials:
  "set (escape_char c) \<inter> {CHR ''&'', CHR ''='', CHR '';''} = {}"
proof -
  have hex: "upper_hex d \<notin> {CHR ''&'', CHR ''='', CHR '';''}" if "d < 16" for d
    using unhex_upper_hex [OF that] by (auto simp: unhex_def)
  have "\<not> unreserved CHR ''&''" "\<not> unreserved CHR ''=''" "\<not> unreserved CHR '';''"
    by (simp_all add: unreserved_def)
  then show ?thesis
    using hex [of "of_char c div 16"] hex [of "of_char c mod 16"]
    by (auto simp: escape_char_def)
qed

lemma QueryEscape_specials:
  "CHR ''&'' \<notin> set (QueryEscape s)" "CHR ''='' \<notin> set (QueryEscape s)"
  "CHR '';'' \<notin> set (QueryEscape s)"
  using escape_char_specials by (auto simp: QueryEscape_def)

lemma QueryUnescape_Escape [simp]: "QueryUnescape (QueryEscape s) = Some s"
proof (induction s)
  case Nil
  then show ?case by (simp add: QueryEscape_def)
next
  case (Cons c s)
  have split: "QueryEscape (c # s) = escape_char c @ QueryEscape s"
    by (simp add: QueryEscape_def)
  have plain: "unreserved c \<Longrightarrow> c \<noteq> CHR ''%'' \<and> c \<noteq> CHR ''+''"
    by (auto simp: unreserved_def)
  have "16 * (of_char c div 16) + of_char c mod 16 = (of_char c :: nat)" by simp
  then have "char_of (16 * (of_char c div 16) + of_char c mod 16 :: nat) = c" by simp
  then show ?case
    using Cons plain unfolding split escape_char_def by auto
qed

lemma parse_encode_pair [simp]: "parse_piece (encode_pair p) = Some p"
proof -
  have cut: "strings_Cut (encode_pair p) ''='' = Some (QueryEscape (fst p), QueryEscape (snd p))"
    using strings_Cut_char [of "CHR ''=''" "QueryEscape (fst p)" "QueryEscape (snd p)"]
    by (simp add: encode_pair_def QueryEscape_specials)
  have "\<not> strings_Contains (encode_pair p) '';''"
    using QueryEscape_specials
    by (auto simp: encode_pair_def Contains_char)
  with cut show ?thesis by (simp add: parse_piece_def encode_pair_def)
qed

lemma parse_piece_Nil [simp]: "parse_piece [] = None"
  by (simp add: parse_piece_def)

lemma map_filter_encode: "List.map_filter parse_piece (map encode_pair ps) = ps"
  by (induction ps) (simp_all add: map_filter_simps)

section \<open>Lookup laws and the encoding round trip\<close>

lemma values_get_Set [simp]:
  "values_get (values_Set k v q) k' = (if k' = k then [v] else values_get q k')"
  by (induction k v q rule: values_Set.induct) (auto simp: values_get_def)

lemma values_get_Add [simp]:
  "values_get (values_Add k v q) k' = (if k' = k then values_get q k @ [v] else values_get q k')"
  by (induction k v q rule: values_Add.induct) (auto simp: values_get_def)

lemma values_get_Nil [simp]: "values_get [] k = []"
  by (simp add: values_get_def)

lemma set_fst_Set [simp]: "fst ` set (values_Set k v q) = insert k (fst ` set q)"
  by (induction k v q rule: values_Set.induct) auto

lemma set_fst_Add [simp]: "fst ` set (values_Add k v q) = insert k (fst ` set q)"
  by (induction k v q rule: values_Add.induct) auto

lemma values_wf_Set [simp, intro]: "values_wf q \<Longrightarrow> values_wf (values_Set k v q)"
  unfolding values_wf_def by (induction k v q rule: values_Set.induct) auto

lemma values_wf_Add [simp, intro]: "values_wf q \<Longrightarrow> values_wf (values_Add k v q)"
  unfolding values_wf_def by (induction k v q rule: values_Add.induct) auto

lemma values_wf_Nil [simp]: "values_wf []"
  by (simp add: values_wf_def)

lemma values_wf_add_all [simp, intro]: "values_wf q \<Longrightarrow> values_wf (add_all ps q)"
  by (induction ps q rule: add_all.induct) auto

lemma values_get_add_all:
  "values_get (add_all ps q) k = values_get q k @ map snd (filter (\<lambda>p. fst p = k) ps)"
  by (induction ps q rule: add_all.induct) auto

lemma filter_pairs:
  "distinct (map fst q) \<Longrightarrow> map snd (filter (\<lambda>p. fst p = k) (values_pairs q)) = values_get q k"
proof (induction q)
  case Nil
  then show ?case by (simp add: values_pairs_def)
next
  case (Cons e q)
  obtain k' vs where e: "e = (k', vs)" by (cases e)
  have none: "k \<notin> fst ` set q \<Longrightarrow> values_get q k = []"
    by (auto simp: values_get_def split: option.splits dest: map_of_SomeD intro: rev_image_eqI)
  have "values_pairs (e # q) = map (Pair k') vs @ values_pairs q"
    by (simp add: values_pairs_def e)
  then show ?case
    using Cons none by (auto simp: e values_get_def comp_def filter_empty_conv)
qed

lemma map_of_sort_key:
  "distinct (map fst q) \<Longrightarrow> map_of (sort_key fst q) = map_of q"
  by (rule map_of_inject_set [THEN iffD2]) (simp_all add: distinct_map inj_on_def)

text \<open>Decoding an encoded query gives every key its values back.\<close>

lemma ParseQuery_Encode:
  assumes "values_wf q"
  shows "values_get (ParseQuery (values_Encode q)) k = values_get q k"
proof -
  define ps where "ps = values_pairs (sort_key fst q)"
  have d: "distinct (map fst (sort_key fst q))"
    using assms by (simp add: values_wf_def distinct_map)
  have "strings_Split (strings_Join (map encode_pair ps) ''&'') ''&'' =
      (if ps = [] then [[]] else map encode_pair ps)"
  proof (cases "ps = []")
    case True
    then show ?thesis by (simp add: strings_Split.simps)
  next
    case False
    have "CHR ''&'' \<notin> set (encode_pair p)" for p
      by (simp add: encode_pair_def QueryEscape_specials)
    with False show ?thesis by (simp add: Split_Join)
  qed
  then have "List.map_filter parse_piece (strings_Split (values_Encode q) ''&'') = ps"
    by (auto simp: values_Encode_def ps_def [symmetric] map_filter_encode map_filter_simps)
  then have "values_get (ParseQuery (values_Encode q)) k = map snd (filter (\<lambda>p. fst p = k) ps)"
    by (simp add: ParseQuery_def values_get_add_all)
  also have "\<dots> = values_get (sort_key fst q) k"
    unfolding ps_def by (rule filter_pairs [OF d])
  also have "\<dots> = values_get q k"
    using assms by (simp add: values_get_def values_wf_def map_of_sort_key)
  finally show ?thesis .
qed

end
