(* ===== verification/Postgres_DSN.thy ===== *)
theory Postgres_DSN
  imports Go_URL
begin

text \<open>
  Connection strings of \<open>src/db/postgres.go\<close>: normalisation, the DSN of the maintenance database, the
  keyword form and SQL identifiers. \<open>url.Parse\<close> is the parameter \<open>parse\<close>. The order in which Go ranges
  over a map is a parameter too: \<open>order_of\<close> gives the keys that are not in the fixed list.
\<close>

section \<open>Operations\<close>

type_synonym keyword_map = "string \<rightharpoonup> string"

abbreviation single_quote :: char where "single_quote \<equiv> CHR 0x27"
abbreviation double_quote :: char where "double_quote \<equiv> CHR 0x22"
abbreviation backslash :: char where "backslash \<equiv> CHR 0x5C"

definition containsKeyword :: "string \<Rightarrow> string \<Rightarrow> bool" where
  "containsKeyword dsn key = strings_Contains dsn (key @ ''='')"

definition escapeSingleQuoted :: "string \<Rightarrow> string" where
  "escapeSingleQuoted s = strings_ReplaceAll s [single_quote] [single_quote, single_quote]"

definition quoteIdent :: "string \<Rightarrow> string" where
  "quoteIdent s =
     [double_quote] @ strings_ReplaceAll s [double_quote] [double_quote, double_quote] @ [double_quote]"

definition quoteKeywordValue :: "string \<Rightarrow> string" where
  "quoteKeywordValue v =
     (if v = [] \<or> (\<exists>c\<in>set v. c \<in> {CHR '' '', CHR 0x09, single_quote, backslash})
      then [single_quote] @
           strings_ReplaceAll (strings_ReplaceAll v [backslash] [backslash, backslash])
             [single_quote] [backslash, single_quote] @ [single_quote]
      else v)"

definition values_Get :: "query_values \<Rightarrow> string \<Rightarrow> string" where
  "values_Get q k = (case values_get q k of [] \<Rightarrow> [] | v # _ \<Rightarrow> v)"

definition is_postgres_url :: "string \<Rightarrow> bool" where
  "is_postgres_url dsn \<longleftrightarrow>
     strings_HasPrefix dsn ''postgres://'' \<or> strings_HasPrefix dsn ''postgresql://''"

definition ssl_mode_or_disable :: "string \<Rightarrow> string" where
  "ssl_mode_or_disable sslMode = (if sslMode = [] then ''disable'' else sslMode)"

definition dsn_query :: "string \<Rightarrow> string \<Rightarrow> query_values \<Rightarrow> query_values" where
  "dsn_query sslMode searchPath q0 =
     (let q1 = (if values_Get q0 ''sslmode'' = []
                then values_Set ''sslmode'' (ssl_mode_or_disable sslMode) q0 else q0);
          sp = strings_TrimSpace searchPath
      in if sp \<noteq> [] \<and> \<not> strings_Contains (values_Get q1 ''options'') ''search_path''
         then values_Set ''options''
                (strings_TrimSpace (values_Get q1 ''options'' @ '' -c search_path='' @ sp)) q1
         else q1)"

definition keyword_dsn :: "string \<Rightarrow> string \<Rightarrow> string \<Rightarrow> string" where
  "keyword_dsn dsn sslMode searchPath =
     (let dsn1 = (if \<not> containsKeyword dsn ''sslmode''
                  then strings_TrimSpace dsn @ '' sslmode='' @ ssl_mode_or_disable sslMode else dsn);
          sp = strings_TrimSpace searchPath
      in if sp \<noteq> [] \<and> \<not> containsKeyword dsn1 ''options'' \<and> \<not> containsKeyword dsn1 ''search_path''
         then strings_TrimSpace dsn1 @ '' options='' @ [single_quote] @ ''-c search_path='' @
              escapeSingleQuoted sp @ [single_quote]
         else dsn1)"

definition normalizePostgresDSN ::
    "(string \<Rightarrow> go_error + url) \<Rightarrow> string \<Rightarrow> string \<Rightarrow> string \<Rightarrow> string" where
  "normalizePostgresDSN parse dsn sslMode searchPath =
     (if is_postgres_url dsn then
        (case parse dsn of
           Inr u \<Rightarrow>
             url_String (u\<lparr>url_RawQuery :=
               values_Encode (dsn_query sslMode searchPath (ParseQuery (url_RawQuery u)))\<rparr>)
         | Inl _ \<Rightarrow> keyword_dsn dsn sslMode searchPath)
      else keyword_dsn dsn sslMode searchPath)"

fun split_fields :: "string list \<Rightarrow> keyword_map \<Rightarrow> keyword_map" where
  "split_fields [] parts = parts"
| "split_fields (f # fs) parts =
     (case strings_Cut f ''='' of
        None \<Rightarrow> split_fields fs parts
      | Some (k, v) \<Rightarrow>
          if k = [] then split_fields fs parts
          else split_fields fs (parts(k \<mapsto> strings_Trim v [single_quote])))"

definition splitKeywordDSN :: "string \<Rightarrow> keyword_map" where
  "splitKeywordDSN dsn = split_fields (strings_Fields dsn) Map.empty"

definition dsn_order :: "string list" where
  "dsn_order = [''host'', ''port'', ''user'', ''password'', ''dbname'', ''sslmode'',
     ''connect_timeout'', ''timezone'', ''TimeZone'']"

definition dsn_pair :: "keyword_map \<Rightarrow> string \<Rightarrow> string" where
  "dsn_pair parts k = k @ ''='' @ quoteKeywordValue (the (parts k))"

definition joinKeywordDSN :: "(keyword_map \<Rightarrow> string list) \<Rightarrow> keyword_map \<Rightarrow> string" where
  "joinKeywordDSN order_of parts =
     strings_Join
       (map (dsn_pair parts) (filter (\<lambda>k. parts k \<noteq> None) dsn_order) @
        map (dsn_pair parts) (filter (\<lambda>k. k \<notin> set dsn_order) (order_of parts))) '' ''"

definition postgresMaintenanceDSN ::
    "(string \<Rightarrow> go_error + url) \<Rightarrow> (keyword_map \<Rightarrow> string list) \<Rightarrow> string \<Rightarrow> string
      \<Rightarrow> go_error + (string \<times> string)" where
  "postgresMaintenanceDSN parse order_of cfgMaintenanceDB cfgDSN =
     (let maintenanceDB0 = strings_TrimSpace cfgMaintenanceDB;
          maintenanceDB = (if maintenanceDB0 = [] then ''postgres'' else maintenanceDB0);
          dsn = strings_TrimSpace cfgDSN
      in if is_postgres_url dsn then
           (case parse dsn of
              Inl err \<Rightarrow> Inl (wrapf ''parse postgres dsn: '' err [])
            | Inr u \<Rightarrow>
                (let target = strings_TrimPrefix (url_EscapedPath u) ''/''
                 in if target = []
                    then Inl (ErrNew ''db'' ''postgres dsn path must include database name for auto_create_database'')
                    else (case PathUnescape target of
                            None \<Rightarrow> Inl (wrapf ''decode postgres database name: ''
                                           (ErrExt ''invalid URL escape'') [])
                          | Some dbName \<Rightarrow>
                              Inr (dbName, url_String (u\<lparr>url_Path := ''/'' @ PathEscape maintenanceDB\<rparr>)))))
         else
           (let parts = splitKeywordDSN dsn
            in case parts ''dbname'' of
                 None \<Rightarrow> Inl (ErrNew ''db'' ''postgres keyword dsn must include dbname for auto_create_database'')
               | Some target \<Rightarrow>
                   if target = []
                   then Inl (ErrNew ''db'' ''postgres keyword dsn must include dbname for auto_create_database'')
                   else Inr (target, joinKeywordDSN order_of (parts(''dbname'' \<mapsto> maintenanceDB)))))"

section \<open>SQL identifiers\<close>

text \<open>
  How PostgreSQL reads a quoted identifier: after the opening quote, two quotes are one quote of the
  name and a single quote ends it.
\<close>

fun read_ident_body :: "string \<Rightarrow> (string \<times> string) option" where
  "read_ident_body [] = None"
| "read_ident_body (c # cs) =
     (if c = double_quote then
        (case cs of
           d # rest \<Rightarrow>
             if d = double_quote
             then map_option (\<lambda>(n, r). (double_quote # n, r)) (read_ident_body rest)
             else Some ([], cs)
         | [] \<Rightarrow> Some ([], []))
      else map_option (\<lambda>(n, r). (c # n, r)) (read_ident_body cs))"

fun read_ident :: "string \<Rightarrow> (string \<times> string) option" where
  "read_ident (c # cs) = (if c = double_quote then read_ident_body cs else None)"
| "read_ident [] = None"

lemma read_ident_body_quoted:
  "rest = [] \<or> hd rest \<noteq> double_quote \<Longrightarrow>
    read_ident_body (strings_ReplaceAll s [double_quote] [double_quote, double_quote] @ double_quote # rest)
      = Some (s, rest)"
  by (induction s) (auto simp: ReplaceAll_char split: list.splits)

lemma read_quoteIdent:
  "rest = [] \<or> hd rest \<noteq> double_quote \<Longrightarrow> read_ident (quoteIdent s @ rest) = Some (s, rest)"
  by (simp add: quoteIdent_def read_ident_body_quoted)

section \<open>The keyword form\<close>

definition keyword_name :: "string \<Rightarrow> bool" where
  "keyword_name k \<longleftrightarrow> k \<noteq> [] \<and> CHR ''='' \<notin> set k \<and> (\<forall>c\<in>set k. \<not> is_space c)"

definition plain_value :: "string \<Rightarrow> bool" where
  "plain_value v \<longleftrightarrow> single_quote \<notin> set v \<and> backslash \<notin> set v \<and> (\<forall>c\<in>set v. \<not> is_space c)"

lemma quote_plain:
  "plain_value v \<Longrightarrow> quoteKeywordValue v = (if v = [] then [single_quote, single_quote] else v)"
proof -
  assume "plain_value v"
  then have "\<not> (\<exists>c\<in>set v. c \<in> {CHR '' '', CHR 0x09, single_quote, backslash})"
    by (auto simp: plain_value_def is_space_def)
  then show ?thesis by (simp add: quoteKeywordValue_def ReplaceAll_char)
qed

lemma trim_quote_plain:
  assumes "plain_value v"
  shows "strings_Trim (quoteKeywordValue v) [single_quote] = v"
proof (cases "v = []")
  case True
  with assms show ?thesis
    by (simp add: quote_plain strings_Trim_def trim_func_def trim_left_def trim_right_def)
next
  case False
  with assms show ?thesis by (auto simp: quote_plain plain_value_def intro: Trim_id)
qed

lemma dsn_pair_word:
  assumes "keyword_name k" and "parts k = Some v" and "plain_value v"
  shows "dsn_pair parts k \<noteq> [] \<and> (\<forall>c\<in>set (dsn_pair parts k). \<not> is_space c)"
  using assms by (auto simp: dsn_pair_def quote_plain plain_value_def keyword_name_def is_space_def)

lemma dsn_pair_cut:
  assumes "keyword_name k" and "parts k = Some v" and "plain_value v"
  shows "strings_Cut (dsn_pair parts k) ''='' = Some (k, quoteKeywordValue v)"
  using assms strings_Cut_char [of "CHR ''=''" k "quoteKeywordValue v"]
  by (simp add: dsn_pair_def keyword_name_def)

lemma split_fields_pairs:
  "(\<And>k. k \<in> set ks \<Longrightarrow> keyword_name k \<and> (\<exists>v. parts k = Some v \<and> plain_value v)) \<Longrightarrow>
    split_fields (map (dsn_pair parts) ks) m = (\<lambda>k. if k \<in> set ks then parts k else m k)"
proof (induction ks arbitrary: m)
  case (Cons k ks)
  from Cons.prems [of k] obtain v where k: "keyword_name k" "parts k = Some v" "plain_value v" by auto
  then have "k \<noteq> []" by (simp add: keyword_name_def)
  then have "split_fields (map (dsn_pair parts) (k # ks)) m =
      split_fields (map (dsn_pair parts) ks) (m(k \<mapsto> v))"
    using k by (simp add: dsn_pair_cut trim_quote_plain)
  with Cons k show ?case by (auto simp: fun_eq_iff)
qed simp

lemma split_joinKeywordDSN:
  assumes "\<And>k v. parts k = Some v \<Longrightarrow> keyword_name k \<and> plain_value v"
    and "set (order_of parts) = dom parts"
  shows "splitKeywordDSN (joinKeywordDSN order_of parts) = parts"
proof -
  define ks where "ks = filter (\<lambda>k. parts k \<noteq> None) dsn_order @
    filter (\<lambda>k. k \<notin> set dsn_order) (order_of parts)"
  have ks: "set ks = dom parts" using assms(2) by (auto simp: ks_def)
  have good: "keyword_name k \<and> (\<exists>v. parts k = Some v \<and> plain_value v)" if "k \<in> set ks" for k
    using that ks assms(1) [of k] by auto
  then have words: "\<forall>w\<in>set (map (dsn_pair parts) ks). w \<noteq> [] \<and> (\<forall>c\<in>set w. \<not> is_space c)"
    using dsn_pair_word by fastforce
  have "joinKeywordDSN order_of parts = strings_Join (map (dsn_pair parts) ks) '' ''"
    by (simp add: joinKeywordDSN_def ks_def)
  then have "splitKeywordDSN (joinKeywordDSN order_of parts) =
      split_fields (map (dsn_pair parts) ks) Map.empty"
    using Fields_Join [OF words] by (simp only: splitKeywordDSN_def)
  also have "\<dots> = parts"
    using ks by (subst split_fields_pairs [OF good]) (auto simp: fun_eq_iff dom_def)
  finally show ?thesis .
qed

definition plain_map :: "keyword_map \<Rightarrow> bool" where
  "plain_map m \<longleftrightarrow> (\<forall>k v. m k = Some v \<longrightarrow> keyword_name k \<and> plain_value v)"

lemma plain_map_update:
  "plain_map m \<Longrightarrow> keyword_name k \<Longrightarrow> plain_value v \<Longrightarrow> plain_map (m(k \<mapsto> v))"
  by (auto simp: plain_map_def)

lemma split_fields_plain:
  "list_all plain_value fs \<Longrightarrow> plain_map m \<Longrightarrow> plain_map (split_fields fs m)"
proof (induction fs arbitrary: m)
  case (Cons f fs)
  show ?case
  proof (cases "strings_Cut f ''=''")
    case None
    with Cons show ?thesis by simp
  next
    case (Some kv)
    obtain k v where kv: "kv = (k, v)" by (cases kv)
    have f: "f = k @ ''='' @ v" "CHR ''='' \<notin> set k"
      using Some kv strings_Cut_Some [of f "''=''" k v] Cut_first [of f "''=''" k v]
      by (simp_all add: Contains_char)
    have "plain_value f" using Cons.prems by simp
    then have "k \<noteq> [] \<Longrightarrow> keyword_name k" and v: "plain_value v"
      using f by (auto simp: keyword_name_def plain_value_def)
    moreover have "strings_Trim v [single_quote] = v"
      using v by (intro Trim_id) (auto simp: plain_value_def)
    ultimately show ?thesis
      using Cons Some kv by (auto intro: plain_map_update)
  qed
qed simp

lemma splitKeywordDSN_plain:
  assumes "single_quote \<notin> set dsn" and "backslash \<notin> set dsn"
  shows "plain_map (splitKeywordDSN dsn)"
proof -
  have "list_all plain_value (strings_Fields dsn)"
    using assms Fields_words [of _ dsn] Fields_subset [of _ dsn]
    by (auto simp: list_all_iff plain_value_def)
  then show ?thesis
    unfolding splitKeywordDSN_def by (rule split_fields_plain) (simp add: plain_map_def)
qed

text \<open>In the keyword form only the database name changes.\<close>

lemma maintenance_keyword:
  assumes "postgresMaintenanceDSN parse order_of mdb dsn = Inr (target, out)"
    and "\<not> is_postgres_url (strings_TrimSpace dsn)"
    and "single_quote \<notin> set dsn" "backslash \<notin> set dsn" "plain_value (strings_TrimSpace mdb)"
    and order: "set (order_of m) = dom m"
    and m: "m = (splitKeywordDSN dsn)(''dbname'' \<mapsto> firstNonEmpty [strings_TrimSpace mdb, ''postgres''])"
  shows "splitKeywordDSN dsn ''dbname'' = Some target" and "target \<noteq> []"
    and "splitKeywordDSN out =
      (splitKeywordDSN dsn)(''dbname'' \<mapsto> firstNonEmpty [strings_TrimSpace mdb, ''postgres''])"
proof -
  let ?parts = "splitKeywordDSN (strings_TrimSpace dsn)"
  let ?m = "firstNonEmpty [strings_TrimSpace mdb, ''postgres'']"
  have same: "?parts = splitKeywordDSN dsn" by (simp add: splitKeywordDSN_def Fields_TrimSpace)
  have res: "?parts ''dbname'' = Some target" "target \<noteq> []"
    "out = joinKeywordDSN order_of (?parts(''dbname'' \<mapsto> ?m))"
    using assms(1,2)
    by (auto simp: postgresMaintenanceDSN_def Let_def split: option.splits if_splits)
  have "plain_map (splitKeywordDSN dsn)" using splitKeywordDSN_plain assms(3,4) .
  moreover have "plain_value ?m" "keyword_name ''dbname''"
    using assms(5) by (auto simp: plain_value_def keyword_name_def is_space_def)
  ultimately have "plain_map (?parts(''dbname'' \<mapsto> ?m))"
    unfolding same by (intro plain_map_update)
  then have "splitKeywordDSN out = ?parts(''dbname'' \<mapsto> ?m)"
    using split_joinKeywordDSN [of "?parts(''dbname'' \<mapsto> ?m)" order_of] order res(3)
    by (simp add: plain_map_def m same)
  with same res show "splitKeywordDSN dsn ''dbname'' = Some target" "target \<noteq> []"
    "splitKeywordDSN out = (splitKeywordDSN dsn)(''dbname'' \<mapsto> ?m)" by simp_all
qed

section \<open>Normalisation\<close>

lemma dsn_query_sslmode:
  "values_Get (dsn_query sslMode sp q) ''sslmode'' =
     firstNonEmpty [values_Get q ''sslmode'', sslMode, ''disable'']"
  by (auto simp: dsn_query_def values_Get_def ssl_mode_or_disable_def Let_def split: list.splits)

lemma containsKeyword_append [simp]:
  "containsKeyword (a @ '' '' @ key @ ''='' @ b) key" "containsKeyword (a @ CHR '' '' # key @ CHR ''='' # b) key"
  unfolding containsKeyword_def Contains_iff by (metis append.assoc append_Cons append_Nil)+

lemma containsKeyword_left: "containsKeyword a key \<Longrightarrow> containsKeyword (a @ b) key"
  unfolding containsKeyword_def Contains_iff by (metis append.assoc)

lemma containsKeyword_trim:
  "containsKeyword s key \<Longrightarrow> key \<noteq> [] \<Longrightarrow> \<not> is_space (hd key) \<Longrightarrow>
    containsKeyword (strings_TrimSpace s) key"
  unfolding containsKeyword_def
  by (rule Contains_TrimSpace_keeps) (auto simp: is_space_def)

lemma keyword_dsn_sslmode: "containsKeyword (keyword_dsn dsn sslMode sp) ''sslmode''"
proof -
  define d where "d = (if \<not> containsKeyword dsn ''sslmode''
    then strings_TrimSpace dsn @ '' sslmode='' @ ssl_mode_or_disable sslMode else dsn)"
  have d: "containsKeyword d ''sslmode''"
    using containsKeyword_append(1) [of "strings_TrimSpace dsn" "''sslmode''"] by (simp add: d_def)
  then have "containsKeyword (strings_TrimSpace d @ t) ''sslmode''" for t
    by (intro containsKeyword_left containsKeyword_trim) (simp_all add: is_space_def)
  with d show ?thesis by (simp add: keyword_dsn_def Let_def flip: d_def)
qed

text \<open>Normalising twice changes nothing more.\<close>

lemma keyword_dsn_idem:
  "keyword_dsn (keyword_dsn dsn sslMode sp) sslMode sp = keyword_dsn dsn sslMode sp"
proof (cases "strings_TrimSpace sp = []")
  case True
  then show ?thesis
    using keyword_dsn_sslmode [of dsn sslMode sp] by (simp add: keyword_dsn_def [of "keyword_dsn _ _ _"])
next
  case False
  define d where "d = (if \<not> containsKeyword dsn ''sslmode''
    then strings_TrimSpace dsn @ '' sslmode='' @ ssl_mode_or_disable sslMode else dsn)"
  have "containsKeyword (keyword_dsn dsn sslMode sp) ''options'' \<or>
      containsKeyword (keyword_dsn dsn sslMode sp) ''search_path''"
    using False containsKeyword_append(1) [of "strings_TrimSpace d" "''options''"]
    by (auto simp: keyword_dsn_def Let_def simp flip: d_def)
  then show ?thesis
    using keyword_dsn_sslmode [of dsn sslMode sp]
    by (auto simp: keyword_dsn_def [of "keyword_dsn _ _ _"])
qed

section \<open>Properties of connection strings\<close>



text \<open>
  The keyword form of a connection string is read back as it was written: splitKeywordDSN undoes
  joinKeywordDSN for values without quotes, backslashes and white space, in whatever order Go ranges
  over the remaining keywords.
\<close>

theorem keyword_dsn_roundtrip:
  assumes "plain_map parts" and "set (order_of parts) = dom parts"
  shows "splitKeywordDSN (joinKeywordDSN order_of parts) = parts"
  using split_joinKeywordDSN [of parts order_of] assms by (simp add: plain_map_def)

theorem keyword_dsn_roundtrip_witness:
  "splitKeywordDSN (joinKeywordDSN (\<lambda>_. [''dbname'', ''pool'', ''host''])
      [''host'' \<mapsto> ''db'', ''dbname'' \<mapsto> ''app'', ''pool'' \<mapsto> []]) =
    [''host'' \<mapsto> ''db'', ''dbname'' \<mapsto> ''app'', ''pool'' \<mapsto> []]"
  by (rule keyword_dsn_roundtrip)
    (auto simp: plain_map_def keyword_name_def plain_value_def is_space_def split: if_splits)


lemma service_dsn_split:
  "splitKeywordDSN ''host=db dbname=app'' = [''host'' \<mapsto> ''db'', ''dbname'' \<mapsto> ''app'']"
proof -
  let ?m = "[''host'' \<mapsto> ''db'', ''dbname'' \<mapsto> ''app'']"
  have "splitKeywordDSN (joinKeywordDSN (\<lambda>_. [''host'', ''dbname'']) ?m) = ?m"
    by (rule split_joinKeywordDSN)
      (auto simp: keyword_name_def plain_value_def is_space_def split: if_splits)
  then show ?thesis
    by (simp add: joinKeywordDSN_def dsn_order_def dsn_pair_def quoteKeywordValue_def)
qed


text \<open>
  Normalising a keyword connection string sets an SSL mode, and a second normalisation changes
  nothing more.
\<close>

theorem dsn_normalisation_stable:
  "containsKeyword (keyword_dsn dsn sslMode sp) ''sslmode'' \<and>
   keyword_dsn (keyword_dsn dsn sslMode sp) sslMode sp = keyword_dsn dsn sslMode sp"
  using keyword_dsn_sslmode keyword_dsn_idem by simp

end
