(* ===== verification/Database.thy ===== *)
theory Database
  imports Postgres_DSN Metrics Retry Go_Slog
begin

text \<open>
  The database package: configuration and construction (\<open>src/db/database.go\<close>, \<open>src/db/mysql.go\<close>,
  \<open>src/db/postgres.go\<close>). GORM and \<open>database/sql\<close> are a parameter, the record \<open>gorm_lib\<close>, over the state
  \<open>'x\<close> of the server and the process; a connection pool is named by a number. \<open>url.Parse\<close> and the order
  of a map are those of theory \<open>Postgres_DSN\<close>.
\<close>

section \<open>Configuration\<close>

record database_config =
  dc_Driver :: string
  dc_DSN :: string
  dc_MaxOpenConns :: int
  dc_MaxIdleConns :: int
  dc_ConnMaxLifetime :: string
  dc_SlowThreshold :: string
  dc_LogLevel :: string
  dc_AutoCreateDatabase :: bool
  dc_AutoCreate :: bool
  dc_MaintenanceDB :: string
  dc_SearchPath :: string
  dc_SSLMode :: string

definition canonicalDriver :: "string \<Rightarrow> string" where
  "canonicalDriver s =
     (if s \<in> set [[], ''mysql''] then ''mysql''
      else if s \<in> set [''postgres'', ''postgresql'', ''pgx''] then ''postgres''
      else s)"

definition database_Normalize :: "database_config \<Rightarrow> go_error + string" where
  "database_Normalize c =
     (let canon = canonicalDriver (dc_Driver c)
      in if canon \<in> set [''mysql'', ''postgres''] then Inr canon
         else Inl (Errorf (''unsupported database.driver '' @ strconv_Quote (dc_Driver c) @
                           '' (supported: mysql, postgres)'')))"

datatype gorm_log_level = Silent | Error_level | Warn | Info

definition parseLogLevel :: "string \<Rightarrow> gorm_log_level" where
  "parseLogLevel level =
     (if level = ''silent'' then Silent
      else if level = ''info'' then Info
      else if level = ''error'' then Error_level
      else Warn)"

definition slow_threshold :: "string \<Rightarrow> go_error + duration" where
  "slow_threshold t =
     (if t = [] then Inr (500 * Millisecond)
      else case time_ParseDuration t of
             Inl err \<Rightarrow> Inl (wrapf ''parse database.slow_threshold: '' err [])
           | Inr d \<Rightarrow> Inr (if 0 < d then d else 500 * Millisecond))"

section \<open>Options and the log writer of GORM\<close>

text \<open>
  The options of a constructor; the pointer to the metrics is of type \<open>'m\<close>. A nil function in the list is
  \<^term>\<open>None\<close>. The constructors below keep of them what is not logging: the metrics of the world.
\<close>

record 'm db_options =
  op_logger :: "slog_logger option"
  op_metrics :: "'m option"

type_synonym 'm db_option = "'m db_options \<Rightarrow> 'm db_options"

definition db_WithLogger :: "slog_logger option \<Rightarrow> 'm db_option" where
  "db_WithLogger l = (\<lambda>o'. o'\<lparr>op_logger := l\<rparr>)"

definition db_WithMetrics :: "'m option \<Rightarrow> 'm db_option" where
  "db_WithMetrics m = (\<lambda>o'. o'\<lparr>op_metrics := m\<rparr>)"

definition buildOptions :: "slog_logger \<Rightarrow> 'm db_option option list \<Rightarrow> 'm db_options" where
  "buildOptions dflt opts =
     (let o' = fold (\<lambda>fn o'. case fn of None \<Rightarrow> o' | Some f \<Rightarrow> f o') opts \<lparr>op_logger = None, op_metrics = None\<rparr>
      in if op_logger o' = None then o'\<lparr>op_logger := Some dflt\<rparr> else o')"

text \<open>\<open>slogWriter.Printf\<close>; \<open>sprintf\<close> is \<open>fmt.Sprintf\<close>, and the log output is the list of records.\<close>

record slog_writer =
  sw_logger :: "slog_logger option"

definition slogWriter_Printf ::
    "slog_logger \<Rightarrow> (string \<Rightarrow> any list \<Rightarrow> string) \<Rightarrow> slog_writer \<Rightarrow> string \<Rightarrow> any list
      \<Rightarrow> slog_record list \<Rightarrow> slog_record list" where
  "slogWriter_Printf dflt sprintf w fmt args =
     (let l = (case sw_logger w of None \<Rightarrow> dflt | Some l \<Rightarrow> l)
      in slog_Log l LevelDebug ''gorm'' [AStr ''message'', AStr (sprintf fmt args)])"

lemma buildOptions_logger:
  "op_logger (buildOptions dflt opts) \<noteq> None"
  "op_logger (buildOptions dflt (opts @ [Some (db_WithLogger (Some l))])) = Some l"
  "op_metrics (buildOptions dflt (opts @ [Some (db_WithMetrics m)])) = m"
  by (auto simp: buildOptions_def db_WithLogger_def db_WithMetrics_def Let_def)

text \<open>What GORM prints reaches the log at debug level only.\<close>

lemma slogWriter_quiet:
  "hd_Level (sl_handler l) \<noteq> LevelDebug \<Longrightarrow>
    slogWriter_Printf dflt sprintf \<lparr>sw_logger = Some l\<rparr> fmt args out = out"
  by (cases "hd_Level (sl_handler l)")
    (simp_all add: slogWriter_Printf_def slog_Log_def handler_Enabled_def less_eq_slog_level_def slog_number_def Let_def)

section \<open>Connections\<close>

type_synonym pool = nat

record 'x gorm_lib =
  gl_Open :: "string \<Rightarrow> string \<Rightarrow> duration \<Rightarrow> gorm_log_level \<Rightarrow> 'x \<Rightarrow> (go_error + pool) \<times> 'x"
  gl_DB :: "pool \<Rightarrow> 'x \<Rightarrow> (go_error + pool) \<times> 'x"
  gl_SetMaxOpenConns :: "pool \<Rightarrow> int \<Rightarrow> 'x \<Rightarrow> 'x"
  gl_SetMaxIdleConns :: "pool \<Rightarrow> int \<Rightarrow> 'x \<Rightarrow> 'x"
  gl_SetConnMaxLifetime :: "pool \<Rightarrow> duration \<Rightarrow> 'x \<Rightarrow> 'x"
  gl_PingContext :: "pool \<Rightarrow> 'x fallible"
  gl_Close :: "pool \<Rightarrow> 'x fallible"
  gl_DatabaseExists :: "pool \<Rightarrow> string \<Rightarrow> 'x \<Rightarrow> (go_error + bool) \<times> 'x"
  gl_Exec :: "pool \<Rightarrow> string \<Rightarrow> 'x fallible"

definition applyPool :: "'x gorm_lib \<Rightarrow> pool \<Rightarrow> database_config \<Rightarrow> 'x fallible" where
  "applyPool lib p cfg s =
     (let s1 = (if 0 < dc_MaxOpenConns cfg then gl_SetMaxOpenConns lib p (dc_MaxOpenConns cfg) s else s);
          s2 = (if 0 < dc_MaxIdleConns cfg then gl_SetMaxIdleConns lib p (dc_MaxIdleConns cfg) s1 else s1)
      in if dc_ConnMaxLifetime cfg \<noteq> [] then
           (case time_ParseDuration (dc_ConnMaxLifetime cfg) of
              Inl err \<Rightarrow> (Some (wrapf ''parse database.conn_max_lifetime: '' err []), s2)
            | Inr d \<Rightarrow> (None, gl_SetConnMaxLifetime lib p d s2))
         else (None, s2))"

definition pingWithDeps ::
    "'x gorm_lib \<Rightarrow> pool \<Rightarrow> string \<Rightarrow> 'x world \<Rightarrow> go_error option \<times> 'x world" where
  "pingWithDeps lib p driver w =
     (case gl_PingContext lib p (service w) of
        (err, s) \<Rightarrow> (err, observe_dependency driver ''ping'' err (w\<lparr>service := s\<rparr>)))"

definition close_pool :: "'x gorm_lib \<Rightarrow> pool \<Rightarrow> 'x world \<Rightarrow> 'x world" where
  "close_pool lib p w = w\<lparr>service := snd (gl_Close lib p (service w))\<rparr>"

text \<open>What the constructors of both drivers do once the pool is asked for.\<close>

definition open_database ::
    "'x gorm_lib \<Rightarrow> string \<Rightarrow> string \<Rightarrow> duration \<Rightarrow> database_config \<Rightarrow> 'x world
      \<Rightarrow> (go_error + pool \<times> pool) \<times> 'x world" where
  "open_database lib driver dsn slow cfg w =
     (case gl_Open lib driver dsn slow (parseLogLevel (dc_LogLevel cfg)) (service w) of
        (Inl err, s) \<Rightarrow>
          (Inl (wrapf (''open '' @ driver @ '': '') err []),
           observe_dependency driver ''open'' (Some err) (w\<lparr>service := s\<rparr>))
      | (Inr db, s) \<Rightarrow>
          (case gl_DB lib db s of
             (Inl err, s1) \<Rightarrow>
               (Inl (wrapf (driver @ '' sql db: '') err []),
                observe_dependency driver ''db'' (Some err) (w\<lparr>service := s1\<rparr>))
           | (Inr p, s1) \<Rightarrow>
               (case applyPool lib p cfg s1 of
                  (Some err, s2) \<Rightarrow> (Inl err, close_pool lib p (w\<lparr>service := s2\<rparr>))
                | (None, s2) \<Rightarrow>
                    (case pingWithDeps lib p driver (w\<lparr>service := s2\<rparr>) of
                       (Some err, w3) \<Rightarrow>
                         (Inl (wrapf (''ping '' @ driver @ '': '') err []), close_pool lib p w3)
                     | (None, w3) \<Rightarrow> (Inr (db, p), observe_dependency driver ''init'' None w3)))))"

text \<open>The two drivers. Their \<open>logger\<close> and \<open>opts\<close> fields only serve logging and metrics.\<close>

record mysql_db =
  my_DB :: "pool option"
  my_SQLDB :: "pool option"

record postgres_db =
  pg_DB :: "pool option"
  pg_SQLDB :: "pool option"

definition NewMySQL ::
    "'x gorm_lib \<Rightarrow> database_config \<Rightarrow> 'x world \<Rightarrow> (go_error + mysql_db) \<times> 'x world" where
  "NewMySQL lib cfg w =
     (if dc_Driver cfg \<noteq> [] \<and> dc_Driver cfg \<noteq> ''mysql''
      then (Inl (Errorf (''unsupported database.driver '' @ strconv_Quote (dc_Driver cfg))), w)
      else if dc_DSN cfg = [] then (Inl (Errorf ''database.dsn is required''), w)
      else (case slow_threshold (dc_SlowThreshold cfg) of
              Inl err \<Rightarrow> (Inl err, w)
            | Inr slow \<Rightarrow>
                (case open_database lib ''mysql'' (dc_DSN cfg) slow cfg w of
                   (Inl err, w') \<Rightarrow> (Inl err, w')
                 | (Inr (db, p), w') \<Rightarrow> (Inr \<lparr>my_DB = Some db, my_SQLDB = Some p\<rparr>, w'))))"

record dsn_lib =
  dl_Parse :: "string \<Rightarrow> go_error + url"
  dl_order :: "keyword_map \<Rightarrow> string list"

definition EnsurePostgresDatabase ::
    "dsn_lib \<Rightarrow> 'x gorm_lib \<Rightarrow> database_config \<Rightarrow> 'x world \<Rightarrow> go_error option \<times> 'x world" where
  "EnsurePostgresDatabase dl lib cfg w =
     (case postgresMaintenanceDSN (dl_Parse dl) (dl_order dl) (dc_MaintenanceDB cfg) (dc_DSN cfg) of
        Inl err \<Rightarrow> (Some err, w)
      | Inr (targetDB, maintenanceDSN) \<Rightarrow>
          if targetDB = []
          then (Some (Errorf ''postgres target database name is required for auto_create_database''), w)
          else (case gl_Open lib ''postgres''
                       (normalizePostgresDSN (dl_Parse dl) maintenanceDSN (dc_SSLMode cfg) [])
                       (500 * Millisecond) Warn (service w) of
                  (Inl err, s) \<Rightarrow>
                    (Some (wrapf ''open postgres maintenance database: '' err []), w\<lparr>service := s\<rparr>)
                | (Inr db, s) \<Rightarrow>
                    (case gl_DB lib db s of
                       (Inl err, s1) \<Rightarrow>
                         (Some (wrapf ''postgres maintenance sql db: '' err []), w\<lparr>service := s1\<rparr>)
                     | (Inr p, s1) \<Rightarrow>
                         (case gl_DatabaseExists lib p targetDB s1 of
                            (Inl err, s2) \<Rightarrow>
                              (Some (wrapf ''check postgres database existence: '' err []),
                               close_pool lib p (w\<lparr>service := s2\<rparr>))
                          | (Inr True, s2) \<Rightarrow> (None, close_pool lib p (w\<lparr>service := s2\<rparr>))
                          | (Inr False, s2) \<Rightarrow>
                              (case gl_Exec lib p (''CREATE DATABASE '' @ quoteIdent targetDB) s2 of
                                 (Some err, s3) \<Rightarrow>
                                   (Some (wrapf (''create postgres database '' @ strconv_Quote targetDB @ '': '')
                                            err []), close_pool lib p (w\<lparr>service := s3\<rparr>))
                               | (None, s3) \<Rightarrow>
                                   (None, close_pool lib p
                                      (observe_dependency ''postgres'' ''create_database'' None
                                         (w\<lparr>service := s3\<rparr>))))))))"

definition NewPostgres ::
    "dsn_lib \<Rightarrow> 'x gorm_lib \<Rightarrow> database_config \<Rightarrow> 'x world \<Rightarrow> (go_error + postgres_db) \<times> 'x world" where
  "NewPostgres dl lib cfg w =
     (if dc_DSN cfg = [] then (Inl (Errorf ''database.dsn is required''), w)
      else (case slow_threshold (dc_SlowThreshold cfg) of
              Inl err \<Rightarrow> (Inl err, w)
            | Inr slow \<Rightarrow>
                (case (if dc_AutoCreateDatabase cfg \<or> dc_AutoCreate cfg
                       then EnsurePostgresDatabase dl lib cfg w else (None, w)) of
                   (Some err, w1) \<Rightarrow>
                     (Inl err, observe_dependency ''postgres'' ''ensure_database'' (Some err) w1)
                 | (None, w1) \<Rightarrow>
                     (case open_database lib ''postgres''
                             (normalizePostgresDSN (dl_Parse dl) (dc_DSN cfg) (dc_SSLMode cfg)
                                (dc_SearchPath cfg)) slow cfg w1 of
                        (Inl err, w2) \<Rightarrow> (Inl err, w2)
                      | (Inr (db, p), w2) \<Rightarrow> (Inr \<lparr>pg_DB = Some db, pg_SQLDB = Some p\<rparr>, w2)))))"

section \<open>The methods of a database\<close>

definition mysql_GORM :: "mysql_db \<Rightarrow> pool option" where "mysql_GORM m = my_DB m"
definition mysql_SQL :: "mysql_db \<Rightarrow> pool option" where "mysql_SQL m = my_SQLDB m"
definition mysql_Driver :: "mysql_db \<Rightarrow> string" where "mysql_Driver m = ''mysql''"

definition mysql_Close :: "'x gorm_lib \<Rightarrow> mysql_db option \<Rightarrow> 'x fallible" where
  "mysql_Close lib m s =
     (case m of
        None \<Rightarrow> (None, s)
      | Some m \<Rightarrow> (case my_SQLDB m of None \<Rightarrow> (None, s) | Some p \<Rightarrow> gl_Close lib p s))"

definition mysql_Ping :: "'x gorm_lib \<Rightarrow> mysql_db option \<Rightarrow> 'x world \<Rightarrow> go_error option \<times> 'x world" where
  "mysql_Ping lib m w =
     (case (case m of None \<Rightarrow> None | Some m \<Rightarrow> my_SQLDB m) of
        None \<Rightarrow> (Some (Errorf ''mysql not initialized''), w)
      | Some p \<Rightarrow> pingWithDeps lib p ''mysql'' w)"

definition postgres_GORM :: "postgres_db \<Rightarrow> pool option" where "postgres_GORM p = pg_DB p"
definition postgres_SQL :: "postgres_db \<Rightarrow> pool option" where "postgres_SQL p = pg_SQLDB p"
definition postgres_Driver :: "postgres_db \<Rightarrow> string" where "postgres_Driver p = ''postgres''"

definition postgres_Close :: "'x gorm_lib \<Rightarrow> postgres_db option \<Rightarrow> 'x fallible" where
  "postgres_Close lib p s =
     (case p of
        None \<Rightarrow> (None, s)
      | Some p \<Rightarrow> (case pg_SQLDB p of None \<Rightarrow> (None, s) | Some c \<Rightarrow> gl_Close lib c s))"

definition postgres_Ping :: "'x gorm_lib \<Rightarrow> postgres_db option \<Rightarrow> 'x world \<Rightarrow> go_error option \<times> 'x world" where
  "postgres_Ping lib p w =
     (case (case p of None \<Rightarrow> None | Some p \<Rightarrow> pg_SQLDB p) of
        None \<Rightarrow> (Some (Errorf ''postgres not initialized''), w)
      | Some c \<Rightarrow> pingWithDeps lib c ''postgres'' w)"

text \<open>The interface \<open>Database\<close>: a value of one of the two drivers, with its methods.\<close>

datatype database = MySQL mysql_db | Postgres postgres_db

primrec db_GORM :: "database \<Rightarrow> pool option" where
  "db_GORM (MySQL m) = mysql_GORM m"
| "db_GORM (Postgres p) = postgres_GORM p"

primrec db_SQL :: "database \<Rightarrow> pool option" where
  "db_SQL (MySQL m) = mysql_SQL m"
| "db_SQL (Postgres p) = postgres_SQL p"

primrec db_Driver :: "database \<Rightarrow> string" where
  "db_Driver (MySQL m) = mysql_Driver m"
| "db_Driver (Postgres p) = postgres_Driver p"

primrec database_Ping :: "'x gorm_lib \<Rightarrow> database \<Rightarrow> 'x world \<Rightarrow> go_error option \<times> 'x world" where
  "database_Ping lib (MySQL m) = mysql_Ping lib (Some m)"
| "database_Ping lib (Postgres p) = postgres_Ping lib (Some p)"

primrec database_Close :: "'x gorm_lib \<Rightarrow> database \<Rightarrow> 'x fallible" where
  "database_Close lib (MySQL m) = mysql_Close lib (Some m)"
| "database_Close lib (Postgres p) = postgres_Close lib (Some p)"

section \<open>The factory\<close>

definition NewDatabase ::
    "dsn_lib \<Rightarrow> 'x gorm_lib \<Rightarrow> database_config \<Rightarrow> 'x world \<Rightarrow> (go_error + database) \<times> 'x world" where
  "NewDatabase dl lib cfg w =
     (case database_Normalize cfg of
        Inl err \<Rightarrow> (Inl err, w)
      | Inr driver \<Rightarrow>
          if driver = ''mysql'' then
            (case NewMySQL lib cfg w of
               (Inl err, w') \<Rightarrow> (Inl err, w') | (Inr m, w') \<Rightarrow> (Inr (MySQL m), w'))
          else
            (case NewPostgres dl lib cfg w of
               (Inl err, w') \<Rightarrow> (Inl err, w') | (Inr p, w') \<Rightarrow> (Inr (Postgres p), w')))"

section \<open>Facts\<close>

lemmas db_methods =
  mysql_GORM_def mysql_SQL_def mysql_Driver_def postgres_GORM_def postgres_SQL_def postgres_Driver_def

lemma canonicalDriver_idem [simp]: "canonicalDriver (canonicalDriver s) = canonicalDriver s"
  by (simp add: canonicalDriver_def)

lemma database_Normalize_iff:
  "(\<exists>d. database_Normalize c = Inr d) \<longleftrightarrow>
    dc_Driver c \<in> {[], ''mysql'', ''postgres'', ''postgresql'', ''pgx''}"
  by (auto simp: database_Normalize_def canonicalDriver_def Let_def)

lemma slow_threshold_pos: "slow_threshold t = Inr d \<Longrightarrow> 0 < d"
  by (auto simp: slow_threshold_def Millisecond_def split: if_splits sum.splits)

text \<open>
  The pools that are open. \<open>gorm.Open\<close> that succeeds opens a new pool and \<open>DB\<close> returns it; \<open>Close\<close>
  closes it, also when it reports an error; the other calls leave the set of open pools alone. A
  \<open>gorm.Open\<close> that fails is assumed to keep no pool: the code has no handle to close it.
\<close>

locale sql_pools =
  fixes lib :: "'x gorm_lib" and pools :: "'x \<Rightarrow> pool set"
  assumes open_ok: "gl_Open lib d dsn sl lv s = (Inr p, s') \<Longrightarrow> p \<notin> pools s \<and> pools s' = insert p (pools s)"
    and open_error: "gl_Open lib d dsn sl lv s = (Inl e, s') \<Longrightarrow> pools s' = pools s"
    and db_same: "gl_DB lib p s = (r, s') \<Longrightarrow> r = Inr p \<and> pools s' = pools s"
    and close_removes: "gl_Close lib p s = (e', s') \<Longrightarrow> pools s' = pools s - {p}"
    and set_keeps: "pools (gl_SetMaxOpenConns lib p n s) = pools s"
      "pools (gl_SetMaxIdleConns lib p n s) = pools s" "pools (gl_SetConnMaxLifetime lib p n s) = pools s"
    and ping_keeps: "gl_PingContext lib p s = (e', s') \<Longrightarrow> pools s' = pools s"
    and exists_keeps: "gl_DatabaseExists lib p name s = (r', s') \<Longrightarrow> pools s' = pools s"
    and exec_keeps: "gl_Exec lib p sql s = (e', s') \<Longrightarrow> pools s' = pools s"
begin

lemma applyPool_keeps: "applyPool lib p cfg s = (e, s') \<Longrightarrow> pools s' = pools s"
  by (auto simp: applyPool_def Let_def set_keeps split: if_splits sum.splits)

lemma pools_close [simp]: "pools (service (close_pool lib p w)) = pools (service w) - {p}"
  using close_removes [of p "service w"]
  by (cases "gl_Close lib p (service w)") (auto simp: close_pool_def)

lemma pingWithDeps_keeps:
  "pingWithDeps lib p d w = (e, w') \<Longrightarrow> pools (service w') = pools (service w)"
  by (auto simp: pingWithDeps_def dest: ping_keeps split: prod.splits)

text \<open>An open that fails leaves no pool behind; one that succeeds leaves exactly the one it returns.\<close>

lemma open_database_pools:
  assumes "open_database lib driver dsn slow cfg w = (r, w')"
  shows "case r of
      Inl err \<Rightarrow> pools (service w') = pools (service w)
    | Inr (db, p) \<Rightarrow> db = p \<and> p \<notin> pools (service w) \<and> pools (service w') = insert p (pools (service w))"
proof -
  obtain r0 s0 where o: "gl_Open lib driver dsn slow (parseLogLevel (dc_LogLevel cfg)) (service w) = (r0, s0)"
    by fastforce
  show ?thesis
  proof (cases r0)
    case (Inl e)
    with assms o open_error [OF o [unfolded Inl]] show ?thesis by (auto simp: open_database_def)
  next
    case (Inr p)
    obtain r1 s1 where db: "gl_DB lib p s0 = (r1, s1)" by fastforce
    obtain e2 s2 where ap: "applyPool lib p cfg s1 = (e2, s2)" by fastforce
    obtain e3 w3 where pg: "pingWithDeps lib p driver (w\<lparr>service := s2\<rparr>) = (e3, w3)" by fastforce
    have new: "p \<notin> pools (service w)" "pools s2 = insert p (pools (service w))"
      "pools (service w3) = insert p (pools (service w))" "r1 = Inr p"
      using open_ok [OF o [unfolded Inr]] db_same [OF db] applyPool_keeps [OF ap]
        pingWithDeps_keeps [OF pg] by simp_all
    have "insert p (pools (service w)) - {p} = pools (service w)" using new(1) by simp
    with assms o Inr db ap pg new show ?thesis
      by (cases e2; cases e3) (auto simp: open_database_def)
  qed
qed

lemma ensure_pools:
  assumes "EnsurePostgresDatabase dl lib cfg w = (e, w')"
  shows "pools (service w') = pools (service w)"
proof (cases "postgresMaintenanceDSN (dl_Parse dl) (dl_order dl) (dc_MaintenanceDB cfg) (dc_DSN cfg)")
  case (Inl err)
  with assms show ?thesis by (auto simp: EnsurePostgresDatabase_def)
next
  case (Inr t)
  obtain target mdsn where t: "t = (target, mdsn)" by (cases t)
  let ?dsn = "normalizePostgresDSN (dl_Parse dl) mdsn (dc_SSLMode cfg) []"
  obtain r0 s0 where o: "gl_Open lib ''postgres'' ?dsn (500 * Millisecond) Warn (service w) = (r0, s0)"
    by fastforce
  show ?thesis
  proof (cases "target = []")
    case True
    with assms Inr t show ?thesis by (simp add: EnsurePostgresDatabase_def)
  next
    case False
    show ?thesis
    proof (cases r0)
      case (Inl er)
      from open_error [OF o [unfolded Inl]] have "pools s0 = pools (service w)" .
      moreover from assms Inr t o Inl False have "service w' = s0"
        by (auto simp: EnsurePostgresDatabase_def)
      ultimately show ?thesis by simp
    next
      case r0: (Inr p)
    obtain r1 s1 where db: "gl_DB lib p s0 = (r1, s1)" by fastforce
    obtain r2 s2 where ex: "gl_DatabaseExists lib p target s1 = (r2, s2)" by fastforce
    obtain e3 s3 where sql: "gl_Exec lib p (''CREATE DATABASE '' @ quoteIdent target) s2 = (e3, s3)"
      by fastforce
    have new: "p \<notin> pools (service w)" "r1 = Inr p" "pools s2 = insert p (pools (service w))"
      "pools s3 = insert p (pools (service w))"
      using open_ok [OF o [unfolded r0]] db_same [OF db] exists_keeps [OF ex] exec_keeps [OF sql]
      by simp_all
    have "insert p (pools (service w)) - {p} = pools (service w)" using new(1) by simp
    with assms Inr t o r0 db ex sql new False show ?thesis
      by (cases r2; cases e3) (auto simp: EnsurePostgresDatabase_def split: bool.splits)
    qed
  qed
qed

lemma NewPostgres_pools:
  assumes "NewPostgres dl lib cfg w = (r, w')"
  shows "case r of
      Inl err \<Rightarrow> pools (service w') = pools (service w)
    | Inr d \<Rightarrow> \<exists>p. pg_SQLDB d = Some p \<and> pg_DB d = Some p \<and> p \<notin> pools (service w) \<and>
        pools (service w') = insert p (pools (service w))"
proof -
  obtain e1 w1 where en: "(if dc_AutoCreateDatabase cfg \<or> dc_AutoCreate cfg
      then EnsurePostgresDatabase dl lib cfg w else (None, w)) = (e1, w1)" by fastforce
  then have "pools (service w1) = pools (service w)"
    using ensure_pools [of dl cfg w e1 w1] by (auto split: if_splits)
  moreover have "w' = w \<or> service w' = service w1 \<or>
      (\<exists>dsn slow r'. open_database lib ''postgres'' dsn slow cfg w1 = (r', w') \<and> (\<exists>e. r' = Inl e))" if "r = Inl er" for er
    using that assms en by (auto simp: NewPostgres_def split: if_splits sum.splits option.splits prod.splits)
  moreover have "\<exists>dsn slow db p. open_database lib ''postgres'' dsn slow cfg w1 = (Inr (db, p), w') \<and>
      d = \<lparr>pg_DB = Some db, pg_SQLDB = Some p\<rparr>" if "r = Inr d" for d
    using that assms en by (auto simp: NewPostgres_def split: if_splits sum.splits option.splits prod.splits)
  ultimately show ?thesis
    using open_database_pools [of "''postgres''" _ _ cfg w1 _ w'] by (cases r) fastforce+
qed

lemma NewMySQL_pools:
  assumes "NewMySQL lib cfg w = (r, w')"
  shows "case r of
      Inl err \<Rightarrow> pools (service w') = pools (service w)
    | Inr d \<Rightarrow> \<exists>p. my_SQLDB d = Some p \<and> my_DB d = Some p \<and> p \<notin> pools (service w) \<and>
        pools (service w') = insert p (pools (service w))"
proof (cases "\<exists>slow. slow_threshold (dc_SlowThreshold cfg) = Inr slow \<and> dc_DSN cfg \<noteq> [] \<and>
    (dc_Driver cfg = [] \<or> dc_Driver cfg = ''mysql'')")
  case False
  with assms show ?thesis by (auto simp: NewMySQL_def split: if_splits sum.splits)
next
  case True
  then obtain slow where slow: "slow_threshold (dc_SlowThreshold cfg) = Inr slow" by blast
  obtain o' w1 where o: "open_database lib ''mysql'' (dc_DSN cfg) slow cfg w = (o', w1)" by fastforce
  have r: "r = (case o' of Inl err \<Rightarrow> Inl err | Inr (db, p) \<Rightarrow> Inr \<lparr>my_DB = Some db, my_SQLDB = Some p\<rparr>)" "w' = w1"
    using assms True slow o by (auto simp: NewMySQL_def split: sum.splits)
  from open_database_pools [OF o] r show ?thesis by (cases o') auto
qed

lemma NewDatabase_pools:
  assumes "NewDatabase dl lib cfg w = (r, w')"
  shows "case r of
      Inl err \<Rightarrow> pools (service w') = pools (service w)
    | Inr d \<Rightarrow> \<exists>p. db_SQL d = Some p \<and> db_GORM d = Some p \<and> p \<notin> pools (service w) \<and>
        pools (service w') = insert p (pools (service w)) \<and> db_Driver d = canonicalDriver (dc_Driver cfg)"
  using assms NewMySQL_pools [of cfg w] NewPostgres_pools [of dl cfg w]
  by (fastforce simp: NewDatabase_def database_Normalize_def Let_def db_methods
      split: if_splits sum.splits prod.splits)

lemma Close_pools:
  "database_Close lib d s = (e, s') \<Longrightarrow> db_SQL d = Some p \<Longrightarrow> pools s' = pools s - {p}"
  by (cases d) (auto simp: mysql_Close_def postgres_Close_def db_methods dest: close_removes)

end

section \<open>A database server in memory\<close>

record sql_mem =
  sq_pools :: "pool list"
  sq_databases :: "string list"
  sq_log :: "string list"

definition fresh_pool :: "pool list \<Rightarrow> pool" where
  "fresh_pool ps = Suc (fold max ps 0)"

definition mem_sql :: "sql_mem gorm_lib" where
  "mem_sql =
     \<lparr>gl_Open = (\<lambda>d dsn sl lv s.
        (Inr (fresh_pool (sq_pools s)), s\<lparr>sq_pools := fresh_pool (sq_pools s) # sq_pools s\<rparr>)),
      gl_DB = (\<lambda>p s. (Inr p, s)),
      gl_SetMaxOpenConns = (\<lambda>p n s. s), gl_SetMaxIdleConns = (\<lambda>p n s. s),
      gl_SetConnMaxLifetime = (\<lambda>p d s. s),
      gl_PingContext = (\<lambda>p s. (if p \<in> set (sq_pools s) then None else Some (ErrExt ''sql: database is closed''), s)),
      gl_Close = (\<lambda>p s. (None, s\<lparr>sq_pools := removeAll p (sq_pools s)\<rparr>)),
      gl_DatabaseExists = (\<lambda>p name s. (Inr (name \<in> set (sq_databases s)), s)),
      gl_Exec = (\<lambda>p sql s. (None, s\<lparr>sq_log := sq_log s @ [sql]\<rparr>))\<rparr>"

lemma fold_max_ge: "(x::nat) \<in> set ps \<or> x \<le> m \<Longrightarrow> x \<le> fold max ps m"
  by (induction ps arbitrary: m) (auto simp: le_max_iff_disj)

lemma fresh_pool_fresh: "fresh_pool ps \<notin> set ps"
  using fold_max_ge [of "fresh_pool ps" ps 0] by (auto simp: fresh_pool_def)

interpretation mem_pools: sql_pools mem_sql "\<lambda>s. set (sq_pools s)"
  by unfold_locales (auto simp: mem_sql_def fresh_pool_fresh)

section \<open>Properties of the database connection\<close>


definition no_dsn_lib :: dsn_lib where
  "no_dsn_lib = \<lparr>dl_Parse = (\<lambda>_. Inl (ErrExt ''parse'')), dl_order = (\<lambda>_. [])\<rparr>"

definition mysql_config :: database_config where
  "mysql_config =
     \<lparr>dc_Driver = ''mysql'', dc_DSN = ''dsn'', dc_MaxOpenConns = 0, dc_MaxIdleConns = 0,
      dc_ConnMaxLifetime = [], dc_SlowThreshold = [], dc_LogLevel = [], dc_AutoCreateDatabase = False,
      dc_AutoCreate = False, dc_MaintenanceDB = [], dc_SearchPath = [], dc_SSLMode = []\<rparr>"

definition mysql_start :: "sql_mem world" where
  "mysql_start = \<lparr>service = \<lparr>sq_pools = [7], sq_databases = [], sq_log = []\<rparr>, w_metrics = None\<rparr>"


end
