(* ===== verification/Db_Query.thy ===== *)
theory Db_Query
  imports Go_Numbers Identity
begin

text \<open>
  The query helpers of the database package: pages and sorting (\<open>src/db/page.go\<close>), JSON columns
  (\<open>src/db/jsonb.go\<close>) and transactions (\<open>src/db/tx.go\<close>). A GORM query is a parameter, the record
  \<open>query_lib\<close>; Go's \<open>int\<close> has 64 bits and the offset of a page wraps.
\<close>

section \<open>Pages\<close>

definition int64 :: "int \<Rightarrow> int" where
  "int64 x = (x + 2 ^ 63) mod 2 ^ 64 - 2 ^ 63"

record page_request =
  pg_Page :: int
  pg_PageSize :: int
  pg_Sort :: string
  pg_SortBy :: string
  pg_SortOrder :: string

record 't page_result =
  pq_Items :: "'t list"
  pq_Total :: int
  pq_Page :: int
  pq_PageSize :: int

definition NormalizePage :: "page_request \<Rightarrow> page_request" where
  "NormalizePage req =
     (let r1 = (if pg_Page req \<le> 0 then req\<lparr>pg_Page := 1\<rparr> else req);
          r2 = (if pg_PageSize r1 \<le> 0 then r1\<lparr>pg_PageSize := 20\<rparr> else r1)
      in if 200 < pg_PageSize r2 then r2\<lparr>pg_PageSize := 200\<rparr> else r2)"

text \<open>An \<open>ORDER BY\<close> of the query: a quoted column with its direction, or raw SQL.\<close>

datatype sort_order = OrderByColumn string bool | OrderRaw string

definition ApplySort :: "page_request \<Rightarrow> (string \<times> string) list \<Rightarrow> sort_order option" where
  "ApplySort req allowedSorts =
     (if allowedSorts \<noteq> [] then
        (case map_of allowedSorts (pg_SortBy req) of
           None \<Rightarrow> None
         | Some column \<Rightarrow>
             if strings_TrimSpace column = [] then None
             else Some (OrderByColumn column (strings_EqualFold (pg_SortOrder req) ''desc'')))
      else if pg_Sort req \<noteq> [] then Some (OrderRaw (pg_Sort req))
      else None)"

record ('x, 't) query_lib =
  ql_Count :: "'x \<Rightarrow> (go_error + int) \<times> 'x"
  ql_Find :: "int \<Rightarrow> int \<Rightarrow> sort_order option \<Rightarrow> 'x \<Rightarrow> (go_error + 't list) \<times> 'x"

definition page_offset :: "page_request \<Rightarrow> int" where
  "page_offset req = int64 (int64 (pg_Page req - 1) * pg_PageSize req)"

definition paginateWithSort ::
    "('x, 't) query_lib \<Rightarrow> page_request \<Rightarrow> (string \<times> string) list \<Rightarrow> 'x
      \<Rightarrow> (go_error + 't page_result) \<times> 'x" where
  "paginateWithSort q req0 allowedSorts s =
     (let req = NormalizePage req0
      in case ql_Count q s of
           (Inl err, s1) \<Rightarrow> (Inl err, s1)
         | (Inr count, s1) \<Rightarrow>
             (case ql_Find q (page_offset req) (pg_PageSize req) (ApplySort req allowedSorts) s1 of
                (Inl err, s2) \<Rightarrow> (Inl err, s2)
              | (Inr items, s2) \<Rightarrow>
                  (Inr \<lparr>pq_Items = items, pq_Total = count, pq_Page = pg_Page req,
                        pq_PageSize = pg_PageSize req\<rparr>, s2)))"

definition Paginate ::
    "('x, 't) query_lib \<Rightarrow> page_request \<Rightarrow> 'x \<Rightarrow> (go_error + 't page_result) \<times> 'x" where
  "Paginate q req s = paginateWithSort q req [] s"

definition PaginateSafe ::
    "('x, 't) query_lib \<Rightarrow> page_request \<Rightarrow> (string \<times> string) list \<Rightarrow> 'x
      \<Rightarrow> (go_error + 't page_result) \<times> 'x" where
  "PaginateSafe q req allowedSorts s = paginateWithSort q req allowedSorts s"

lemma int64_id: "- (2 ^ 63) \<le> x \<Longrightarrow> x < 2 ^ 63 \<Longrightarrow> int64 x = x"
  by (simp add: int64_def)

lemma NormalizePage_bounds:
  "1 \<le> pg_Page (NormalizePage req)" "1 \<le> pg_PageSize (NormalizePage req)"
  "pg_PageSize (NormalizePage req) \<le> 200"
  by (auto simp: NormalizePage_def Let_def)

lemma NormalizePage_idem [simp]: "NormalizePage (NormalizePage req) = NormalizePage req"
  by (auto simp: NormalizePage_def Let_def)

lemma page_offset_exact:
  assumes "pg_Page req \<le> 2 ^ 55"
  shows "page_offset (NormalizePage req) =
    (pg_Page (NormalizePage req) - 1) * pg_PageSize (NormalizePage req)"
proof -
  let ?p = "pg_Page (NormalizePage req)" and ?k = "pg_PageSize (NormalizePage req)"
  have p: "0 \<le> ?p - 1" "?p - 1 \<le> 2 ^ 55"
    using assms NormalizePage_bounds(1) [of req] by (auto simp: NormalizePage_def Let_def)
  have "(?p - 1) * ?k \<le> 2 ^ 55 * 200"
    using p NormalizePage_bounds(2,3) [of req] by (intro mult_mono) auto
  moreover have "0 \<le> (?p - 1) * ?k"
    using p NormalizePage_bounds(2) [of req] by simp
  ultimately show ?thesis using p by (simp add: page_offset_def int64_id)
qed

text \<open>With an allow list that is not empty, only its columns reach the query.\<close>

lemma ApplySort_allowed:
  "allowed \<noteq> [] \<Longrightarrow> ApplySort req allowed = Some ord \<Longrightarrow>
    \<exists>column desc. ord = OrderByColumn column desc \<and> (pg_SortBy req, column) \<in> set allowed"
  by (auto simp: ApplySort_def dest: map_of_SomeD split: option.splits if_splits)

lemma pages_concat:
  "concat (map (\<lambda>i. take k (drop (i * k) xs)) [0..<n]) = take (n * k) xs"
proof (induction n)
  case (Suc n)
  have "take (Suc n * k) xs = take (n * k) xs @ take k (drop (n * k) xs)"
    using take_add [of "n * k" k xs] by (simp add: add.commute)
  with Suc show ?case by simp
qed simp

text \<open>A caller that fetches the pages from 1 to \<open>n\<close> and joins them.\<close>

fun fetch_pages ::
    "('x, 't) query_lib \<Rightarrow> page_request \<Rightarrow> (string \<times> string) list \<Rightarrow> nat \<Rightarrow> 'x \<Rightarrow> (go_error + 't list) \<times> 'x" where
  "fetch_pages q req allowed 0 s = (Inr [], s)"
| "fetch_pages q req allowed (Suc n) s =
     (case fetch_pages q req allowed n s of
        (Inl err, s1) \<Rightarrow> (Inl err, s1)
      | (Inr xs, s1) \<Rightarrow>
          (case PaginateSafe q (req\<lparr>pg_Page := int (Suc n)\<rparr>) allowed s1 of
             (Inl err, s2) \<Rightarrow> (Inl err, s2)
           | (Inr res, s2) \<Rightarrow> (Inr (xs @ pq_Items res), s2)))"

lemma NormalizePage_page [simp]:
  "0 < n \<Longrightarrow> pg_Page (NormalizePage (req\<lparr>pg_Page := n\<rparr>)) = n"
  "pg_PageSize (NormalizePage (req\<lparr>pg_Page := n\<rparr>)) = pg_PageSize (NormalizePage req)"
  by (simp_all add: NormalizePage_def Let_def)

lemma NormalizePage_sort [simp]:
  "pg_Sort (NormalizePage req) = pg_Sort req" "pg_SortBy (NormalizePage req) = pg_SortBy req"
  "pg_SortOrder (NormalizePage req) = pg_SortOrder req"
  by (simp_all add: NormalizePage_def Let_def)

lemma ApplySort_cong:
  "pg_Sort r = pg_Sort r' \<Longrightarrow> pg_SortBy r = pg_SortBy r' \<Longrightarrow> pg_SortOrder r = pg_SortOrder r' \<Longrightarrow>
    ApplySort r allowed = ApplySort r' allowed"
  by (simp add: ApplySort_def split: option.split)

lemma ApplySort_page [simp]:
  "ApplySort (NormalizePage (req\<lparr>pg_Page := n\<rparr>)) allowed = ApplySort (NormalizePage req) allowed"
  by (rule ApplySort_cong) simp_all

text \<open>
  The contract of a query over rows that do not change: \<open>Count\<close> counts them, \<open>Find\<close> returns a window of
  them in the order asked for, and a negative offset is no offset.
\<close>

locale stable_query =
  fixes q :: "('x, 't) query_lib" and rows :: "sort_order option \<Rightarrow> 't list" and live :: "'x \<Rightarrow> bool"
  assumes count_ok: "live s \<Longrightarrow> ql_Count q s = (r, s') \<Longrightarrow> live s' \<and> (\<forall>n. r = Inr n \<longrightarrow> n = int (length (rows None)))"
    and find_ok: "live s \<Longrightarrow> ql_Find q off lim ord s = (r2, s') \<Longrightarrow> live s' \<and>
      (\<forall>xs. r2 = Inr xs \<longrightarrow> xs = take (nat lim) (drop (nat off) (rows ord)))"
    and rows_length: "length (rows ord) = length (rows None)"
begin

lemma paginate_window:
  assumes "live s" and "paginateWithSort q req allowed s = (Inr res, s')" and "pg_Page req \<le> 2 ^ 55"
  shows "live s' \<and> pq_Total res = int (length (rows None)) \<and>
    pq_PageSize res = pg_PageSize (NormalizePage req) \<and> pq_Page res = pg_Page (NormalizePage req) \<and>
    pq_Items res = take (nat (pq_PageSize res))
      (drop (nat (pq_Page res - 1) * nat (pq_PageSize res)) (rows (ApplySort (NormalizePage req) allowed)))"
proof -
  have off: "nat (page_offset (NormalizePage req)) =
      nat (pg_Page (NormalizePage req) - 1) * nat (pg_PageSize (NormalizePage req))"
    using page_offset_exact [OF assms(3)] NormalizePage_bounds [of req] by (simp add: nat_mult_distrib)
  obtain r1 s1 where c: "ql_Count q s = (r1, s1)" by fastforce
  with assms(2) obtain count where r1: "r1 = Inr count"
    by (cases r1) (auto simp: paginateWithSort_def Let_def)
  obtain r2 s2 where f: "ql_Find q (page_offset (NormalizePage req)) (pg_PageSize (NormalizePage req))
      (ApplySort (NormalizePage req) allowed) s1 = (r2, s2)" by fastforce
  with assms(2) c r1 obtain items where r2: "r2 = Inr items" and s': "s' = s2"
    and res: "res = \<lparr>pq_Items = items, pq_Total = count, pq_Page = pg_Page (NormalizePage req),
      pq_PageSize = pg_PageSize (NormalizePage req)\<rparr>"
    by (cases r2) (auto simp: paginateWithSort_def Let_def)
  from count_ok [OF assms(1) c] r1 have "live s1" "count = int (length (rows None))" by auto
  with find_ok [OF _ f] r2 s' res off show ?thesis by simp
qed

lemma fetch_pages_rows:
  assumes "live s" and "fetch_pages q req allowed n s = (Inr xs, s')" and "int n \<le> 2 ^ 55"
  shows "live s' \<and> xs = take (n * nat (pg_PageSize (NormalizePage req)))
    (rows (ApplySort (NormalizePage req) allowed))"
  using assms(2,3)
proof (induction n arbitrary: xs s')
  case 0
  with assms(1) show ?case by simp
next
  case (Suc n)
  let ?k = "nat (pg_PageSize (NormalizePage req))" and ?rows = "rows (ApplySort (NormalizePage req) allowed)"
  from Suc.prems obtain ys s1 res where
    ys: "fetch_pages q req allowed n s = (Inr ys, s1)"
    and pg: "paginateWithSort q (req\<lparr>pg_Page := int (Suc n)\<rparr>) allowed s1 = (Inr res, s')"
    and xs: "xs = ys @ pq_Items res"
    by (auto simp: PaginateSafe_def split: prod.splits sum.splits)
  from Suc.IH [OF ys] Suc.prems(2) have live: "live s1" and t: "ys = take (n * ?k) ?rows" by simp_all
  from paginate_window [OF live pg] Suc.prems(2)
  have "live s'" "pq_Items res = take ?k (drop (n * ?k) ?rows)" by simp_all
  then show ?case using t xs take_add [of "n * ?k" ?k ?rows] by (simp add: add.commute)
qed

lemma fetch_pages_complete:
  assumes "live s" and "fetch_pages q req allowed n s = (Inr xs, s')" and "int n \<le> 2 ^ 55"
    and "length (rows None) \<le> n * nat (pg_PageSize (NormalizePage req))"
  shows "xs = rows (ApplySort (NormalizePage req) allowed)"
  using fetch_pages_rows [OF assms(1-3)] assms(4)
    rows_length [of "ApplySort (NormalizePage req) allowed"] by simp

end

section \<open>JSON columns\<close>

record 'v jsonb =
  jb_Data :: 'v
  jb_Null :: bool

datatype sql_value = SqlNull | SqlBytes string | SqlString string | SqlOther string

text \<open>\<open>json.Unmarshal\<close> writes into the value it is given.\<close>

record 'v jsonb_codec =
  jx_Marshal :: "'v \<Rightarrow> go_error + string"
  jx_Unmarshal :: "string \<Rightarrow> 'v \<Rightarrow> go_error option \<times> 'v"
  jx_zero :: 'v

definition jsonb_Value :: "'v jsonb_codec \<Rightarrow> 'v jsonb \<Rightarrow> go_error + sql_value" where
  "jsonb_Value js j =
     (if jb_Null j then Inr SqlNull
      else case jx_Marshal js (jb_Data j) of
             Inl err \<Rightarrow> Inl (wrapf ''jsonb marshal: '' err [])
           | Inr b \<Rightarrow> Inr (SqlString b))"

definition jsonb_decode :: "'v jsonb_codec \<Rightarrow> string \<Rightarrow> 'v jsonb \<Rightarrow> go_error option \<times> 'v jsonb" where
  "jsonb_decode js b j =
     (if b = [] then (None, j\<lparr>jb_Null := True, jb_Data := jx_zero js\<rparr>)
      else (case jx_Unmarshal js b (jb_Data j) of
              (Some err, d) \<Rightarrow> (Some (wrapf ''jsonb unmarshal: '' err []), j\<lparr>jb_Null := False, jb_Data := d\<rparr>)
            | (None, d) \<Rightarrow> (None, j\<lparr>jb_Null := False, jb_Data := d\<rparr>)))"

definition jsonb_Scan :: "'v jsonb_codec \<Rightarrow> sql_value \<Rightarrow> 'v jsonb \<Rightarrow> go_error option \<times> 'v jsonb" where
  "jsonb_Scan js src j =
     (case src of
        SqlNull \<Rightarrow> (None, j\<lparr>jb_Null := True, jb_Data := jx_zero js\<rparr>)
      | SqlBytes b \<Rightarrow> jsonb_decode js b j
      | SqlString b \<Rightarrow> jsonb_decode js b j
      | SqlOther ty \<Rightarrow> (Some (Errorf (''jsonb: unsupported scan source '' @ ty)), j))"

definition jsonb_MarshalJSON :: "'v jsonb_codec \<Rightarrow> 'v jsonb \<Rightarrow> go_error + string" where
  "jsonb_MarshalJSON js j = (if jb_Null j then Inr ''null'' else jx_Marshal js (jb_Data j))"

definition jsonb_UnmarshalJSON :: "'v jsonb_codec \<Rightarrow> string \<Rightarrow> 'v jsonb \<Rightarrow> go_error option \<times> 'v jsonb" where
  "jsonb_UnmarshalJSON js b j =
     (if b = ''null'' then (None, j\<lparr>jb_Null := True, jb_Data := jx_zero js\<rparr>)
      else (case jx_Unmarshal js b (jb_Data j) of (err, d) \<Rightarrow> (err, j\<lparr>jb_Null := False, jb_Data := d\<rparr>)))"

abbreviation ErrJSONBNull :: go_error where
  "ErrJSONBNull \<equiv> ErrNew ''db'' ''jsonb: column is null''"

definition jsonb_MustGet :: "'v jsonb_codec \<Rightarrow> 'v jsonb \<Rightarrow> 'v \<times> go_error option" where
  "jsonb_MustGet js j = (if jb_Null j then (jx_zero js, Some ErrJSONBNull) else (jb_Data j, None))"

definition zero_jsonb :: "'v jsonb_codec \<Rightarrow> 'v jsonb" where
  "zero_jsonb js = \<lparr>jb_Data = jx_zero js, jb_Null = False\<rparr>"

text \<open>
  What is needed of the codec: decoding into the zero value inverts encoding, and no encoding is
  empty.
\<close>

definition codec_ok :: "'v jsonb_codec \<Rightarrow> bool" where
  "codec_ok js \<longleftrightarrow>
     (\<forall>v b. jx_Marshal js v = Inr b \<longrightarrow> b \<noteq> [] \<and> jx_Unmarshal js b (jx_zero js) = (None, v))"

lemma jsonb_Scan_Value:
  assumes "codec_ok js" and "jsonb_Value js j = Inr v" and "jb_Null j \<Longrightarrow> jb_Data j = jx_zero js"
  shows "jsonb_Scan js v (zero_jsonb js) = (None, j)"
  using assms
  by (cases j)
    (auto simp: jsonb_Value_def jsonb_Scan_def jsonb_decode_def zero_jsonb_def codec_ok_def
      split: if_splits sum.splits)

lemma jsonb_UnmarshalJSON_MarshalJSON:
  assumes "codec_ok js" and "jsonb_MarshalJSON js j = Inr b" and "jb_Null j \<Longrightarrow> jb_Data j = jx_zero js"
    and "\<not> jb_Null j \<Longrightarrow> b \<noteq> ''null''"
  shows "jsonb_UnmarshalJSON js b (zero_jsonb js) = (None, j)"
  using assms
  by (cases j)
    (auto simp: jsonb_MarshalJSON_def jsonb_UnmarshalJSON_def zero_jsonb_def codec_ok_def
      split: if_splits sum.splits)

section \<open>Transactions\<close>

text \<open>
  A GORM handle is a number. \<open>Transaction\<close> of GORM is a parameter: it opens a transaction, runs the
  function on it, and commits or rolls back. The context key holds the handle of the transaction in
  progress.
\<close>

record 'x tx_lib =
  tx_WithContext :: "nat \<Rightarrow> go_context \<Rightarrow> nat"
  tx_Transaction :: "nat \<Rightarrow> (nat \<Rightarrow> 'x \<Rightarrow> go_error option \<times> 'x) \<Rightarrow> 'x \<Rightarrow> go_error option \<times> 'x"
  tx_Exec :: "nat \<Rightarrow> string \<Rightarrow> any list \<Rightarrow> 'x \<Rightarrow> go_error option \<times> 'x"

definition NewTxContext :: "go_context \<Rightarrow> nat option \<Rightarrow> go_context" where
  "NewTxContext ctx tx = ctx\<lparr>txKey := Some tx\<rparr>"

definition TxFromContext :: "go_context \<Rightarrow> nat option" where
  "TxFromContext ctx = (case txKey ctx of None \<Rightarrow> None | Some tx \<Rightarrow> tx)"

record tx_manager =
  tm_db :: "nat option"

definition NewTxManager :: "nat option \<Rightarrow> tx_manager" where
  "NewTxManager db = \<lparr>tm_db = db\<rparr>"

definition tx_DB :: "'x tx_lib \<Rightarrow> tx_manager option \<Rightarrow> go_context \<Rightarrow> nat option outcome" where
  "tx_DB lib m ctx =
     (case TxFromContext ctx of
        Some tx \<Rightarrow> Ret (Some tx)
      | None \<Rightarrow>
          (case m of
             None \<Rightarrow> Ret None
           | Some m \<Rightarrow>
               (case tm_db m of
                  None \<Rightarrow> Panic nil_dereference
                | Some db \<Rightarrow> Ret (Some (tx_WithContext lib db ctx)))))"

definition WithTx ::
    "'x tx_lib \<Rightarrow> tx_manager option \<Rightarrow> go_context
      \<Rightarrow> (go_context \<Rightarrow> nat \<Rightarrow> 'x \<Rightarrow> go_error option \<times> 'x) \<Rightarrow> 'x \<Rightarrow> go_error option \<times> 'x" where
  "WithTx lib m ctx fn s =
     (case (case m of None \<Rightarrow> None | Some m \<Rightarrow> tm_db m) of
        None \<Rightarrow> (Some (Errorf ''tx manager db is nil''), s)
      | Some db \<Rightarrow>
          (case TxFromContext ctx of
             Some existing \<Rightarrow> fn ctx existing s
           | None \<Rightarrow>
               tx_Transaction lib (tx_WithContext lib db ctx)
                 (\<lambda>tx. fn (NewTxContext ctx (Some tx)) tx) s))"

text \<open>\<open>Transaction\<close> of \<open>src/db/mysql.go\<close>.\<close>

definition db_Transaction ::
    "'x tx_lib \<Rightarrow> go_context \<Rightarrow> nat option \<Rightarrow> (nat \<Rightarrow> 'x \<Rightarrow> go_error option \<times> 'x) \<Rightarrow> 'x
      \<Rightarrow> go_error option \<times> 'x" where
  "db_Transaction lib ctx db fn s =
     (case db of
        None \<Rightarrow> (Some (Errorf ''gorm db is nil''), s)
      | Some db \<Rightarrow> tx_Transaction lib (tx_WithContext lib db ctx) fn s)"

definition db_Exec :: "'x tx_lib \<Rightarrow> go_context \<Rightarrow> nat option \<Rightarrow> string \<Rightarrow> any list \<Rightarrow> 'x \<Rightarrow> go_error option \<times> 'x" where
  "db_Exec lib ctx db sql args s =
     (case db of
        None \<Rightarrow> (Some (Errorf ''gorm db is nil''), s)
      | Some db \<Rightarrow> tx_Exec lib (tx_WithContext lib db ctx) sql args s)"

lemma TxFromContext_New [simp]: "TxFromContext (NewTxContext ctx tx) = tx"
  by (simp add: TxFromContext_def NewTxContext_def)

text \<open>
  What GORM promises: the function runs once on a new handle; its effects are kept when it returns nil
  and the commit succeeds, and dropped on an error.
\<close>

locale transactions =
  fixes lib :: "'x tx_lib" and data :: "'x \<Rightarrow> 'd"
  assumes commit: "tx_Transaction lib db f s = (None, s') \<Longrightarrow>
      \<exists>tx s0 s1. data s0 = data s \<and> f tx s0 = (None, s1) \<and> data s' = data s1"
    and rollback: "tx_Transaction lib db f s = (Some e, s') \<Longrightarrow> data s' = data s"
begin

text \<open>\<open>WithTx\<close> at the outermost level is atomic.\<close>

lemma WithTx_rollback:
  "TxFromContext ctx = None \<Longrightarrow> WithTx lib m ctx fn s = (Some e, s') \<Longrightarrow> data s' = data s"
  by (auto simp: WithTx_def dest: rollback split: option.splits)

lemma WithTx_commit:
  assumes "TxFromContext ctx = None" and "WithTx lib m ctx fn s = (None, s')"
  shows "\<exists>tx s0 s1. data s0 = data s \<and> fn (NewTxContext ctx (Some tx)) tx s0 = (None, s1) \<and> data s' = data s1"
proof -
  from assms obtain db where "tx_Transaction lib db (\<lambda>tx. fn (NewTxContext ctx (Some tx)) tx) s = (None, s')"
    by (auto simp: WithTx_def split: option.splits)
  from commit [OF this] show ?thesis by blast
qed

end

text \<open>A nested \<open>WithTx\<close> runs in the transaction of the context, on the same handle.\<close>

lemma WithTx_nested:
  "tm_db m = Some db \<Longrightarrow> TxFromContext ctx = Some tx \<Longrightarrow> WithTx lib (Some m) ctx fn s = fn ctx tx s"
  by (simp add: WithTx_def)

section \<open>A database in memory\<close>

definition mem_tx :: "'d list tx_lib" where
  "mem_tx =
     \<lparr>tx_WithContext = (\<lambda>db ctx. db),
      tx_Transaction = (\<lambda>db f s. case f (Suc db) s of (None, s') \<Rightarrow> (None, s') | (Some e, s') \<Rightarrow> (Some e, s)),
      tx_Exec = (\<lambda>db sql args s. (None, s))\<rparr>"

interpretation mem_transactions: transactions mem_tx "\<lambda>s. s"
  by unfold_locales (auto simp: mem_tx_def split: prod.splits option.splits)

definition mem_query :: "('t list, 't) query_lib" where
  "mem_query =
     \<lparr>ql_Count = (\<lambda>s. (Inr (int (length s)), s)),
      ql_Find = (\<lambda>off lim ord s. (Inr (take (nat lim) (drop (nat off) s)), s))\<rparr>"

interpretation mem_rows: stable_query mem_query "\<lambda>_. xs" "\<lambda>s. s = xs" for xs
  by unfold_locales (auto simp: mem_query_def)

section \<open>Properties of pages, JSON columns and transactions\<close>


definition two_per_page :: page_request where
  "two_per_page = \<lparr>pg_Page = 9, pg_PageSize = 2, pg_Sort = [], pg_SortBy = [], pg_SortOrder = []\<rparr>"

lemma page_run:
  "0 < n \<Longrightarrow> n \<le> 2 ^ 55 \<Longrightarrow> PaginateSafe mem_query (two_per_page\<lparr>pg_Page := n\<rparr>) [] xs =
     (Inr \<lparr>pq_Items = take 2 (drop (nat ((n - 1) * 2)) xs), pq_Total = int (length xs), pq_Page = n,
            pq_PageSize = 2\<rparr>, xs)"
  by (simp add: PaginateSafe_def paginateWithSort_def NormalizePage_def two_per_page_def
      page_offset_def int64_id mem_query_def Let_def)

lemma three_pages:
  "\<exists>ys s'. fetch_pages mem_query two_per_page [] 3 xs = (Inr ys, s')"
  by (simp add: numeral_3_eq_3 page_run)


text \<open>
  C33: bounds of a page. Whatever the request, the page that is fetched is at least 1 and has 1 to 200
  rows, normalising again changes nothing, and the offset is computed without wrap-around for every page
  up to 2 to the 55.
\<close>

theorem page_bounds:
  "1 \<le> pg_Page (NormalizePage req) \<and>
   1 \<le> pg_PageSize (NormalizePage req) \<and> pg_PageSize (NormalizePage req) \<le> 200 \<and>
   NormalizePage (NormalizePage req) = NormalizePage req \<and>
   (pg_Page req \<le> 2 ^ 55 \<longrightarrow>
     page_offset (NormalizePage req) =
       (pg_Page (NormalizePage req) - 1) * pg_PageSize (NormalizePage req))"
  using NormalizePage_bounds page_offset_exact by simp

theorem page_bounds_witness:
  "page_offset (NormalizePage (two_per_page\<lparr>pg_PageSize := 1000\<rparr>)) = 8 * 200"
  using page_bounds [of "two_per_page\<lparr>pg_PageSize := 1000\<rparr>"]
  by (simp add: NormalizePage_def two_per_page_def)

text \<open>For larger pages the offset can wrap around and become negative.\<close>

lemma page_offset_wraps:
  "page_offset (NormalizePage (two_per_page\<lparr>pg_Page := 2 ^ 62 + 1\<rparr>)) = - (2 ^ 63)"
  by (simp add: NormalizePage_def two_per_page_def page_offset_def int64_def)

text \<open>
  Sorting stays within the allow list. When PaginateSafe is given an allow list that is not empty, an
  ORDER BY reaches the query only with a column of that list, the one listed under the requested name,
  whatever the raw sort string of the request is.
\<close>

theorem sort_is_allowed:
  assumes "allowed \<noteq> []" and "ApplySort (NormalizePage req) allowed = Some ord"
  shows "\<exists>column desc. ord = OrderByColumn column desc \<and> (pg_SortBy req, column) \<in> set allowed"
  using ApplySort_allowed [OF assms] by simp

definition by_created :: page_request where
  "by_created = two_per_page\<lparr>pg_Sort := ''1; DROP TABLE t'', pg_SortBy := ''created'', pg_SortOrder := ''DESC''\<rparr>"

theorem sort_is_allowed_witness:
  "\<exists>ord column desc. ApplySort (NormalizePage by_created) [(''created'', ''created_at'')] = Some ord \<and>
    ord = OrderByColumn column desc \<and> (''created'', column) \<in> set [(''created'', ''created_at'')]"
proof -
  obtain ord where o: "ApplySort (NormalizePage by_created) [(''created'', ''created_at'')] = Some ord"
    by (simp add: ApplySort_def NormalizePage_def two_per_page_def by_created_def trim_eval Let_def)
  from sort_is_allowed [OF _ o] o show ?thesis by (auto simp: by_created_def)
qed

text \<open>
  C35: a JSON column comes back. Scanning what Value wrote into a fresh column gives the column again,
  SQL NULL included, and the same holds for the JSON encoding of a column unless its data is itself
  encoded as null.
\<close>

theorem jsonb_roundtrip:
  assumes "codec_ok js" and "jb_Null j \<longrightarrow> jb_Data j = jx_zero js"
  shows "(\<forall>v. jsonb_Value js j = Inr v \<longrightarrow> jsonb_Scan js v (zero_jsonb js) = (None, j)) \<and>
    (\<forall>b. jsonb_MarshalJSON js j = Inr b \<longrightarrow> (\<not> jb_Null j \<longrightarrow> b \<noteq> ''null'') \<longrightarrow>
       jsonb_UnmarshalJSON js b (zero_jsonb js) = (None, j))"
  using jsonb_Scan_Value [OF assms(1)] jsonb_UnmarshalJSON_MarshalJSON [OF assms(1)] assms(2) by blast

definition flag_codec :: "bool jsonb_codec" where
  "flag_codec = \<lparr>jx_Marshal = (\<lambda>b. Inr (if b then ''true'' else ''false'')),
     jx_Unmarshal = (\<lambda>t old. if t = ''true'' then (None, True) else if t = ''false'' then (None, False)
        else (Some (ErrExt ''invalid character''), old)), jx_zero = False\<rparr>"

theorem jsonb_roundtrip_witness:
  "jsonb_Value flag_codec \<lparr>jb_Data = True, jb_Null = False\<rparr> = Inr (SqlString ''true'') \<and>
   jsonb_Scan flag_codec (SqlString ''true'') (zero_jsonb flag_codec) =
     (None, \<lparr>jb_Data = True, jb_Null = False\<rparr>)"
proof -
  have v: "jsonb_Value flag_codec \<lparr>jb_Data = True, jb_Null = False\<rparr> = Inr (SqlString ''true'')"
    by (simp add: jsonb_Value_def flag_codec_def)
  have "codec_ok flag_codec" by (simp add: codec_ok_def flag_codec_def)
  from jsonb_roundtrip [OF this, of "\<lparr>jb_Data = True, jb_Null = False\<rparr>"] v show ?thesis by simp
qed



end
