(* ===== verification/Object_Store.thy ===== *)
theory Object_Store
  imports Metrics Retry Db_Query
begin

text \<open>
  The object store of \<open>src/objectstore/objectstore.go\<close> and \<open>src/objectstore/minio.go\<close>. The MinIO SDK client
  is a parameter, the record \<open>minio_sdk\<close>, over the state \<open>'x\<close> of the server; an open object reader is a
  number. Sizes and offsets are \<open>int64\<close> and wrap.
\<close>

section \<open>Requests\<close>

record minio_config =
  mo_Provider :: string
  mo_Endpoint :: string
  mo_AccessKey :: string
  mo_SecretKey :: string
  mo_SessionToken :: string
  mo_Bucket :: string
  mo_Region :: string
  mo_UseSSL :: bool
  mo_AutoCreateBucket :: bool

record object_info =
  oi_Bucket :: string
  oi_Key :: string
  oi_Size :: int
  oi_ETag :: string
  oi_ContentType :: string
  oi_LastModified :: gtime

definition zero_object_info :: object_info where
  "zero_object_info =
     \<lparr>oi_Bucket = [], oi_Key = [], oi_Size = 0, oi_ETag = [], oi_ContentType = [], oi_LastModified = 0\<rparr>"

record put_options =
  po_ContentType :: string
  po_Metadata :: "(string \<times> string) list"
  po_CacheControl :: string

record get_options =
  go_Offset :: int
  go_Length :: int

record list_options =
  lp_Prefix :: string
  lp_Recursive :: bool
  lp_Limit :: int

section \<open>The SDK client\<close>

text \<open>The range that a read asks for: none, from an offset to the end, or both ends inclusive.\<close>

datatype byte_range = WholeObject | FromOffset int | Between int int | LastBytes int

record sdk_object =
  so_Key :: string
  so_Size :: int
  so_ETag :: string
  so_ContentType :: string
  so_LastModified :: gtime

record 'x minio_sdk =
  mi_BucketExists :: "string \<Rightarrow> 'x \<Rightarrow> (bool \<times> go_error option) \<times> 'x"
  mi_MakeBucket :: "string \<Rightarrow> string \<Rightarrow> 'x fallible"
  mi_PutObject :: "string \<Rightarrow> string \<Rightarrow> string \<Rightarrow> int \<Rightarrow> put_options \<Rightarrow> 'x \<Rightarrow> (go_error + string \<times> sdk_object) \<times> 'x"
  mi_GetObject :: "string \<Rightarrow> string \<Rightarrow> byte_range \<Rightarrow> 'x \<Rightarrow> (go_error + nat) \<times> 'x"
  mi_ObjectStat :: "nat \<Rightarrow> 'x \<Rightarrow> (go_error + sdk_object) \<times> 'x"
  mi_ObjectClose :: "nat \<Rightarrow> 'x fallible"
  mi_RemoveObject :: "string \<Rightarrow> string \<Rightarrow> 'x fallible"
  mi_StatObject :: "string \<Rightarrow> string \<Rightarrow> 'x \<Rightarrow> (go_error + sdk_object) \<times> 'x"
  mi_ListObjects :: "string \<Rightarrow> string \<Rightarrow> bool \<Rightarrow> 'x \<Rightarrow> (go_error + sdk_object) list \<times> 'x"
  mi_CopyObject :: "string \<Rightarrow> string \<Rightarrow> string \<Rightarrow> (string \<times> string) list \<Rightarrow> 'x \<Rightarrow> (go_error + sdk_object) \<times> 'x"
  mi_PresignedPutObject :: "string \<Rightarrow> string \<Rightarrow> duration \<Rightarrow> 'x \<Rightarrow> (go_error + string) \<times> 'x"
  mi_PresignedGetObject :: "string \<Rightarrow> string \<Rightarrow> duration \<Rightarrow> 'x \<Rightarrow> (go_error + string) \<times> 'x"

text \<open>\<open>GetObjectOptions.SetRange\<close> of the SDK, as its documentation gives it.\<close>

definition SetRange :: "int \<Rightarrow> int \<Rightarrow> go_error + byte_range" where
  "SetRange start end =
     (if start = 0 \<and> end < 0 then Inr (LastBytes (- end))
      else if 0 < start \<and> end = 0 then Inr (FromOffset start)
      else if 0 \<le> start \<and> start \<le> end then Inr (Between start end)
      else Inl (ErrExt ''Invalid range specified''))"

record 'x minio_client =
  mn_cfg :: minio_config
  mn_client :: "'x minio_sdk"

definition observe_minio :: "string \<Rightarrow> go_error option \<Rightarrow> 'x \<Rightarrow> 'x world \<Rightarrow> 'x world" where
  "observe_minio oper err s w = observe_dependency ''minio'' oper err (w\<lparr>service := s\<rparr>)"

lemma service_observe_minio [simp]: "service (observe_minio oper err s w) = s"
  by (simp add: observe_minio_def)

section \<open>Operations\<close>

definition minio_Bucket :: "'x minio_client \<Rightarrow> string" where
  "minio_Bucket m = mo_Bucket (mn_cfg m)"

definition minio_BucketExists :: "'x minio_client \<Rightarrow> 'x world \<Rightarrow> (bool \<times> go_error option) \<times> 'x world" where
  "minio_BucketExists m w =
     (case mi_BucketExists (mn_client m) (mo_Bucket (mn_cfg m)) (service w) of
        ((exists, err), s) \<Rightarrow>
          (let w' = observe_minio ''bucket_exists'' err s w
           in case err of
                Some e \<Rightarrow> ((False, Some (wrapf (''check bucket '' @ mo_Bucket (mn_cfg m) @ '': '') e [])), w')
              | None \<Rightarrow> ((exists, None), w')))"

definition minio_EnsureBucket :: "'x minio_client \<Rightarrow> 'x world \<Rightarrow> go_error option \<times> 'x world" where
  "minio_EnsureBucket m w =
     (case minio_BucketExists m w of
        ((exists, Some err), w1) \<Rightarrow> (Some err, w1)
      | ((exists, None), w1) \<Rightarrow>
          if exists then (None, w1)
          else (case mi_MakeBucket (mn_client m) (mo_Bucket (mn_cfg m)) (mo_Region (mn_cfg m)) (service w1) of
                  (Some err, s) \<Rightarrow>
                    (Some (wrapf (''make bucket '' @ mo_Bucket (mn_cfg m) @ '': '') err []),
                     observe_minio ''make_bucket'' (Some err) s w1)
                | (None, s) \<Rightarrow> (None, observe_minio ''make_bucket'' None s w1)))"

definition NewMinIO ::
    "(minio_config \<Rightarrow> go_error + 'x minio_sdk) \<Rightarrow> minio_config \<Rightarrow> 'x world
      \<Rightarrow> (go_error + 'x minio_client) \<times> 'x world" where
  "NewMinIO New cfg w =
     (if mo_Provider cfg \<noteq> [] \<and> mo_Provider cfg \<noteq> ''minio''
      then (Inl (Errorf (''unsupported objectstore provider '' @ strconv_Quote (mo_Provider cfg))), w)
      else if mo_Endpoint cfg = [] \<or> mo_AccessKey cfg = [] \<or> mo_SecretKey cfg = [] \<or> mo_Bucket cfg = []
      then (Inl (Errorf ''endpoint/access_key/secret_key/bucket are required''), w)
      else (case New cfg of
              Inl err \<Rightarrow> (Inl (wrapf ''new minio: '' err []), observe_dependency ''minio'' ''new'' (Some err) w)
            | Inr cli \<Rightarrow>
                (let m = \<lparr>mn_cfg = cfg, mn_client = cli\<rparr>
                 in case minio_BucketExists m w of
                      ((exists, Some err), w1) \<Rightarrow>
                        (Inl err, observe_dependency ''minio'' ''bucket_exists'' (Some err) w1)
                    | ((exists, None), w1) \<Rightarrow>
                        (case (if \<not> exists \<and> mo_AutoCreateBucket cfg then minio_EnsureBucket m w1 else (None, w1)) of
                           (Some err, w2) \<Rightarrow> (Inl err, w2)
                         | (None, w2) \<Rightarrow> (Inr m, observe_dependency ''minio'' ''init'' None w2)))))"

definition minio_PutObject ::
    "'x minio_client \<Rightarrow> string \<Rightarrow> string \<Rightarrow> int \<Rightarrow> put_options \<Rightarrow> 'x world
      \<Rightarrow> (go_error + object_info) \<times> 'x world" where
  "minio_PutObject m key body sz opts w =
     (case mi_PutObject (mn_client m) (mo_Bucket (mn_cfg m)) key body sz opts (service w) of
        (Inl err, s) \<Rightarrow> (Inl err, observe_minio ''put_object'' (Some err) s w)
      | (Inr (bucket, mi), s) \<Rightarrow>
          (Inr \<lparr>oi_Bucket = bucket, oi_Key = so_Key mi, oi_Size = so_Size mi, oi_ETag = so_ETag mi,
                oi_ContentType = po_ContentType opts, oi_LastModified = 0\<rparr>,
           observe_minio ''put_object'' None s w))"

definition sdk_info :: "'x minio_client \<Rightarrow> sdk_object \<Rightarrow> object_info" where
  "sdk_info m st =
     \<lparr>oi_Bucket = mo_Bucket (mn_cfg m), oi_Key = so_Key st, oi_Size = so_Size st, oi_ETag = so_ETag st,
      oi_ContentType = so_ContentType st, oi_LastModified = so_LastModified st\<rparr>"

definition get_range :: "get_options \<Rightarrow> go_error + byte_range" where
  "get_range opts =
     (if 0 < go_Length opts
      then SetRange (go_Offset opts) (int64 (int64 (go_Offset opts + go_Length opts) - 1))
      else if 0 < go_Offset opts then SetRange (go_Offset opts) 0
      else Inr WholeObject)"

definition minio_GetObject ::
    "'x minio_client \<Rightarrow> string \<Rightarrow> get_options \<Rightarrow> 'x world
      \<Rightarrow> (go_error + nat \<times> object_info) \<times> 'x world" where
  "minio_GetObject m key opts w =
     (case get_range opts of
        Inl err \<Rightarrow> (Inl err, w)
      | Inr rng \<Rightarrow>
          (case mi_GetObject (mn_client m) (mo_Bucket (mn_cfg m)) key rng (service w) of
             (Inl err, s) \<Rightarrow> (Inl err, observe_minio ''get_object'' (Some err) s w)
           | (Inr obj, s) \<Rightarrow>
               (case mi_ObjectStat (mn_client m) obj s of
                  (Inl err, s1) \<Rightarrow>
                    (Inl err, observe_minio ''get_object'' (Some err)
                       (snd (mi_ObjectClose (mn_client m) obj s1)) w)
                | (Inr st, s1) \<Rightarrow>
                    (Inr (obj, sdk_info m st), observe_minio ''get_object'' None s1 w))))"

definition minio_DeleteObject ::
    "'x minio_client \<Rightarrow> string \<Rightarrow> 'x world \<Rightarrow> go_error option \<times> 'x world" where
  "minio_DeleteObject m key w =
     (case mi_RemoveObject (mn_client m) (mo_Bucket (mn_cfg m)) key (service w) of
        (err, s) \<Rightarrow> (err, observe_minio ''delete_object'' err s w))"

definition minio_StatObject ::
    "'x minio_client \<Rightarrow> string \<Rightarrow> 'x world \<Rightarrow> (go_error + object_info) \<times> 'x world" where
  "minio_StatObject m key w =
     (case mi_StatObject (mn_client m) (mo_Bucket (mn_cfg m)) key (service w) of
        (Inl err, s) \<Rightarrow> (Inl err, observe_minio ''stat_object'' (Some err) s w)
      | (Inr st, s) \<Rightarrow> (Inr (sdk_info m st), observe_minio ''stat_object'' None s w))"

text \<open>The loop of \<open>ListObjects\<close> over the channel: \<open>items\<close> are the objects so far.\<close>

fun list_loop ::
    "'x minio_client \<Rightarrow> int \<Rightarrow> (go_error + sdk_object) list \<Rightarrow> object_info list
      \<Rightarrow> object_info list \<times> go_error option" where
  "list_loop m limit [] items = (items, None)"
| "list_loop m limit (Inl err # rest) items = (items, Some err)"
| "list_loop m limit (Inr obj # rest) items =
     (let items' = items @ [sdk_info m obj]
      in if 0 < limit \<and> limit \<le> int (length items') then (items', None)
         else list_loop m limit rest items')"

definition minio_ListObjects ::
    "'x minio_client \<Rightarrow> list_options \<Rightarrow> 'x world \<Rightarrow> (go_error + object_info list) \<times> 'x world" where
  "minio_ListObjects m opts w =
     (case mi_ListObjects (mn_client m) (mo_Bucket (mn_cfg m)) (lp_Prefix opts) (lp_Recursive opts) (service w) of
        (ch, s) \<Rightarrow>
          (case list_loop m (lp_Limit opts) ch [] of
             (items, err) \<Rightarrow>
               (let w' = observe_minio ''list_objects'' err s w
                in case err of Some e \<Rightarrow> (Inl e, w') | None \<Rightarrow> (Inr items, w'))))"

definition minio_CopyObject ::
    "'x minio_client \<Rightarrow> string \<Rightarrow> string \<Rightarrow> put_options \<Rightarrow> 'x world \<Rightarrow> (go_error + object_info) \<times> 'x world" where
  "minio_CopyObject m srcKey dstKey opts w =
     (case mi_CopyObject (mn_client m) (mo_Bucket (mn_cfg m)) srcKey dstKey (po_Metadata opts) (service w) of
        (Inl err, s) \<Rightarrow> (Inl err, observe_minio ''copy_object'' (Some err) s w)
      | (Inr info, s) \<Rightarrow>
          (Inr (zero_object_info\<lparr>oi_Bucket := mo_Bucket (mn_cfg m), oi_Key := so_Key info,
                  oi_Size := so_Size info, oi_ETag := so_ETag info\<rparr>),
           observe_minio ''copy_object'' None s w))"

definition presigned :: "(go_error + string) \<times> 'x \<Rightarrow> string \<Rightarrow> 'x world \<Rightarrow> (go_error + string) \<times> 'x world" where
  "presigned r oper w =
     (case r of
        (Inl err, s) \<Rightarrow> (Inl err, observe_minio oper (Some err) s w)
      | (Inr u, s) \<Rightarrow> (Inr u, observe_minio oper None s w))"

definition minio_PresignPut ::
    "'x minio_client \<Rightarrow> string \<Rightarrow> duration \<Rightarrow> 'x world \<Rightarrow> (go_error + string) \<times> 'x world" where
  "minio_PresignPut m key ttl w =
     presigned (mi_PresignedPutObject (mn_client m) (mo_Bucket (mn_cfg m)) key ttl (service w)) ''presign_put'' w"

definition minio_PresignGet ::
    "'x minio_client \<Rightarrow> string \<Rightarrow> duration \<Rightarrow> 'x world \<Rightarrow> (go_error + string) \<times> 'x world" where
  "minio_PresignGet m key ttl w =
     presigned (mi_PresignedGetObject (mn_client m) (mo_Bucket (mn_cfg m)) key ttl (service w)) ''presign_get'' w"

section \<open>Facts\<close>

text \<open>A range of \<open>Length\<close> bytes from \<open>Offset\<close>, when neither is negative and the sum does not wrap.\<close>

lemma get_range_exact:
  assumes "0 \<le> go_Offset opts" and "0 < go_Length opts" and "go_Offset opts + go_Length opts < 2 ^ 63"
  shows "get_range opts = Inr (Between (go_Offset opts) (go_Offset opts + go_Length opts - 1))"
  using assms by (auto simp: get_range_def SetRange_def int64_id)

lemma list_loop_ok:
  assumes "list_loop m limit ch items = (out, None)"
  shows "\<exists>n objs. out = items @ map (sdk_info m) objs \<and> take n ch = map Inr objs \<and>
    (n = length ch \<or> 0 < limit \<and> limit \<le> int (length out))"
  using assms
proof (induction m limit ch items rule: list_loop.induct)
  case (1 m limit items)
  then show ?case by (auto intro: exI [of _ 0] exI [of _ "[]"])
next
  case (3 m limit obj rest items)
  show ?case
  proof (cases "0 < limit \<and> limit \<le> int (length (items @ [sdk_info m obj]))")
    case True
    with 3 have "out = items @ map (sdk_info m) [obj]" by (simp add: Let_def)
    with True show ?thesis by (intro exI [of _ 1] exI [of _ "[obj]"]) auto
  next
    case False
    with 3 obtain n objs where
      "out = (items @ [sdk_info m obj]) @ map (sdk_info m) objs" "take n rest = map Inr objs"
      "n = length rest \<or> 0 < limit \<and> limit \<le> int (length out)"
      by (auto simp: Let_def split: if_splits)
    then show ?thesis by (intro exI [of _ "Suc n"] exI [of _ "obj # objs"]) auto
  qed
qed simp

lemma list_loop_limit:
  "list_loop m limit ch items = (out, None) \<Longrightarrow> 0 < limit \<Longrightarrow> int (length items) < limit \<Longrightarrow>
    int (length out) \<le> limit"
  by (induction m limit ch items rule: list_loop.induct) (auto simp: Let_def split: if_splits)

section \<open>Properties of the object store\<close>

text \<open>
  Listing. When ListObjects returns no error, its result is the list of objects that the server
  listed, in that order, cut off at the limit of the request when there is one; nothing is skipped and
  nothing is listed twice, and an error entry before the cut is reported.
\<close>

theorem list_objects_prefix:
  assumes "minio_ListObjects m opts w = (Inr items, w')"
  shows "\<exists>ch n objs. fst (mi_ListObjects (mn_client m) (mo_Bucket (mn_cfg m)) (lp_Prefix opts)
      (lp_Recursive opts) (service w)) = ch \<and>
    items = map (sdk_info m) objs \<and> take n ch = map Inr objs \<and>
    (n = length ch \<or> 0 < lp_Limit opts \<and> int (length items) = lp_Limit opts) \<and>
    (0 < lp_Limit opts \<longrightarrow> int (length items) \<le> lp_Limit opts)"
proof -
  obtain ch s where ch: "mi_ListObjects (mn_client m) (mo_Bucket (mn_cfg m)) (lp_Prefix opts)
      (lp_Recursive opts) (service w) = (ch, s)" by fastforce
  have run: "list_loop m (lp_Limit opts) ch [] = (items, None)"
    using assms ch by (auto simp: minio_ListObjects_def Let_def split: prod.splits option.splits)
  have lim: "0 < lp_Limit opts \<Longrightarrow> int (length items) \<le> lp_Limit opts"
    using list_loop_limit [OF run] by simp
  show ?thesis using list_loop_ok [OF run] ch lim by fastforce
qed

definition listed :: "nat \<Rightarrow> sdk_object" where
  "listed n = \<lparr>so_Key = replicate n CHR ''k'', so_Size = int n, so_ETag = [], so_ContentType = [], so_LastModified = 0\<rparr>"

definition three_objects :: "nat minio_sdk" where
  "three_objects =
     \<lparr>mi_BucketExists = (\<lambda>b s. ((True, None), s)), mi_MakeBucket = (\<lambda>b r s. (None, s)),
      mi_PutObject = (\<lambda>b k c n p s. (Inl (ErrExt ''read only''), s)),
      mi_GetObject = (\<lambda>b k r s. (Inl (ErrExt ''no key''), s)), mi_ObjectStat = (\<lambda>n s. (Inr (listed n), s)),
      mi_ObjectClose = (\<lambda>n s. (None, s)), mi_RemoveObject = (\<lambda>b k s. (None, s)),
      mi_StatObject = (\<lambda>b k s. (Inr (listed 1), s)),
      mi_ListObjects = (\<lambda>b p r s. ([Inr (listed 1), Inr (listed 2), Inl (ErrExt ''timeout'')], s)),
      mi_CopyObject = (\<lambda>b k k' m s. (Inr (listed 1), s)),
      mi_PresignedPutObject = (\<lambda>b k d s. (Inr k, s)), mi_PresignedGetObject = (\<lambda>b k d s. (Inr k, s))\<rparr>"

theorem list_objects_prefix_witness:
  "\<exists>cfg items w'. minio_ListObjects \<lparr>mn_cfg = cfg, mn_client = three_objects\<rparr>
      \<lparr>lp_Prefix = [], lp_Recursive = True, lp_Limit = 2\<rparr> \<lparr>service = 0, w_metrics = None\<rparr> = (Inr items, w') \<and>
    int (length items) \<le> 2"
proof -
  let ?cfg = "\<lparr>mo_Provider = [], mo_Endpoint = ''e'', mo_AccessKey = ''a'', mo_SecretKey = ''s'',
    mo_SessionToken = [], mo_Bucket = ''b'', mo_Region = [], mo_UseSSL = False, mo_AutoCreateBucket = False\<rparr>"
  obtain items w' where r: "minio_ListObjects \<lparr>mn_cfg = ?cfg, mn_client = three_objects\<rparr>
      \<lparr>lp_Prefix = [], lp_Recursive = True, lp_Limit = 2\<rparr> \<lparr>service = 0, w_metrics = None\<rparr> = (Inr items, w')"
    by (simp add: minio_ListObjects_def three_objects_def Let_def)
  from list_objects_prefix [OF r] r show ?thesis by fastforce
qed

end
