(* ===== verification/Go_SHA256.thy ===== *)
theory Go_SHA256
  imports Go_Numbers "HOL-Library.Word"
begin

unbundle bit_operations_syntax

text \<open>
  \<open>crypto/sha256.Sum256\<close>, by which \<open>src/session/session.go\<close> turns a token into a Redis key: the hash
  of FIPS 180-4 on bytes, with 32-bit words that wrap. A byte string is a list of characters.
\<close>

type_synonym w32 = "32 word"

text \<open>
  The round constants: the first 32 bits of the fractional parts of the cube roots of the first 64
  primes; the initial state has those of the square roots of the first eight.
\<close>

definition sha256_k :: "nat list" where
  "sha256_k =
    [1116352408, 1899447441, 3049323471, 3921009573, 961987163, 1508970993, 2453635748, 2870763221,
     3624381080, 310598401, 607225278, 1426881987, 1925078388, 2162078206, 2614888103, 3248222580,
     3835390401, 4022224774, 264347078, 604807628, 770255983, 1249150122, 1555081692, 1996064986,
     2554220882, 2821834349, 2952996808, 3210313671, 3336571891, 3584528711, 113926993, 338241895,
     666307205, 773529912, 1294757372, 1396182291, 1695183700, 1986661051, 2177026350, 2456956037,
     2730485921, 2820302411, 3259730800, 3345764771, 3516065817, 3600352804, 4094571909, 275423344,
     430227734, 506948616, 659060556, 883997877, 958139571, 1322822218, 1537002063, 1747873779,
     1955562222, 2024104815, 2227730452, 2361852424, 2428436474, 2756734187, 3204031479, 3329325298]"

definition sha256_h0 :: "nat list" where
  "sha256_h0 =
    [1779033703, 3144134277, 1013904242, 2773480762, 1359893119, 2600822924, 528734635, 1541459225]"

definition sha256_K :: "w32 list" where
  "sha256_K = map of_nat sha256_k"

definition sha256_H0 :: "w32 list" where
  "sha256_H0 = map of_nat sha256_h0"

definition be_bytes :: "nat \<Rightarrow> nat \<Rightarrow> string" where
  "be_bytes n v = map (\<lambda>i. char_of (v div 256 ^ (n - 1 - i) mod 256)) [0..<n]"

definition sha256_pad :: "string \<Rightarrow> string" where
  "sha256_pad m =
     m @ [CHR 0x80] @ replicate ((119 - length m mod 64) mod 64) (CHR 0x00) @
     be_bytes 8 (8 * length m mod 2 ^ 64)"

definition be_word :: "string \<Rightarrow> w32" where
  "be_word bs = foldl (\<lambda>w b. push_bit 8 w OR of_nat (of_char b)) 0 bs"

fun chunks :: "nat \<Rightarrow> 'a list \<Rightarrow> 'a list list" where
  "chunks n xs = (if n = 0 \<or> xs = [] then [] else take n xs # chunks n (drop n xs))"

declare chunks.simps [simp del]

text \<open>The message schedule, latest word first.\<close>

definition schedule_step :: "w32 list \<Rightarrow> w32 list" where
  "schedule_step ws =
     (let w2 = ws ! 1; w15 = ws ! 14;
          s1 = word_rotr 17 w2 XOR word_rotr 19 w2 XOR drop_bit 10 w2;
          s0 = word_rotr 7 w15 XOR word_rotr 18 w15 XOR drop_bit 3 w15
      in (s1 + ws ! 6 + s0 + ws ! 15) # ws)"

definition sha256_schedule :: "w32 list \<Rightarrow> w32 list" where
  "sha256_schedule block = rev ((schedule_step ^^ 48) (rev block))"

fun sha256_round :: "w32 list \<Rightarrow> w32 \<times> w32 \<Rightarrow> w32 list" where
  "sha256_round [a, b, c, d, e, f, g, h] (k, w) =
     (let t1 = h + (word_rotr 6 e XOR word_rotr 11 e XOR word_rotr 25 e) +
               ((e AND f) XOR (NOT e AND g)) + k + w;
          t2 = (word_rotr 2 a XOR word_rotr 13 a XOR word_rotr 22 a) +
               ((a AND b) XOR (a AND c) XOR (b AND c))
      in [t1 + t2, a, b, c, d + t1, e, f, g])"
| "sha256_round st _ = st"

definition sha256_block :: "w32 list \<Rightarrow> string \<Rightarrow> w32 list" where
  "sha256_block h bytes =
     map2 (+) h (foldl sha256_round h (zip sha256_K (sha256_schedule (map be_word (chunks 4 bytes)))))"

definition sha256_Sum256 :: "string \<Rightarrow> string" where
  "sha256_Sum256 m =
     concat (map (\<lambda>w. be_bytes 4 (unat w)) (foldl sha256_block sha256_H0 (chunks 64 (sha256_pad m))))"

definition sha256_primes :: "nat list" where
  "sha256_primes =
    [2, 3, 5, 7, 11, 13, 17, 19, 23, 29, 31, 37, 41, 43, 47, 53,
     59, 61, 67, 71, 73, 79, 83, 89, 97, 101, 103, 107, 109, 113, 127, 131,
     137, 139, 149, 151, 157, 163, 167, 173, 179, 181, 191, 193, 197, 199, 211, 223,
     227, 229, 233, 239, 241, 251, 257, 263, 269, 271, 277, 281, 283, 293, 307, 311]"

text \<open>\<open>x\<close> is the fraction of the \<open>n\<close>-th root of \<open>p\<close>, in 32 bits; \<open>r\<close> is the whole part.\<close>

definition root_fraction :: "nat \<Rightarrow> nat \<Rightarrow> nat \<Rightarrow> nat \<Rightarrow> bool" where
  "root_fraction n p r x \<longleftrightarrow>
     (r * 2 ^ 32 + x) ^ n \<le> p * 2 ^ (32 * n) \<and> p * 2 ^ (32 * n) < (r * 2 ^ 32 + x + 1) ^ n"

lemma sha256_K_roots:
  "list_all2 (\<lambda>p k. list_ex (\<lambda>r. root_fraction 3 p r k) [1, 2, 3, 4, 5, 6]) sha256_primes sha256_k"
  by (simp add: sha256_primes_def sha256_k_def root_fraction_def)

lemma sha256_H0_roots:
  "list_all2 (\<lambda>p k. list_ex (\<lambda>r. root_fraction 2 p r k) [1, 2, 3, 4]) (take 8 sha256_primes) sha256_h0"
  by (simp add: sha256_primes_def sha256_h0_def root_fraction_def)

lemma length_be_bytes [simp]: "length (be_bytes n v) = n"
  by (simp add: be_bytes_def)

lemma length_round [simp]: "length (sha256_round st x) = length st"
  by (cases "(st, x)" rule: sha256_round.cases) (simp_all add: Let_def)

lemma length_rounds [simp]: "length (foldl sha256_round st xs) = length st"
  by (induction xs arbitrary: st) simp_all

lemma length_block [simp]: "length (sha256_block h bytes) = length h"
  by (simp add: sha256_block_def)

lemma length_blocks [simp]: "length (foldl sha256_block h bs) = length h"
  by (induction bs arbitrary: h) simp_all

lemma length_Sum256 [simp]: "length (sha256_Sum256 m) = 32"
  by (simp add: sha256_Sum256_def length_concat comp_def sha256_H0_def sha256_h0_def sum_list_triv)

text \<open>Padding gives whole blocks.\<close>

lemma sha256_pad_blocks: "length (sha256_pad m) mod 64 = 0"
proof -
  have "(r + 9 + (119 - r) mod 64) mod 64 = 0" if "r < 64" for r :: nat
  proof (cases "r \<le> 55")
    case True
    then have "(119 - r) mod 64 = 55 - r" using mod_add_self2 [of "55 - r" 64] by simp
    with True show ?thesis by simp
  qed (use that in simp)
  from this [of "length m mod 64"] show ?thesis
    by (simp add: sha256_pad_def ac_simps) (metis mod_add_left_eq add.assoc add.commute)
qed

end
