(* ===== verification/Session.thy ===== *)
theory Session
  imports Redis_KV Go_SHA256
begin

text \<open>
  OAuth states and the token blacklist of \<open>src/session/session.go\<close>, kept in Redis. A nil manager is
  \<^term>\<open>None\<close>, a nil client the value \<^term>\<open>None\<close> of its field. The random bytes of a state are an
  argument.
\<close>

section \<open>Operations\<close>

abbreviation ErrStateMismatch :: go_error where
  "ErrStateMismatch \<equiv> ErrNew ''session'' ''oauth state mismatch''"

record session_config =
  ss_KeyPrefix :: string
  ss_StateTTL :: string
  ss_BlacklistPrefix :: string

record 'x session_manager =
  sm_rdb :: "'x redis_client option"
  sm_cfg :: session_config

definition session_NewManager :: "'x redis_client option \<Rightarrow> session_config \<Rightarrow> 'x session_manager" where
  "session_NewManager rdb cfg =
     (let c1 = (if ss_KeyPrefix cfg = [] then cfg\<lparr>ss_KeyPrefix := ''aisphere:session''\<rparr> else cfg);
          c2 = (if ss_BlacklistPrefix c1 = []
                then c1\<lparr>ss_BlacklistPrefix := ss_KeyPrefix c1 @ '':blacklist''\<rparr> else c1);
          c3 = (if ss_StateTTL c2 = [] then c2\<lparr>ss_StateTTL := ''10m''\<rparr> else c2)
      in \<lparr>sm_rdb = rdb, sm_cfg = c3\<rparr>)"

definition parseDurationOr :: "string \<Rightarrow> duration \<Rightarrow> duration" where
  "parseDurationOr t fallback =
     (case time_ParseDuration t of Inl _ \<Rightarrow> fallback | Inr d \<Rightarrow> if d \<le> 0 then fallback else d)"

definition session_key :: "session_config \<Rightarrow> string list \<Rightarrow> string" where
  "session_key cfg parts = strings_Join (strings_TrimSuffix (ss_KeyPrefix cfg) '':'' # parts) '':''"

definition hashToken :: "string \<Rightarrow> string" where
  "hashToken t = hex_EncodeToString (sha256_Sum256 t)"

definition blacklistKey :: "session_config \<Rightarrow> string \<Rightarrow> string" where
  "blacklistKey cfg tokenOrID =
     strings_TrimSuffix (ss_BlacklistPrefix cfg) '':'' @ '':'' @ hashToken tokenOrID"

definition session_redis :: "'x session_manager option \<Rightarrow> ('x redis_client \<times> session_config) option" where
  "session_redis m =
     (case m of None \<Rightarrow> None
      | Some m \<Rightarrow> map_option (\<lambda>rdb. (rdb, sm_cfg m)) (sm_rdb m))"

definition redis_is_nil :: go_error where
  "redis_is_nil = Errorf ''session redis is nil''"

definition NewState ::
    "'x session_manager option \<Rightarrow> go_error + string \<Rightarrow> string \<Rightarrow> 'x \<Rightarrow> (go_error + string) \<times> 'x" where
  "NewState m rand subject s =
     (case session_redis m of
        None \<Rightarrow> (Inl redis_is_nil, s)
      | Some (rdb, cfg) \<Rightarrow>
          (case rand of
             Inl err \<Rightarrow> (Inl err, s)
           | Inr b \<Rightarrow>
               (let state = hex_EncodeToString b;
                    ttl = parseDurationOr (ss_StateTTL cfg) (10 * Minute);
                    key = session_key cfg [''oauth_state'', state]
                in case rd_Set rdb key subject ttl s of
                     (Some err, s') \<Rightarrow> (Inl err, s')
                   | (None, s') \<Rightarrow> (Inr state, s'))))"

definition VerifyState ::
    "'x session_manager option \<Rightarrow> string \<Rightarrow> 'x \<Rightarrow> (go_error + string) \<times> 'x" where
  "VerifyState m state s =
     (case session_redis m of
        None \<Rightarrow> (Inl redis_is_nil, s)
      | Some (rdb, cfg) \<Rightarrow>
          if strings_TrimSpace state = [] then (Inl ErrStateMismatch, s)
          else (case rd_GetDel rdb (session_key cfg [''oauth_state'', state]) s of
                  (Inl err, s') \<Rightarrow> if err = redis_Nil then (Inl ErrStateMismatch, s') else (Inl err, s')
                | (Inr v, s') \<Rightarrow> (Inr v, s')))"

definition RevokeToken ::
    "'x session_manager option \<Rightarrow> string \<Rightarrow> duration \<Rightarrow> 'x \<Rightarrow> go_error option \<times> 'x" where
  "RevokeToken m tokenOrID ttl s =
     (case session_redis m of
        None \<Rightarrow> (Some redis_is_nil, s)
      | Some (rdb, cfg) \<Rightarrow>
          if strings_TrimSpace tokenOrID = [] then (None, s)
          else rd_Set rdb (blacklistKey cfg tokenOrID) ''1'' (if ttl \<le> 0 then 24 * Hour else ttl) s)"

definition IsRevoked ::
    "'x session_manager option \<Rightarrow> string \<Rightarrow> 'x \<Rightarrow> (bool \<times> go_error option) \<times> 'x" where
  "IsRevoked m tokenOrID s =
     (case session_redis m of
        None \<Rightarrow> ((False, None), s)
      | Some (rdb, cfg) \<Rightarrow>
          if strings_TrimSpace tokenOrID = [] then ((False, None), s)
          else (case rd_Exists rdb (blacklistKey cfg tokenOrID) s of
                  (Inl err, s') \<Rightarrow> ((False, Some err), s')
                | (Inr v, s') \<Rightarrow> ((0 < v, None), s')))"

section \<open>Facts about keys\<close>

lemma session_redis_Some [simp]:
  "session_redis (Some \<lparr>sm_rdb = Some c, sm_cfg = cfg\<rparr>) = Some (c, cfg)"
  by (simp add: session_redis_def)

lemma session_key_state:
  "session_key cfg [''oauth_state'', st] =
     strings_TrimSuffix (ss_KeyPrefix cfg) '':'' @ '':oauth_state:'' @ st"
  by (simp add: session_key_def)

lemma hex_char_not_space: "d < 16 \<Longrightarrow> \<not> is_space (hex_char d)"
proof -
  assume "d < 16"
  then have "48 \<le> (of_char (hex_char d) :: nat)" by (simp add: hex_char_def)
  then show ?thesis by (auto simp: is_space_def)
qed

lemma hex_not_blank: "bs \<noteq> [] \<Longrightarrow> strings_TrimSpace (hex_EncodeToString bs) \<noteq> []"
  using hex_char_not_space
  by (cases bs) (auto simp: TrimSpace_blank hex_EncodeToString_def hex_byte_def)

lemma length_hashToken [simp]: "length (hashToken t) = 64"
  by (simp add: hashToken_def)

lemma parseDurationOr_pos: "0 < fallback \<Longrightarrow> 0 < parseDurationOr t fallback"
  by (auto simp: parseDurationOr_def split: sum.splits)

section \<open>Facts about states and revocations\<close>

context redis_kv
begin

lemma NewState_stores:
  assumes "NewState (Some \<lparr>sm_rdb = Some c, sm_cfg = cfg\<rparr>) rand subject s = (Inr state, s')"
  shows "kv s' = (kv s)(session_key cfg [''oauth_state'', state] \<mapsto> subject) \<and>
    (\<exists>b. rand = Inr b \<and> state = hex_EncodeToString b)"
  using assms
  by (auto simp: NewState_def Let_def dest!: set_ok split: sum.splits prod.splits option.splits)

lemma VerifyState_consumes:
  assumes "VerifyState (Some \<lparr>sm_rdb = Some c, sm_cfg = cfg\<rparr>) state s = (Inr v, s')"
  shows "kv s (session_key cfg [''oauth_state'', state]) = Some v \<and>
    kv s' = (kv s)(session_key cfg [''oauth_state'', state] := None)"
  using assms
  by (auto simp: VerifyState_def dest: getdel_value split: sum.splits prod.splits if_splits)

lemma VerifyState_removes:
  assumes "VerifyState (Some \<lparr>sm_rdb = Some c, sm_cfg = cfg\<rparr>) state s = (Inl ErrStateMismatch, s')"
    and "\<And>key s s'. rd_GetDel c key s \<noteq> (Inl ErrStateMismatch, s')"
  shows "strings_TrimSpace state = [] \<or> kv s' (session_key cfg [''oauth_state'', state]) = None"
  using assms
  by (auto simp: VerifyState_def dest: getdel_nil split: sum.splits prod.splits if_splits)

lemma RevokeToken_marks:
  assumes "RevokeToken (Some \<lparr>sm_rdb = Some c, sm_cfg = cfg\<rparr>) t ttl s = (None, s')"
    and "strings_TrimSpace t \<noteq> []"
  shows "kv s' = (kv s)(blacklistKey cfg t \<mapsto> ''1'')"
  using assms by (auto simp: RevokeToken_def dest: set_ok)

lemma IsRevoked_reads:
  "IsRevoked (Some \<lparr>sm_rdb = Some c, sm_cfg = cfg\<rparr>) t s = (r, s') \<Longrightarrow> kv s' = kv s"
  by (auto simp: IsRevoked_def dest: exists_reads split: sum.splits prod.splits if_splits)

lemma IsRevoked_iff:
  assumes "IsRevoked (Some \<lparr>sm_rdb = Some c, sm_cfg = cfg\<rparr>) t s = ((b, None), s')"
    and "strings_TrimSpace t \<noteq> []"
  shows "b \<longleftrightarrow> kv s (blacklistKey cfg t) \<noteq> None"
  using assms
  by (auto simp: IsRevoked_def dest: exists_count split: sum.splits prod.splits if_splits)

end

text \<open>With the default blacklist prefix, a state never shares its key with a revoked token.\<close>

lemma state_key_not_blacklist:
  assumes "m = session_NewManager rdb cfg" and "ss_BlacklistPrefix cfg = []"
  shows "session_key (sm_cfg m) [''oauth_state'', st] \<noteq> blacklistKey (sm_cfg m) t"
proof -
  define P where "P = ss_KeyPrefix (sm_cfg m)"
  have B: "ss_BlacklistPrefix (sm_cfg m) = P @ '':blacklist''"
    using assms by (auto simp: session_NewManager_def Let_def P_def)
  have T: "strings_TrimSuffix (P @ '':blacklist'') '':'' = P @ '':blacklist''"
    by (simp add: strings_TrimSuffix_def strings_HasSuffix_def)
  show ?thesis
  proof (cases "\<exists>Q. P = Q @ '':''")
    case True
    then obtain Q where Q: "P = Q @ '':''" by blast
    then have "strings_TrimSuffix P '':'' = Q"
      by (simp add: strings_TrimSuffix_def strings_HasSuffix_def)
    with Q B T show ?thesis by (simp add: session_key_state blacklistKey_def flip: P_def)
  next
    case False
    then have "strings_TrimSuffix P '':'' = P" by (simp add: TrimSuffix_id)
    with B T show ?thesis by (simp add: session_key_state blacklistKey_def flip: P_def)
  qed
qed

section \<open>Properties of sessions\<close>


definition mem_session :: "redis_mem session_manager" where
  "mem_session = \<lparr>sm_rdb = Some mem_redis, sm_cfg = \<lparr>ss_KeyPrefix = ''sess'', ss_StateTTL = [], ss_BlacklistPrefix = []\<rparr>\<rparr>"

definition empty_redis :: redis_mem where
  "empty_redis = \<lparr>rm_now = 0, rm_data = Map.empty\<rparr>"

lemma mem_NewState_VerifyState:
  "VerifyState (Some mem_session) (hex_EncodeToString ''x'')
     (snd (NewState (Some mem_session) (Inr ''x'') ''alice'' empty_redis)) =
   (Inr ''alice'', mem_delete (session_key (sm_cfg mem_session) [''oauth_state'', hex_EncodeToString ''x''])
      (snd (NewState (Some mem_session) (Inr ''x'') ''alice'' empty_redis)))"
  by (simp add: VerifyState_def NewState_def mem_session_def session_redis_def mem_redis_def Let_def
      hex_not_blank)


text \<open>
  C16: revocation. After RevokeToken has returned nil for a token, an IsRevoked that returns no error
  answers true for a token exactly when it has the same hash or was revoked before.
\<close>

theorem revoked_is_revoked:
  assumes "redis_kv c kv"
    and "RevokeToken (Some \<lparr>sm_rdb = Some c, sm_cfg = cfg\<rparr>) t ttl s = (None, s1)"
    and "IsRevoked (Some \<lparr>sm_rdb = Some c, sm_cfg = cfg\<rparr>) t' s1 = ((b, None), s2)"
    and "strings_TrimSpace t \<noteq> []" "strings_TrimSpace t' \<noteq> []"
  shows "b \<longleftrightarrow> blacklistKey cfg t' = blacklistKey cfg t \<or> kv s (blacklistKey cfg t') \<noteq> None"
  using redis_kv.RevokeToken_marks [OF assms(1,2,4)] redis_kv.IsRevoked_iff [OF assms(1,3,5)] by auto

theorem revoked_is_revoked_witness:
  "\<exists>s1. RevokeToken (Some mem_session) ''tok'' 0 empty_redis = (None, s1) \<and>
    IsRevoked (Some mem_session) ''tok'' s1 = ((True, None), s1)"
proof -
  let ?s1 = "mem_store (blacklistKey (sm_cfg mem_session) ''tok'') ''1'' (24 * Hour) empty_redis"
  have r: "RevokeToken (Some \<lparr>sm_rdb = Some mem_redis, sm_cfg = sm_cfg mem_session\<rparr>) ''tok'' 0 empty_redis
      = (None, ?s1)"
    by (simp add: RevokeToken_def mem_redis_def trim_eval)
  obtain b where i: "IsRevoked (Some \<lparr>sm_rdb = Some mem_redis, sm_cfg = sm_cfg mem_session\<rparr>) ''tok'' ?s1
      = ((b, None), ?s1)"
    by (simp add: IsRevoked_def mem_redis_def trim_eval)
  have m: "\<lparr>sm_rdb = Some mem_redis, sm_cfg = sm_cfg mem_session\<rparr> = mem_session"
    by (simp add: mem_session_def)
  show ?thesis
    using revoked_is_revoked [OF mem.redis_kv_axioms r i] r i unfolding m by (simp add: trim_eval)
qed

end
