(* ===== verification/Config.thy ===== *)
theory Config
  imports Logx Casdoor_Policy Cache Database Object_Store Session
begin

text \<open>
  Configuration of \<open>src/config/config.go\<close>: merging of YAML maps, overrides from the environment,
  loading and validation. A \<open>map[string]any\<close> is a partial function to \<open>any\<close>. Reading files, YAML and the
  JSON decoding of the merged map into the \<open>Config\<close> struct are parameters.
\<close>

section \<open>The struct\<close>

record endpoint_config =
  ec_Addr :: string
  ec_Timeout :: string

record feature_config =
  ft_DB :: bool
  ft_Cache :: bool
  ft_S3 :: bool
  ft_Authn :: bool
  ft_Authz :: bool
  ft_Audit :: bool
  ft_Metrics :: bool
  ft_Tracing :: bool
  ft_Session :: bool
  ft_Permission :: bool
  ft_Sharing :: bool

record config =
  cf_AppName :: string
  cf_AppEnv :: string
  cf_AppVersion :: string
  cf_HTTP :: endpoint_config
  cf_GRPC :: endpoint_config
  cf_Features :: feature_config
  cf_Log :: logx_config
  cf_Database :: database_config
  cf_Redis :: redis_config
  cf_ObjectStore :: minio_config
  cf_Casdoor :: casdoor_config
  cf_Metrics :: metrics_config
  cf_Session :: session_config
  cf_HealthTimeout :: string
  cf_ShutdownTimeout :: string

definition config_Default :: config where
  "config_Default =
     \<lparr>cf_AppName = [], cf_AppEnv = ''dev'', cf_AppVersion = ''dev'',
      cf_HTTP = \<lparr>ec_Addr = ''0.0.0.0:8000'', ec_Timeout = ''10s''\<rparr>,
      cf_GRPC = \<lparr>ec_Addr = ''0.0.0.0:9000'', ec_Timeout = ''10s''\<rparr>,
      cf_Features = \<lparr>ft_DB = True, ft_Cache = True, ft_S3 = True, ft_Authn = True, ft_Authz = True,
        ft_Audit = True, ft_Metrics = True, ft_Tracing = True, ft_Session = True,
        ft_Permission = True, ft_Sharing = False\<rparr>,
      cf_Log = \<lparr>lx_Level = ''info'', lx_Format = ''json'', lx_AddSource = False\<rparr>,
      cf_Database = \<lparr>dc_Driver = ''mysql'', dc_DSN = [], dc_MaxOpenConns = 50, dc_MaxIdleConns = 10,
        dc_ConnMaxLifetime = ''1h'', dc_SlowThreshold = ''500ms'', dc_LogLevel = ''warn'',
        dc_AutoCreateDatabase = False, dc_AutoCreate = False, dc_MaintenanceDB = ''postgres'',
        dc_SearchPath = [], dc_SSLMode = []\<rparr>,
      cf_Redis = \<lparr>rc_Mode = ''single'', rc_Addr = ''127.0.0.1:6379'', rc_Addrs = [], rc_Username = [],
        rc_Password = [], rc_DB = 0, rc_DialTimeout = ''5s'', rc_ReadTimeout = ''3s'',
        rc_WriteTimeout = ''3s'', rc_PoolSize = 0\<rparr>,
      cf_ObjectStore = \<lparr>mo_Provider = ''minio'', mo_Endpoint = ''127.0.0.1:9000'', mo_AccessKey = [],
        mo_SecretKey = [], mo_SessionToken = [], mo_Bucket = ''aisphere'', mo_Region = [],
        mo_UseSSL = False, mo_AutoCreateBucket = False\<rparr>,
      cf_Casdoor = zero_casdoor_config,
      cf_Metrics = \<lparr>mc_Namespace = ''aisphere'', mc_Subsystem = []\<rparr>,
      cf_Session = \<lparr>ss_KeyPrefix = ''aisphere:session'', ss_StateTTL = ''10m'', ss_BlacklistPrefix = []\<rparr>,
      cf_HealthTimeout = ''2s'', cf_ShutdownTimeout = ''15s''\<rparr>"

section \<open>Merging and overriding\<close>

type_synonym config_map = "string \<rightharpoonup> any"

text \<open>What \<open>mergeMap\<close> makes of one key: the value in \<open>src\<close>, on top of the value in \<open>dst\<close> if any.\<close>

primrec merge_value :: "any \<Rightarrow> any option \<Rightarrow> any" where
  "merge_value ANil = (\<lambda>d. ANil)"
| "merge_value (ABool b) = (\<lambda>d. ABool b)"
| "merge_value (ANum n) = (\<lambda>d. ANum n)"
| "merge_value (AStr s) = (\<lambda>d. AStr s)"
| "merge_value (AList xs) = (\<lambda>d. AList xs)"
| "merge_value (AMap sm) =
     (\<lambda>d. case d of
        Some (AMap dm) \<Rightarrow>
          AMap (\<lambda>k. case (map_option merge_value \<circ> sm) k of None \<Rightarrow> dm k | Some f \<Rightarrow> Some (f (dm k)))
      | _ \<Rightarrow> AMap sm)"

definition mergeMap :: "config_map \<Rightarrow> config_map \<Rightarrow> config_map" where
  "mergeMap dst src = (\<lambda>k. case src k of None \<Rightarrow> dst k | Some v \<Rightarrow> Some (merge_value v (dst k)))"

fun setNested :: "config_map \<Rightarrow> string list \<Rightarrow> any \<Rightarrow> config_map" where
  "setNested m [] v = m"
| "setNested m [k] v = m(k \<mapsto> v)"
| "setNested m (k # k2 # ks) v =
     (let nxt = (case m k of Some (AMap n) \<Rightarrow> n | _ \<Rightarrow> Map.empty)
      in m(k \<mapsto> AMap (setNested nxt (k2 # ks) v)))"

definition env_entry :: "string \<Rightarrow> string \<Rightarrow> (string list \<times> string) option" where
  "env_entry pre kv =
     (if \<not> strings_HasPrefix kv pre then None
      else case strings_SplitN2 kv ''='' of
             [name, val] \<Rightarrow>
               Some (strings_Split (strings_ToLower (strings_TrimPrefix name pre)) ''__'', val)
           | _ \<Rightarrow> None)"

definition applyEnv :: "string list \<Rightarrow> config_map \<Rightarrow> string \<Rightarrow> config_map" where
  "applyEnv environ root pre =
     fold (\<lambda>kv m. case env_entry pre kv of None \<Rightarrow> m | Some (keys, v) \<Rightarrow> setNested m keys (AStr v))
       environ root"

section \<open>Validation\<close>

definition duration_error :: "string \<Rightarrow> string \<Rightarrow> go_error list" where
  "duration_error name t =
     (if t \<noteq> [] then (case time_ParseDuration t of Inl err \<Rightarrow> [wrapf (name @ '': '') err []] | Inr _ \<Rightarrow> [])
      else [])"

definition check_that :: "bool \<Rightarrow> string \<Rightarrow> go_error list" where
  "check_that ok t = (if ok then [] else [Errorf t])"

definition database_errors :: "database_config \<Rightarrow> go_error list" where
  "database_errors c =
     (case database_Normalize c of Inl err \<Rightarrow> [err] | Inr _ \<Rightarrow> []) @
     check_that (dc_DSN c \<noteq> []) ''database.dsn is required''"

definition redis_errors :: "redis_config \<Rightarrow> go_error list" where
  "redis_errors c =
     (if rc_Mode c = [] \<or> rc_Mode c = ''single'' then check_that (rc_Addr c \<noteq> []) ''redis.addr is required''
      else if rc_Mode c = ''cluster'' then check_that (rc_Addrs c \<noteq> []) ''redis.addrs is required''
      else [Errorf ''redis.mode only supports single or cluster''])"

definition objectstore_errors :: "minio_config \<Rightarrow> go_error list" where
  "objectstore_errors c =
     check_that (mo_Provider c = [] \<or> mo_Provider c = ''minio'') ''objectstore.provider only supports minio'' @
     check_that (mo_Endpoint c \<noteq> [] \<and> mo_Bucket c \<noteq> []) ''objectstore.endpoint and bucket are required''"

definition casdoor_required :: "casdoor_config \<Rightarrow> bool" where
  "casdoor_required c \<longleftrightarrow>
     cc_Endpoint c \<noteq> [] \<and> cc_ClientID c \<noteq> [] \<and> cc_ClientSecret c \<noteq> [] \<and>
     cc_Organization c \<noteq> [] \<and> cc_Application c \<noteq> []"

definition validation_errors :: "certlib \<Rightarrow> config \<Rightarrow> go_error list" where
  "validation_errors lib c =
     (let f = cf_Features c; cas = cf_Casdoor c in
        check_that (cf_AppName c \<noteq> []) ''app.name is required'' @
        duration_error ''server.http.timeout'' (ec_Timeout (cf_HTTP c)) @
        duration_error ''server.grpc.timeout'' (ec_Timeout (cf_GRPC c)) @
        (if ft_DB f then database_errors (cf_Database c) else []) @
        (if ft_Cache f then redis_errors (cf_Redis c) else []) @
        (if ft_S3 f then objectstore_errors (cf_ObjectStore c) else []) @
        check_that (\<not> (ft_Session f \<and> \<not> ft_Cache f)) ''features.session requires features.cache'' @
        check_that (\<not> ft_Sharing f)
          ''features.sharing is deprecated; use features.permission with Casdoor/Casbin'' @
        (if ft_Authn f \<or> ft_Authz f \<or> ft_Audit f \<or> ft_Permission f then
           check_that (casdoor_required cas)
             ''casdoor endpoint/client_id/client_secret/organization/application are required''
         else []) @
        (if ft_Authn f then
           (case NormalizedCertificate lib cas of
              Inl err \<Rightarrow> [wrapf ''casdoor jwt certificate: '' err []] | Inr _ \<Rightarrow> [])
         else []) @
        (if ft_Authz f then
           check_that (filter (\<lambda>v. v \<noteq> []) [cc_PermissionID cas, cc_ModelID cas, cc_ResourceID cas,
                                             cc_EnforcerID cas, cc_Owner cas] \<noteq> [])
             ''one of casdoor permission_id/model_id/resource_id/enforcer_id/owner is required for authz''
         else []) @
        (if ft_Permission f then
           check_that (\<not> (cc_PolicyEnforcer cas = [] \<and> cc_EnforcerID cas = []))
             ''casdoor.policy_enforcer or casdoor.enforcer_id is required for permission management''
         else []))"

definition config_Validate :: "certlib \<Rightarrow> config \<Rightarrow> go_error option" where
  "config_Validate lib c = errors_Join (validation_errors lib c)"

definition ParseDurationOr :: "string \<Rightarrow> duration \<Rightarrow> duration" where
  "ParseDurationOr t fallback =
     (if t = [] then fallback else case time_ParseDuration t of Inl _ \<Rightarrow> fallback | Inr d \<Rightarrow> d)"

section \<open>Loading\<close>

text \<open>
  The parameters: the map that the YAML round trip makes of \<open>Default()\<close>, \<open>os.ReadFile\<close>, YAML and JSON
  decoding, and \<open>os.Environ()\<close>.
\<close>

record config_lib =
  cl_default :: config_map
  cl_ReadFile :: "string \<Rightarrow> go_error + string"
  cl_yaml :: "string \<Rightarrow> go_error + config_map"
  cl_decode :: "config_map \<Rightarrow> go_error + config"
  cl_environ :: "string list"
  cl_cert :: certlib

fun load_files :: "config_lib \<Rightarrow> string list \<Rightarrow> config_map \<Rightarrow> go_error + config_map" where
  "load_files lib [] merged = Inr merged"
| "load_files lib (path # paths) merged =
     (if path = [] then load_files lib paths merged
      else case cl_ReadFile lib path of
             Inl err \<Rightarrow> Inl (wrapf (''load config '' @ path @ '': '') err [])
           | Inr b \<Rightarrow>
               (case cl_yaml lib b of
                  Inl err \<Rightarrow> Inl (wrapf (''parse config '' @ path @ '': '') err [])
                | Inr current \<Rightarrow> load_files lib paths (mergeMap merged current)))"

definition casdoor_defaults :: "config \<Rightarrow> config" where
  "casdoor_defaults cfg =
     (let c = cf_Casdoor cfg;
          c1 = (if cc_HTTPTimeout c = [] then c\<lparr>cc_HTTPTimeout := ''10s''\<rparr> else c);
          c2 = (if cc_DefaultScope c1 = [] then c1\<lparr>cc_DefaultScope := ''openid profile email''\<rparr> else c1)
      in cfg\<lparr>cf_Casdoor := c2\<rparr>)"

text \<open>\<open>Load\<close> returns the configuration also when validation fails.\<close>

definition config_Load :: "config_lib \<Rightarrow> string list \<Rightarrow> config option \<times> go_error option" where
  "config_Load lib paths =
     (case load_files lib paths (cl_default lib) of
        Inl err \<Rightarrow> (None, Some err)
      | Inr merged \<Rightarrow>
          (case cl_decode lib (applyEnv (cl_environ lib) merged ''AISPHERE_'') of
             Inl err \<Rightarrow> (None, Some (wrapf ''decode config: '' err []))
           | Inr cfg0 \<Rightarrow>
               (let cfg = casdoor_defaults cfg0 in (Some cfg, config_Validate (cl_cert lib) cfg))))"

section \<open>Facts about maps\<close>

fun get_path :: "config_map \<Rightarrow> string list \<Rightarrow> any option" where
  "get_path m [] = None"
| "get_path m [k] = m k"
| "get_path m (k # k2 # ks) =
     (case m k of Some (AMap n) \<Rightarrow> get_path n (k2 # ks) | _ \<Rightarrow> None)"

definition is_map :: "any \<Rightarrow> bool" where
  "is_map v \<longleftrightarrow> (\<exists>m. v = AMap m)"

lemma get_path_empty [simp]: "get_path (\<lambda>_. None) p = None"
  by (cases "(\<lambda>_ :: string. None :: any option, p)" rule: get_path.cases) auto

lemma setNested_get: "keys \<noteq> [] \<Longrightarrow> get_path (setNested m keys v) keys = Some v"
  by (induction m keys v rule: setNested.induct) (auto simp: Let_def)

lemma setNested_other:
  "keys \<noteq> [] \<Longrightarrow> \<not> prefix keys path \<Longrightarrow> \<not> prefix path keys \<Longrightarrow>
    get_path (setNested m keys v) path = get_path m path"
proof (induction m keys v arbitrary: path rule: setNested.induct)
  case (2 m k v)
  then show ?case by (cases path rule: list.exhaust; cases "tl path") auto
next
  case (3 m k k2 ks v)
  show ?case
  proof (cases path)
    case Nil
    then show ?thesis using 3 by simp
  next
    case (Cons a as)
    show ?thesis
    proof (cases as)
      case Nil
      with 3 Cons show ?thesis by (auto simp: Let_def)
    next
      case (Cons b bs)
      with 3 \<open>path = a # as\<close> show ?thesis
        by (auto simp: Let_def split: option.splits any.splits)
    qed
  qed
qed simp

lemma merge_value_self: "merge_value v (Some v) = v"
proof (induction v)
  case (AMap m)
  have "Some (merge_value v (Some v)) = Some v" if "m k = Some v" for k v
    using AMap [of "m k" v] that by (metis option.set_intros rangeI)
  then show ?case by (auto simp: fun_eq_iff split: option.splits)
qed simp_all

lemma merge_value_again: "merge_value v (Some (merge_value v d)) = merge_value v d"
proof (induction v arbitrary: d)
  case (AMap m)
  show ?case
  proof (cases "\<exists>dm. d = Some (AMap dm)")
    case True
    then obtain dm where d: "d = Some (AMap dm)" by blast
    have "merge_value v (Some (merge_value v e)) = merge_value v e" if "m k = Some v" for k v e
      using AMap [of "m k" v] that by (metis option.set_intros rangeI)
    then show ?thesis by (auto simp: d fun_eq_iff split: option.splits)
  next
    case False
    then have "merge_value (AMap m) d = AMap m" by (auto split: option.splits any.splits)
    then show ?thesis using merge_value_self [of "AMap m"] by simp
  qed
qed simp_all

lemma mergeMap_idem: "mergeMap (mergeMap d s) s = mergeMap d s"
  by (auto simp: mergeMap_def fun_eq_iff merge_value_again split: option.splits)

lemma mergeMap_empty [simp]: "mergeMap d Map.empty = d"
  by (simp add: mergeMap_def)

lemma merge_value_leaf: "\<not> is_map v \<Longrightarrow> merge_value v d = v"
  by (cases v) (auto simp: is_map_def)

lemma merge_value_map:
  "merge_value (AMap sm) d =
     AMap (case d of Some (AMap dm) \<Rightarrow> mergeMap dm sm | _ \<Rightarrow> sm)"
  by (auto simp: mergeMap_def fun_eq_iff split: option.splits any.splits)

text \<open>A value of the later file that is no map replaces what the earlier files say.\<close>

lemma mergeMap_leaf:
  "get_path src path = Some v \<Longrightarrow> \<not> is_map v \<Longrightarrow> get_path (mergeMap dst src) path = Some v"
proof (induction src path arbitrary: dst rule: get_path.induct)
  case (2 m k)
  then show ?case by (simp add: mergeMap_def merge_value_leaf)
next
  case (3 m k k2 ks)
  then obtain n where n: "m k = Some (AMap n)" and p: "get_path n (k2 # ks) = Some v"
    by (auto split: option.splits any.splits)
  show ?case
  proof (cases "\<exists>dm. dst k = Some (AMap dm)")
    case True
    then obtain dm where dm: "dst k = Some (AMap dm)" by blast
    with n p 3 have "get_path (mergeMap dm n) (k2 # ks) = Some v" by simp
    with n dm show ?thesis by (simp add: mergeMap_def [of dst] merge_value_map del: merge_value.simps)
  next
    case False
    then have "merge_value (AMap n) (dst k) = AMap n"
      by (auto split: option.splits any.splits)
    with n p show ?thesis by (simp add: mergeMap_def)
  qed
qed simp

text \<open>A key that the later file does not mention keeps its value.\<close>

lemma mergeMap_absent: "src k = None \<Longrightarrow> mergeMap dst src k = dst k"
  by (simp add: mergeMap_def)

lemma env_entry_keys: "env_entry pre kv = Some (keys, v) \<Longrightarrow> keys \<noteq> []"
  by (auto simp: env_entry_def split: if_splits list.splits)

text \<open>The last variable that sets a path wins, over files and over other variables.\<close>

lemma applyEnv_last:
  assumes "env_entry pre kv = Some (keys, v)"
    and "\<And>kv' keys' v'. kv' \<in> set later \<Longrightarrow> env_entry pre kv' = Some (keys', v') \<Longrightarrow>
      \<not> prefix keys' keys \<and> \<not> prefix keys keys'"
  shows "get_path (applyEnv (earlier @ kv # later) root pre) keys = Some (AStr v)"
proof -
  define step where "step = (\<lambda>kv m. case env_entry pre kv of None \<Rightarrow> m
    | Some (keys, v) \<Rightarrow> setNested m keys (AStr v))"
  have keep: "get_path (step e m) keys = get_path m keys" if "e \<in> set later" for e m
    using assms(2) [OF that] setNested_other env_entry_keys [of pre e]
    by (auto simp: step_def split: option.splits)
  have "\<forall>e\<in>set es. \<forall>m. get_path (step e m) keys = get_path m keys \<Longrightarrow>
      get_path (fold step es m) keys = get_path m keys" for es m
    by (induction es arbitrary: m) auto
  with keep have "get_path (fold step later m) keys = get_path m keys" for m by blast
  moreover have "get_path (step kv m) keys = Some (AStr v)" for m
    using assms(1) setNested_get [OF env_entry_keys] by (simp add: step_def)
  ultimately show ?thesis by (simp add: applyEnv_def flip: step_def)
qed

section \<open>Facts about validation\<close>

lemma check_that_Nil [simp]: "check_that ok t = [] \<longleftrightarrow> ok"
  by (simp add: check_that_def)

lemma redis_errors_Nil: "redis_errors c = [] \<longleftrightarrow> (\<exists>client. redis_client_for d c = Inr client)"
  by (auto simp: redis_errors_def redis_client_for_def redis_mode_def)

lemma database_errors_Nil:
  "database_errors c = [] \<longleftrightarrow> (\<exists>d. database_Normalize c = Inr d) \<and> dc_DSN c \<noteq> []"
  by (auto simp: database_errors_def split: sum.splits)

text \<open>What a valid configuration guarantees to the constructors that the runtime calls.\<close>

lemma valid_config:
  assumes "config_Validate lib c = None"
  shows "ft_DB (cf_Features c) \<Longrightarrow>
      (\<exists>d. database_Normalize (cf_Database c) = Inr d) \<and> dc_DSN (cf_Database c) \<noteq> []"
    and "ft_Cache (cf_Features c) \<Longrightarrow> \<exists>client. redis_client_for dialer (cf_Redis c) = Inr client"
    and "ft_Session (cf_Features c) \<Longrightarrow> ft_Cache (cf_Features c)"
    and "ft_Authn (cf_Features c) \<Longrightarrow> \<exists>a. casdoor_NewChecked lib NewClient (cf_Casdoor c) = Inr a"
    and "ft_Authz (cf_Features c) \<Longrightarrow> enforceSelectors (cf_Casdoor c) \<noteq> no_selectors"
proof -
  have errs: "validation_errors lib c = []"
    using assms by (simp add: config_Validate_def)
  show "ft_DB (cf_Features c) \<Longrightarrow>
      (\<exists>d. database_Normalize (cf_Database c) = Inr d) \<and> dc_DSN (cf_Database c) \<noteq> []"
    using errs by (simp add: validation_errors_def Let_def database_errors_Nil)
  show "ft_Cache (cf_Features c) \<Longrightarrow> \<exists>client. redis_client_for dialer (cf_Redis c) = Inr client"
    using errs by (simp add: validation_errors_def Let_def redis_errors_Nil [of _ dialer])
  show "ft_Session (cf_Features c) \<Longrightarrow> ft_Cache (cf_Features c)"
    using errs by (simp add: validation_errors_def Let_def)
  show "ft_Authn (cf_Features c) \<Longrightarrow> \<exists>a. casdoor_NewChecked lib NewClient (cf_Casdoor c) = Inr a"
    using errs casdoor_NewChecked_iff [of lib NewClient "cf_Casdoor c"]
    by (auto simp: validation_errors_def Let_def split: sum.splits)
  show "ft_Authz (cf_Features c) \<Longrightarrow> enforceSelectors (cf_Casdoor c) \<noteq> no_selectors"
    using errs by (auto simp: validation_errors_def Let_def enforceSelectors_none)
qed

section \<open>Properties of the configuration\<close>

lemma load_files_append:
  "load_files lib (ps @ qs) m =
     (case load_files lib ps m of Inl err \<Rightarrow> Inl err | Inr m' \<Rightarrow> load_files lib qs m')"
  by (induction lib ps m rule: load_files.induct) (auto split: sum.splits)

text \<open>
  C28: precedence of the sources. A value that the last file sets, at any depth, is the value of the
  merged configuration, over the defaults and the earlier files; and a variable of the environment
  replaces it, unless a later variable names a part or the whole of the same entry.
\<close>

theorem config_precedence:
  assumes "load_files lib (paths @ [path]) base = Inr merged" and "path \<noteq> []"
    and "cl_ReadFile lib path = Inr b" and "cl_yaml lib b = Inr current"
  shows "(\<forall>p v. get_path current p = Some v \<and> \<not> is_map v \<longrightarrow> get_path merged p = Some v) \<and>
    (\<forall>earlier kv later keys v. env_entry pre kv = Some (keys, v) \<and>
      (\<forall>kv' keys' v'. kv' \<in> set later \<longrightarrow> env_entry pre kv' = Some (keys', v') \<longrightarrow>
         \<not> prefix keys' keys \<and> \<not> prefix keys keys') \<longrightarrow>
      get_path (applyEnv (earlier @ kv # later) merged pre) keys = Some (AStr v))"
proof -
  obtain m0 where "merged = mergeMap m0 current"
    using assms by (auto simp: load_files_append split: sum.splits)
  then have "\<forall>p v. get_path current p = Some v \<and> \<not> is_map v \<longrightarrow> get_path merged p = Some v"
    using mergeMap_leaf by blast
  moreover have "get_path (applyEnv (earlier @ kv # later) merged pre) keys = Some (AStr v)"
    if "env_entry pre kv = Some (keys, v)"
      "\<forall>kv' keys' v'. kv' \<in> set later \<longrightarrow> env_entry pre kv' = Some (keys', v') \<longrightarrow>
         \<not> prefix keys' keys \<and> \<not> prefix keys keys'" for earlier kv later keys v
    using applyEnv_last [OF that(1)] that(2) by blast
  ultimately show ?thesis by blast
qed

definition one_file :: config_lib where
  "one_file =
     \<lparr>cl_default = [''app'' \<mapsto> AMap [''env'' \<mapsto> AStr ''dev'', ''name'' \<mapsto> AStr []]],
      cl_ReadFile = (\<lambda>_. Inr ''yaml''),
      cl_yaml = (\<lambda>_. Inr [''app'' \<mapsto> AMap [''name'' \<mapsto> AStr ''hub'']]),
      cl_decode = (\<lambda>_. Inl (ErrExt ''decode'')), cl_environ = [],
      cl_cert = \<lparr>ReadFile = (\<lambda>_. Inl (ErrExt ''no such file'')), pem_Decode = (\<lambda>_. None),
        ParseCertificate = (\<lambda>_. Inl (ErrExt ''malformed'')),
        ParsePKIXPublicKey = (\<lambda>_. Inl (ErrExt ''malformed'')),
        ParsePKCS1PublicKey = (\<lambda>_. Some (ErrExt ''malformed''))\<rparr>\<rparr>"

theorem config_precedence_witness:
  "\<exists>merged. load_files one_file ([] @ [''config.yaml'']) (cl_default one_file) = Inr merged \<and>
    get_path merged [''app'', ''name''] = Some (AStr ''hub'')"
proof -
  obtain merged where l: "load_files one_file ([] @ [''config.yaml'']) (cl_default one_file) = Inr merged"
    by (simp add: one_file_def)
  have "get_path merged [''app'', ''name''] = Some (AStr ''hub'')"
    by (rule config_precedence [OF l, THEN conjunct1, rule_format]) (auto simp: one_file_def is_map_def)
  with l show ?thesis by blast
qed


definition small_config :: config where
  "small_config = config_Default\<lparr>cf_AppName := ''hub'',
     cf_Features := \<lparr>ft_DB = False, ft_Cache = True, ft_S3 = False, ft_Authn = False, ft_Authz = False,
       ft_Audit = False, ft_Metrics = False, ft_Tracing = False, ft_Session = True, ft_Permission = False,
       ft_Sharing = False\<rparr>,
     cf_HTTP := \<lparr>ec_Addr = [], ec_Timeout = []\<rparr>, cf_GRPC := \<lparr>ec_Addr = [], ec_Timeout = []\<rparr>\<rparr>"

definition small_lib :: config_lib where
  "small_lib = one_file\<lparr>cl_decode := (\<lambda>_. Inr small_config)\<rparr>"


end
