(* ===== verification/Starter.thy ===== *)
theory Starter
  imports Config Access
begin

text \<open>
  Bootstrapping of \<open>src/starter\<close>: the cleanup stack (\<open>cleanup.go\<close>), the construction of the runtime
  (\<open>runtime.go\<close>) and the entry points of \<open>serve.go\<close>. The libraries that the constructors use are the
  record \<open>runtime_lib\<close>. An interface field that the runtime sets to the Casdoor adapter is the adapter.
\<close>

section \<open>Cleanup\<close>

type_synonym 'x cleanup_stack = "'x fallible list"

definition cleanup_Add :: "'x fallible option \<Rightarrow> 'x cleanup_stack \<Rightarrow> 'x cleanup_stack" where
  "cleanup_Add fn stack = (case fn of None \<Rightarrow> stack | Some f \<Rightarrow> stack @ [f])"

text \<open>The loop of \<open>Close\<close>, on the functions from the last to the first.\<close>

fun cleanup_loop :: "'x fallible list \<Rightarrow> 'x \<Rightarrow> go_error list \<times> 'x" where
  "cleanup_loop [] s = ([], s)"
| "cleanup_loop (f # fs) s =
     (case f s of
        (None, s') \<Rightarrow> cleanup_loop fs s'
      | (Some err, s') \<Rightarrow> (case cleanup_loop fs s' of (errs, s'') \<Rightarrow> (err # errs, s'')))"

definition cleanup_Close :: "'x cleanup_stack \<Rightarrow> 'x fallible" where
  "cleanup_Close stack s = (case cleanup_loop (rev stack) s of (errs, s') \<Rightarrow> (errors_Join errs, s'))"

text \<open>
  \<open>CleanupWithTimeout\<close>: a nil function is \<^term>\<open>None\<close>. The select between the result and the timer is the
  argument \<open>late\<close>: when it is true the timer wins, and the function still runs.
\<close>

definition CleanupWithTimeout :: "'x fallible option \<Rightarrow> bool \<Rightarrow> 'x fallible" where
  "CleanupWithTimeout fn late s =
     (case fn of
        None \<Rightarrow> (None, s)
      | Some f \<Rightarrow> (case f s of (err, s') \<Rightarrow> (if late then Some CtxDeadlineExceeded else err, s')))"

section \<open>The runtime\<close>

record 'x runtime =
  rt_Config :: config
  rt_Logger :: slog_logger
  rt_DB :: "pool option"
  rt_Database :: "database option"
  rt_SQL :: "database option"
  rt_Tx :: "tx_manager option"
  rt_Redis :: "'x redis_client option"
  rt_RedisRuntime :: "'x redis_handle option"
  rt_Session :: "'x session_manager option"
  rt_S3 :: "'x minio_client option"
  rt_Casdoor :: "'x adapter option"
  rt_Authn :: "'x adapter option"
  rt_Authz :: "'x adapter option"
  rt_Audit :: "'x adapter option"
  rt_Permission :: "'x adapter option"
  rt_Access :: "'x adapter option \<times> 'x adapter option \<times> string"

record 'x runtime_lib =
  rl_Register :: "'x registerer"
  rl_dsn :: dsn_lib
  rl_gorm :: "'x gorm_lib"
  rl_dialer :: "'x redis_dialer"
  rl_minio :: "minio_config \<Rightarrow> go_error + 'x minio_sdk"
  rl_cert :: certlib
  rl_casdoor :: "casdoor_config \<Rightarrow> 'x casdoor_client"

definition new_runtime :: "config \<Rightarrow> 'x runtime" where
  "new_runtime cfg =
     \<lparr>rt_Config = cfg,
      rt_Logger = slog_With [AStr ''app'', AStr (cf_AppName cfg), AStr ''env'', AStr (cf_AppEnv cfg),
                             AStr ''version'', AStr (cf_AppVersion cfg)] (logx_New (cf_Log cfg)),
      rt_DB = None, rt_Database = None, rt_SQL = None, rt_Tx = None, rt_Redis = None,
      rt_RedisRuntime = None, rt_Session = None, rt_S3 = None, rt_Casdoor = None,
      rt_Authn = None, rt_Authz = None, rt_Audit = None, rt_Permission = None, rt_Access = (None, None, [])\<rparr>"

text \<open>
  Each part of \<open>NewRuntime\<close> takes the runtime, the cleanup stack and the world. On an error the code
  closes the stack and returns. The metrics that \<open>rt.Metrics\<close> points to are \<open>w_metrics\<close> of the world; a nil
  option is \<^term>\<open>None\<close>.
\<close>

type_synonym 'x init = "'x runtime \<times> 'x cleanup_stack \<times> 'x world"

definition fail_init :: "go_error \<Rightarrow> 'x cleanup_stack \<Rightarrow> 'x world \<Rightarrow> (go_error + 'x init) \<times> 'x world" where
  "fail_init err stack w = (Inl err, w\<lparr>service := snd (cleanup_Close stack (service w))\<rparr>)"

definition init_metrics :: "'x runtime_lib \<Rightarrow> config \<Rightarrow> 'x init \<Rightarrow> (go_error + 'x init) \<times> 'x world" where
  "init_metrics lib cfg = (\<lambda>(rt, stack, w).
     if ft_Metrics (cf_Features cfg) then
       (case metrics_New (rl_Register lib) (cf_Metrics cfg) (cf_AppName cfg) (service w) of
          (Inl err, s) \<Rightarrow> fail_init (wrapf ''init metrics: '' err []) stack (w\<lparr>service := s\<rparr>)
        | (Inr m, s) \<Rightarrow>
            (let w' = w\<lparr>service := s, w_metrics := Some m\<rparr> in (Inr (rt, stack, w'), w')))
     else (Inr (rt, stack, w), w))"

definition init_database :: "'x runtime_lib \<Rightarrow> config \<Rightarrow> 'x init \<Rightarrow> (go_error + 'x init) \<times> 'x world" where
  "init_database lib cfg = (\<lambda>(rt, stack, w).
     if ft_DB (cf_Features cfg) then
       (case NewDatabase (rl_dsn lib) (rl_gorm lib) (cf_Database cfg) w of
          (Inl err, w1) \<Rightarrow> fail_init err stack w1
        | (Inr d, w1) \<Rightarrow>
            (Inr (rt\<lparr>rt_Database := Some d, rt_SQL := Some d, rt_DB := db_GORM d,
                    rt_Tx := Some (NewTxManager (db_GORM d))\<rparr>,
                  cleanup_Add (Some (database_Close (rl_gorm lib) d)) stack, w1), w1))
     else (Inr (rt, stack, w), w))"

definition init_cache :: "'x runtime_lib \<Rightarrow> config \<Rightarrow> 'x init \<Rightarrow> (go_error + 'x init) \<times> 'x world" where
  "init_cache lib cfg = (\<lambda>(rt, stack, w).
     if ft_Cache (cf_Features cfg) then
       (case NewRedis (rl_dialer lib) (cf_Redis cfg) w of
          (Inl err, w1) \<Rightarrow> fail_init err stack w1
        | (Inr r, w1) \<Rightarrow>
            (let rt1 = rt\<lparr>rt_RedisRuntime := Some r, rt_Redis := rh_Client r\<rparr>;
                 rt2 = (if ft_Session (cf_Features cfg)
                        then rt1\<lparr>rt_Session :=
                               Some (session_NewManager (rh_Client r) (cf_Session cfg))\<rparr>
                        else rt1)
             in (Inr (rt2, cleanup_Add (Some (redis_Close (Some r))) stack, w1), w1)))
     else (Inr (rt, stack, w), w))"

definition init_s3 :: "'x runtime_lib \<Rightarrow> config \<Rightarrow> 'x init \<Rightarrow> (go_error + 'x init) \<times> 'x world" where
  "init_s3 lib cfg = (\<lambda>(rt, stack, w).
     if ft_S3 (cf_Features cfg) then
       (case NewMinIO (rl_minio lib) (cf_ObjectStore cfg) w of
          (Inl err, w1) \<Rightarrow> fail_init err stack w1
        | (Inr s3, w1) \<Rightarrow> (Inr (rt\<lparr>rt_S3 := Some s3\<rparr>, stack, w1), w1))
     else (Inr (rt, stack, w), w))"

definition init_casdoor :: "'x runtime_lib \<Rightarrow> config \<Rightarrow> 'x init \<Rightarrow> (go_error + 'x init) \<times> 'x world" where
  "init_casdoor lib cfg = (\<lambda>(rt, stack, w).
     let f = cf_Features cfg; cas = cf_Casdoor cfg in
     if ft_Authn f \<or> ft_Authz f \<or> ft_Audit f \<or> ft_Permission f then
       (case (if ft_Authn f
              then (case casdoor_NewChecked (rl_cert lib) (rl_casdoor lib) cas of
                      Inl err \<Rightarrow> Inl err | Inr a \<Rightarrow> Inr (Some a))
              else Inr (casdoor_New (rl_cert lib) (rl_casdoor lib) cas)) of
          Inl err \<Rightarrow> fail_init (wrapf ''init casdoor: '' err []) stack w
        | Inr adapter \<Rightarrow>
            (let rt1 = rt\<lparr>rt_Casdoor := adapter, rt_Authn := adapter, rt_Authz := adapter,
                          rt_Audit := adapter\<rparr>;
                 rt2 = (if ft_Permission f then rt1\<lparr>rt_Permission := adapter\<rparr> else rt1)
             in (Inr (rt2, stack, w), w)))
     else (Inr (rt, stack, w), w))"

definition init_then ::
    "(go_error + 'x init) \<times> 'x world \<Rightarrow> ('x init \<Rightarrow> (go_error + 'x init) \<times> 'x world)
      \<Rightarrow> (go_error + 'x init) \<times> 'x world" where
  "init_then r f = (case r of (Inl err, w) \<Rightarrow> (Inl err, w) | (Inr i, w) \<Rightarrow> f i)"

definition NewRuntime ::
    "'x runtime_lib \<Rightarrow> config \<Rightarrow> ('x runtime \<Rightarrow> 'x runtime) option list \<Rightarrow> 'x world
      \<Rightarrow> (go_error + 'x runtime \<times> 'x cleanup_stack) \<times> 'x world" where
  "NewRuntime lib cfg opts w =
     (let rt0 = fold (\<lambda>opt rt. case opt of None \<Rightarrow> rt | Some f \<Rightarrow> f rt) opts (new_runtime cfg);
          r1 = init_metrics lib cfg (rt0, [], w);
          r2 = init_then r1 (init_database lib cfg);
          r3 = init_then r2 (init_cache lib cfg);
          r4 = init_then r3 (init_s3 lib cfg);
          r5 = init_then r4 (init_casdoor lib cfg)
      in case r5 of
           (Inl err, w') \<Rightarrow> (Inl err, w')
         | (Inr (rt, stack, _), w') \<Rightarrow>
             (Inr (rt\<lparr>rt_Access := (rt_Authz rt, rt_Audit rt, cf_AppName cfg)\<rparr>, stack), w'))"

text \<open>The access guard of a runtime, as \<open>access.NewGuard\<close> builds it from its options.\<close>

definition runtime_guard :: "'x goenv \<Rightarrow> record_inputs \<Rightarrow> 'x runtime \<Rightarrow> 'x world guard" where
  "runtime_guard env ri rt =
     (case rt_Access rt of
        (authz, audit, component) \<Rightarrow>
          NewGuard (map_option (\<lambda>a. adapter_authorizer a env) authz)
            (map_option (\<lambda>a. adapter_recorder a env ri) audit)
            component)"

definition runtime_WithTx ::
    "'x tx_lib \<Rightarrow> 'x runtime option \<Rightarrow> go_context
      \<Rightarrow> (go_context \<Rightarrow> nat \<Rightarrow> 'x \<Rightarrow> go_error option \<times> 'x) \<Rightarrow> 'x \<Rightarrow> go_error option \<times> 'x" where
  "runtime_WithTx lib rt ctx fn s =
     (case (case rt of None \<Rightarrow> None | Some rt \<Rightarrow> rt_Tx rt) of
        None \<Rightarrow> (Some (Errorf ''runtime transaction manager is nil''), s)
      | Some m \<Rightarrow> WithTx lib (Some m) ctx fn s)"

definition runtime_DBFromContext :: "'x tx_lib \<Rightarrow> 'x runtime option \<Rightarrow> go_context \<Rightarrow> nat option outcome" where
  "runtime_DBFromContext lib rt ctx =
     (case (case rt of None \<Rightarrow> None | Some rt \<Rightarrow> rt_Tx rt) of
        None \<Rightarrow> Ret None | Some m \<Rightarrow> tx_DB lib (Some m) ctx)"

section \<open>Entry points\<close>

definition envOr :: "(string \<Rightarrow> string) \<Rightarrow> string \<Rightarrow> string \<Rightarrow> string" where
  "envOr getenv k fallback = (let v = getenv k in if v \<noteq> [] then v else fallback)"

record 'x runtime_factory_options =
  rf_ConfigPaths :: "string list"
  rf_RuntimeOptions :: "('x runtime \<Rightarrow> 'x runtime) option list"

definition starter_LoadConfig ::
    "(string \<Rightarrow> string) \<Rightarrow> config_lib \<Rightarrow> string list \<Rightarrow> config option \<times> go_error option" where
  "starter_LoadConfig getenv lib paths =
     config_Load lib
       (if paths = [] then [envOr getenv ''AISPHERE_CONFIG'' ''configs/config.yaml''] else paths)"

definition NewRuntimeFromConfig ::
    "(string \<Rightarrow> string) \<Rightarrow> config_lib \<Rightarrow> 'x runtime_lib \<Rightarrow> string list
      \<Rightarrow> ('x runtime \<Rightarrow> 'x runtime) option list \<Rightarrow> 'x world
      \<Rightarrow> (go_error + config \<times> 'x runtime \<times> 'x cleanup_stack) \<times> 'x world" where
  "NewRuntimeFromConfig getenv cl lib paths opts w =
     (case starter_LoadConfig getenv cl paths of
        (cfg, Some err) \<Rightarrow> (Inl err, w)
      | (None, None) \<Rightarrow> (Inl nil_dereference, w)
      | (Some cfg, None) \<Rightarrow>
          (case NewRuntime lib cfg opts w of
             (Inl err, w') \<Rightarrow> (Inl err, w')
           | (Inr (rt, stack), w') \<Rightarrow> (Inr (cfg, rt, stack), w')))"

section \<open>Facts about cleanup\<close>

text \<open>Which functions run, and in which order: every one of them, the last added first.\<close>

definition traced :: "'i \<Rightarrow> 'x fallible \<Rightarrow> ('i list \<times> 'x) fallible" where
  "traced i f = (\<lambda>(log, s). case f s of (e, s') \<Rightarrow> (e, (log @ [i], s')))"

lemma cleanup_loop_traced:
  "cleanup_loop (map (\<lambda>i. traced i (f i)) is) (log, s) =
     (case cleanup_loop (map f is) s of (errs, s') \<Rightarrow> (errs, (log @ is, s')))"
  by (induction "is" arbitrary: log s) (auto simp: traced_def split: prod.splits option.splits)

lemma cleanup_Close_traced:
  "cleanup_Close (map (\<lambda>i. traced i (f i)) is) ([], s) =
     (case cleanup_Close (map f is) s of (e, s') \<Rightarrow> (e, (rev is, s')))"
  by (simp add: cleanup_Close_def rev_map cleanup_loop_traced split: prod.splits)

lemma cleanup_loop_states: "snd (cleanup_loop fs s) = fold (\<lambda>g s. snd (g s)) fs s"
  by (induction fs arbitrary: s) (simp_all add: case_prod_unfold split: option.splits)

lemma cleanup_loop_no_errors:
  "fst (cleanup_loop fs s) = [] \<longleftrightarrow>
    (\<forall>i < length fs. fst ((fs ! i) (fold (\<lambda>g s. snd (g s)) (take i fs) s)) = None)"
proof (induction fs arbitrary: s)
  case (Cons f fs)
  have all: "(\<forall>i < Suc n. Q i) \<longleftrightarrow> Q 0 \<and> (\<forall>i < n. Q (Suc i))" for Q n
    by (auto simp: less_Suc_eq_0_disj)
  obtain e s1 where f: "f s = (e, s1)" by fastforce
  show ?case using Cons [of s1] f by (cases e) (simp_all add: all case_prod_unfold)
qed simp

lemma cleanup_loop_append:
  "cleanup_loop (fs @ gs) s =
     (case cleanup_loop fs s of (errs, s') \<Rightarrow> (case cleanup_loop gs s' of (errs', s'') \<Rightarrow> (errs @ errs', s'')))"
  by (induction fs arbitrary: s) (auto split: prod.splits option.splits)

lemma cleanup_Close_snoc:
  "snd (cleanup_Close (stack @ [f]) s) = snd (cleanup_Close stack (snd (f s)))"
  by (auto simp: cleanup_Close_def split: prod.splits option.splits)

section \<open>No connection pool is left behind\<close>

lemma init_then_Inr [return_iff]:
  "init_then r f = (Inr i, w) \<longleftrightarrow> (\<exists>i0 w0. r = (Inr i0, w0) \<and> f i0 = (Inr i, w))"
  by (auto simp: init_then_def split: prod.splits sum.splits)

lemma init_then_Inl:
  "init_then r f = (Inl err, w) \<longleftrightarrow>
    r = (Inl err, w) \<or> (\<exists>i0 w0. r = (Inr i0, w0) \<and> f i0 = (Inl err, w))"
  by (auto simp: init_then_def split: prod.splits sum.splits)

text \<open>The stack closes the pools \<open>P\<close> and no other.\<close>

definition frees :: "('x \<Rightarrow> pool set) \<Rightarrow> 'x cleanup_stack \<Rightarrow> pool set \<Rightarrow> bool" where
  "frees pools stack P \<longleftrightarrow> (\<forall>s. pools (snd (cleanup_Close stack s)) = pools s - P)"

lemma frees_Nil [simp]: "frees pools [] {}"
  by (simp add: frees_def cleanup_Close_def)

lemma frees_snoc:
  "frees pools stack P \<Longrightarrow> (\<And>s. pools (snd (f s)) = pools s) \<Longrightarrow> frees pools (stack @ [f]) P"
  by (simp add: frees_def cleanup_Close_snoc)

definition init_ok :: "('x \<Rightarrow> pool set) \<Rightarrow> pool set \<Rightarrow> 'x init \<Rightarrow> bool" where
  "init_ok pools P0 = (\<lambda>(rt, stack, w).
     \<exists>P. frees pools stack P \<and> P \<inter> P0 = {} \<and> pools (service w) = P0 \<union> P)"

lemma fail_init_not_Inr [simp]: "fail_init err stack w \<noteq> (Inr j, w')"
  by (simp add: fail_init_def)

lemma fail_init_frees:
  "init_ok pools P0 (rt, stack, w) \<Longrightarrow> fail_init err stack w = (r, w') \<Longrightarrow> pools (service w') = P0"
  by (auto simp: fail_init_def init_ok_def frees_def)

text \<open>
  A part of the initialisation that keeps its promise: on success the stack closes all the pools opened
  since the start, on failure they are closed already.
\<close>

definition init_part :: "('x \<Rightarrow> pool set) \<Rightarrow> ('x init \<Rightarrow> (go_error + 'x init) \<times> 'x world) \<Rightarrow> bool" where
  "init_part pools f \<longleftrightarrow>
     (\<forall>P0 i. init_ok pools P0 i \<longrightarrow>
        (case f i of (Inl err, w) \<Rightarrow> pools (service w) = P0
         | (Inr j, w) \<Rightarrow> init_ok pools P0 j \<and> snd (snd j) = w))"

lemma init_partI [intro?]:
  assumes "\<And>P0 rt stack w r w'. init_ok pools P0 (rt, stack, w) \<Longrightarrow> f (rt, stack, w) = (r, w') \<Longrightarrow>
    (case r of Inl err \<Rightarrow> pools (service w') = P0 | Inr j \<Rightarrow> init_ok pools P0 j \<and> snd (snd j) = w')"
  shows "init_part pools f"
  unfolding init_part_def
proof (intro allI impI)
  fix P0 and i :: "'a init"
  assume ok: "init_ok pools P0 i"
  obtain rt stack w where i: "i = (rt, stack, w)" by (rule prod_cases3)
  obtain r w' where r: "f (rt, stack, w) = (r, w')" using prod.exhaust by blast
  from assms [OF ok [unfolded i] r] show "case f i of (Inl err, w) \<Rightarrow> pools (service w) = P0
         | (Inr j, w) \<Rightarrow> init_ok pools P0 j \<and> snd (snd j) = w"
    unfolding i r by simp
qed

lemma init_then_part:
  assumes "init_part pools f"
    and "case r of (Inl err, w) \<Rightarrow> pools (service w) = P0
         | (Inr j, w) \<Rightarrow> init_ok pools P0 j \<and> snd (snd j) = w"
  shows "case init_then r f of (Inl err, w) \<Rightarrow> pools (service w) = P0
         | (Inr j, w) \<Rightarrow> init_ok pools P0 j \<and> snd (snd j) = w"
proof (cases r)
  case (Pair q v)
  show ?thesis
  proof (cases q)
    case (Inl e)
    with Pair assms(2) show ?thesis by (simp add: init_then_def)
  next
    case (Inr j)
    with Pair assms(2) have "init_ok pools P0 j" by simp
    from assms(1) [unfolded init_part_def, rule_format, OF this] Pair Inr show ?thesis
      by (simp add: init_then_def)
  qed
qed

text \<open>
  What the libraries are assumed to leave alone: only GORM opens and closes connection pools.
\<close>

locale runtime_pools = sql_pools "rl_gorm lib" pools
  for lib :: "'x runtime_lib" and pools :: "'x \<Rightarrow> pool set" +
  assumes register_keeps: "rl_Register lib name s = (re, s') \<Longrightarrow> pools s' = pools s"
    and dialed_keeps: "c = dial_single (rl_dialer lib) o1 \<or> c = dial_cluster (rl_dialer lib) o1 \<Longrightarrow>
      rd_Ping c s = (e1, s') \<or> rd_Close c s = (e1, s') \<Longrightarrow> pools s' = pools s"
    and minio_keeps: "rl_minio lib mcfg = Inr sdk \<Longrightarrow>
      mi_BucketExists sdk b s = (be, s') \<or> mi_MakeBucket sdk b reg s = (e1, s') \<Longrightarrow> pools s' = pools s"
begin

lemma frees_db:
  assumes "frees pools stack P" and "db_SQL d = Some p"
  shows "frees pools (stack @ [database_Close (rl_gorm lib) d]) (insert p P)"
proof -
  have "pools (snd (database_Close (rl_gorm lib) d s)) = pools s - {p}" for s
    using Close_pools [OF _ assms(2)] by (cases "database_Close (rl_gorm lib) d s") auto
  with assms(1) show ?thesis
    unfolding frees_def cleanup_Close_snoc by auto
qed

lemma NewRedis_pools:
  assumes "NewRedis (rl_dialer lib) cfg w = (r, w')"
  shows "pools (service w') = pools (service w)"
    and "r = Inr h \<Longrightarrow> pools (snd (redis_Close (Some h) s)) = pools s"
proof -
  have keep: "pools (snd (rd_Ping c s)) = pools s \<and> pools (snd (rd_Close c s)) = pools s"
    if "redis_client_for (rl_dialer lib) cfg = Inr c" for c s
  proof -
    have "c = dial_single (rl_dialer lib) (single_options cfg) \<or>
        c = dial_cluster (rl_dialer lib) (cluster_options cfg)"
      using that by (auto simp: redis_client_for_def split: if_splits)
    then show ?thesis
      using dialed_keeps [of c _ s "fst (rd_Ping c s)" "snd (rd_Ping c s)"]
        dialed_keeps [of c _ s "fst (rd_Close c s)" "snd (rd_Close c s)"] by auto
  qed
  show "pools (service w') = pools (service w)"
  proof (cases "redis_client_for (rl_dialer lib) cfg")
    case (Inl e)
    with assms show ?thesis by (simp add: NewRedis_def)
  next
    case (Inr c)
    obtain e1 s1 where pg: "rd_Ping c (service w) = (e1, s1)" by fastforce
    then have "pools s1 = pools (service w)" using keep [OF Inr, of "service w"] by simp
    with assms Inr pg keep [OF Inr, of s1] show ?thesis
      by (cases e1) (auto simp: NewRedis_def Let_def)
  qed
  show "pools (snd (redis_Close (Some h) s)) = pools s" if "r = Inr h"
    using NewRedis_ok [OF assms [unfolded that]] keep by (auto simp: redis_Close_def)
qed

lemma BucketExists_pools:
  assumes "rl_minio lib mcfg = Inr (mn_client m)" and "minio_BucketExists m w = (r, w')"
  shows "pools (service w') = pools (service w)"
proof -
  obtain x e s where b: "mi_BucketExists (mn_client m) (mo_Bucket (mn_cfg m)) (service w) = ((x, e), s)"
    by (metis surj_pair)
  then have "pools s = pools (service w)" using minio_keeps [OF assms(1)] by blast
  moreover have "service w' = s"
    using assms(2) b by (auto simp: minio_BucketExists_def Let_def split: option.splits)
  ultimately show ?thesis by simp
qed

lemma EnsureBucket_pools:
  assumes "rl_minio lib mcfg = Inr (mn_client m)" and "minio_EnsureBucket m w = (r, w')"
  shows "pools (service w') = pools (service w)"
proof -
  obtain x e w1 where b: "minio_BucketExists m w = ((x, e), w1)" by (metis surj_pair)
  obtain e2 s2 where mk: "mi_MakeBucket (mn_client m) (mo_Bucket (mn_cfg m)) (mo_Region (mn_cfg m)) (service w1)
      = (e2, s2)" by fastforce
  then have s2: "pools s2 = pools (service w1)" using minio_keeps [OF assms(1)] by blast
  have "service w' = service w1 \<or> service w' = s2"
    using assms(2) b mk by (auto simp: minio_EnsureBucket_def split: option.splits if_splits)
  with s2 BucketExists_pools [OF assms(1) b] show ?thesis by auto
qed

lemma NewMinIO_pools:
  assumes "NewMinIO (rl_minio lib) cfg w = (r, w')"
  shows "pools (service w') = pools (service w)"
proof (cases "mo_Provider cfg \<noteq> [] \<and> mo_Provider cfg \<noteq> ''minio'' \<or>
    mo_Endpoint cfg = [] \<or> mo_AccessKey cfg = [] \<or> mo_SecretKey cfg = [] \<or> mo_Bucket cfg = []")
  case True
  with assms show ?thesis by (auto simp: NewMinIO_def split: if_splits)
next
  case False
  show ?thesis
  proof (cases "rl_minio lib cfg")
    case (Inl e)
    with assms False show ?thesis by (auto simp: NewMinIO_def)
  next
    case (Inr cli)
    let ?m = "\<lparr>mn_cfg = cfg, mn_client = cli\<rparr>"
    have m: "rl_minio lib cfg = Inr (mn_client ?m)" using Inr by simp
    obtain x e w1 where b: "minio_BucketExists ?m w = ((x, e), w1)" by (metis surj_pair)
    obtain e2 w2 where en: "(if \<not> x \<and> mo_AutoCreateBucket cfg then minio_EnsureBucket ?m w1 else (None, w1))
        = (e2, w2)" by fastforce
    then have w2: "pools (service w2) = pools (service w1)"
      using EnsureBucket_pools [OF m] by (auto split: if_splits)
    have "service w' = service w1 \<or> service w' = service w2"
      using assms False Inr b en by (auto simp: NewMinIO_def Let_def split: option.splits)
    with w2 BucketExists_pools [OF m b] show ?thesis by auto
  qed
qed

lemma register_all_keeps: "register_all (rl_Register lib) cs s = (e, s') \<Longrightarrow> pools s' = pools s"
proof (induction cs arbitrary: s)
  case (Cons c cs)
  obtain re s1 where r: "rl_Register lib c s = (re, s1)" by fastforce
  with Cons register_keeps [OF r] show ?case
    by (auto simp: metrics_register_def split: option.splits register_error.splits)
qed simp

lemma init_metrics_part: "init_part pools (init_metrics lib cfg)"
proof
  fix P0 rt stack w r w'
  assume ok: "init_ok pools P0 (rt, stack, w)" and run: "init_metrics lib cfg (rt, stack, w) = (r, w')"
  obtain q s where m: "metrics_NewWithRegistry (cf_Metrics cfg) (cf_AppName cfg) (rl_Register lib) (service w) = (q, s)"
    by fastforce
  then have s: "pools s = pools (service w)"
    by (auto simp: metrics_NewWithRegistry_def Let_def simp del: register_all.simps
        dest!: register_all_keeps split: prod.splits option.splits)
  then have ok': "init_ok pools P0 (rt, stack, v\<lparr>service := s\<rparr>)" for v
    using ok by (auto simp: init_ok_def)
  then show "case r of Inl err \<Rightarrow> pools (service w') = P0 | Inr j \<Rightarrow> init_ok pools P0 j \<and> snd (snd j) = w'"
    using run m ok fail_init_frees [OF ok']
    by (auto simp: init_metrics_def metrics_New_def Let_def init_ok_def split: if_splits sum.splits)
qed

lemma init_database_part: "init_part pools (init_database lib cfg)"
proof
  fix P0 rt stack w r w'
  assume ok: "init_ok pools P0 (rt, stack, w)" and run: "init_database lib cfg (rt, stack, w) = (r, w')"
  show "case r of Inl err \<Rightarrow> pools (service w') = P0 | Inr j \<Rightarrow> init_ok pools P0 j \<and> snd (snd j) = w'"
  proof (cases "ft_DB (cf_Features cfg)")
    case False
    with run ok show ?thesis by (auto simp: init_database_def)
  next
    case True
    obtain q w1 where d: "NewDatabase (rl_dsn lib) (rl_gorm lib) (cf_Database cfg) w = (q, w1)" by fastforce
    show ?thesis
    proof (cases q)
      case (Inl e)
      then have "init_ok pools P0 (rt, stack, w1)" using ok NewDatabase_pools [OF d] by (simp add: init_ok_def)
      from fail_init_frees [OF this] True Inl d run show ?thesis
        by (auto simp: init_database_def fail_init_def)
    next
      case (Inr db)
      then obtain p where p: "db_SQL db = Some p" "p \<notin> pools (service w)"
          "pools (service w1) = insert p (pools (service w))" using NewDatabase_pools [OF d] by auto
      obtain P where P: "frees pools stack P" "P \<inter> P0 = {}" "pools (service w) = P0 \<union> P"
        using ok by (auto simp: init_ok_def)
      have "frees pools (stack @ [database_Close (rl_gorm lib) db]) (insert p P)"
        using frees_db P(1) p(1) by blast
      with P p True Inr d run show ?thesis
        by (auto simp: init_database_def cleanup_Add_def init_ok_def intro!: exI [of _ "insert p P"])
    qed
  qed
qed

lemma init_cache_part: "init_part pools (init_cache lib cfg)"
proof
  fix P0 rt stack w r w'
  assume ok: "init_ok pools P0 (rt, stack, w)" and run: "init_cache lib cfg (rt, stack, w) = (r, w')"
  show "case r of Inl err \<Rightarrow> pools (service w') = P0 | Inr j \<Rightarrow> init_ok pools P0 j \<and> snd (snd j) = w'"
  proof (cases "ft_Cache (cf_Features cfg)")
    case False
    with run ok show ?thesis by (auto simp: init_cache_def)
  next
    case True
    obtain q w1 where d: "NewRedis (rl_dialer lib) (cf_Redis cfg) w = (q, w1)" by fastforce
    show ?thesis
    proof (cases q)
      case (Inl e)
      then have "init_ok pools P0 (rt, stack, w1)" using ok NewRedis_pools(1) [OF d] by (simp add: init_ok_def)
      from fail_init_frees [OF this] True Inl d run show ?thesis
        by (auto simp: init_cache_def fail_init_def)
    next
      case (Inr h)
      obtain P where P: "frees pools stack P" "P \<inter> P0 = {}" "pools (service w) = P0 \<union> P"
        using ok by (auto simp: init_ok_def)
      have "frees pools (stack @ [redis_Close (Some h)]) P"
        using frees_snoc [OF P(1)] NewRedis_pools(2) [OF d Inr] by blast
      with P NewRedis_pools(1) [OF d] True Inr d run show ?thesis
        by (auto simp: init_cache_def cleanup_Add_def init_ok_def Let_def intro!: exI [of _ P])
    qed
  qed
qed

lemma init_s3_part: "init_part pools (init_s3 lib cfg)"
proof
  fix P0 rt stack w r w'
  assume ok: "init_ok pools P0 (rt, stack, w)" and run: "init_s3 lib cfg (rt, stack, w) = (r, w')"
  obtain q w1 where d: "NewMinIO (rl_minio lib) (cf_ObjectStore cfg) w = (q, w1)" by fastforce
  then have ok1: "init_ok pools P0 (rt', stack, w1)" for rt'
    using ok NewMinIO_pools [OF d] by (simp add: init_ok_def)
  show "case r of Inl err \<Rightarrow> pools (service w') = P0 | Inr j \<Rightarrow> init_ok pools P0 j \<and> snd (snd j) = w'"
    using run d ok ok1 fail_init_frees [OF ok1]
    by (auto simp: init_s3_def split: if_splits sum.splits)
qed

lemma init_casdoor_part: "init_part pools (init_casdoor lib cfg)"
proof
  fix P0 rt stack w r w'
  assume ok: "init_ok pools P0 (rt, stack, w)" and run: "init_casdoor lib cfg (rt, stack, w) = (r, w')"
  have ok1: "init_ok pools P0 (rt', stack, w)" for rt'
    using ok by (simp add: init_ok_def)
  show "case r of Inl err \<Rightarrow> pools (service w') = P0 | Inr j \<Rightarrow> init_ok pools P0 j \<and> snd (snd j) = w'"
    using run ok ok1 fail_init_frees [OF ok1]
    by (auto simp: init_casdoor_def Let_def split: if_splits sum.splits)
qed

lemma NewRuntime_pools:
  assumes "NewRuntime lib cfg opts w = (r, w')"
  shows "case r of
      Inl err \<Rightarrow> pools (service w') = pools (service w)
    | Inr (rt, stack) \<Rightarrow> \<exists>P. frees pools stack P \<and> P \<inter> pools (service w) = {} \<and>
        pools (service w') = pools (service w) \<union> P"
proof -
  define rt0 where "rt0 = fold (\<lambda>opt rt. case opt of None \<Rightarrow> rt | Some f \<Rightarrow> f rt) opts (new_runtime cfg :: 'x runtime)"
  let ?r1 = "init_metrics lib cfg (rt0, [], w)"
  let ?r5 = "init_then (init_then (init_then (init_then ?r1 (init_database lib cfg)) (init_cache lib cfg))
    (init_s3 lib cfg)) (init_casdoor lib cfg)"
  have "init_ok pools (pools (service w)) (rt0, [], w)"
    by (auto simp: init_ok_def intro!: exI [of _ "{}"])
  then have "case ?r1 of (Inl err, v) \<Rightarrow> pools (service v) = pools (service w)
         | (Inr j, v) \<Rightarrow> init_ok pools (pools (service w)) j \<and> snd (snd j) = v"
    using init_metrics_part [of cfg] unfolding init_part_def by simp
  then have "case ?r5 of (Inl err, v) \<Rightarrow> pools (service v) = pools (service w)
         | (Inr j, v) \<Rightarrow> init_ok pools (pools (service w)) j \<and> snd (snd j) = v"
    by (intro init_then_part init_database_part init_cache_part init_s3_part init_casdoor_part)
  then show ?thesis
    using assms unfolding NewRuntime_def rt0_def [symmetric] Let_def
    by (cases ?r5) (auto simp: init_ok_def split: sum.splits)
qed

end

section \<open>Libraries in memory\<close>

text \<open>
  All the services of a small deployment over the database server in memory: a registry that accepts
  every collector, a Redis that answers, a bucket that exists, and Casdoor with no policy.
\<close>

definition idle_redis :: "'x redis_client" where
  "idle_redis =
     \<lparr>rd_Ping = (\<lambda>s. (None, s)), rd_Close = (\<lambda>s. (None, s)), rd_Set = (\<lambda>k v ttl s. (None, s)),
      rd_SetNX = (\<lambda>k v ttl s. ((True, None), s)), rd_Get = (\<lambda>k s. (Inl redis_Nil, s)),
      rd_GetDel = (\<lambda>k s. (Inl redis_Nil, s)), rd_Exists = (\<lambda>k s. (Inr 0, s)),
      rd_Eval = (\<lambda>scr keys args s. ((0, None), s))\<rparr>"

definition no_object :: go_error where "no_object = ErrExt ''The specified key does not exist.''"

definition empty_bucket :: "'x minio_sdk" where
  "empty_bucket =
     \<lparr>mi_BucketExists = (\<lambda>b s. ((True, None), s)), mi_MakeBucket = (\<lambda>b r s. (None, s)),
      mi_PutObject = (\<lambda>b k c n p s. (Inl (ErrExt ''read only''), s)),
      mi_GetObject = (\<lambda>b k r s. (Inl no_object, s)), mi_ObjectStat = (\<lambda>n s. (Inl no_object, s)),
      mi_ObjectClose = (\<lambda>n s. (None, s)), mi_RemoveObject = (\<lambda>b k s. (None, s)),
      mi_StatObject = (\<lambda>b k s. (Inl no_object, s)), mi_ListObjects = (\<lambda>b p r s. ([], s)),
      mi_CopyObject = (\<lambda>b k k' m s. (Inl no_object, s)),
      mi_PresignedPutObject = (\<lambda>b k d s. (Inr k, s)), mi_PresignedGetObject = (\<lambda>b k d s. (Inr k, s))\<rparr>"

definition no_certificates :: certlib where
  "no_certificates =
     \<lparr>ReadFile = (\<lambda>_. Inl (ErrExt ''no such file'')), pem_Decode = (\<lambda>_. None),
      ParseCertificate = (\<lambda>_. Inl (ErrExt ''malformed'')), ParsePKIXPublicKey = (\<lambda>_. Inl (ErrExt ''malformed'')),
      ParsePKCS1PublicKey = (\<lambda>_. Some (ErrExt ''malformed''))\<rparr>"

definition mem_runtime :: "dsn_lib \<Rightarrow> sql_mem runtime_lib" where
  "mem_runtime dl =
     \<lparr>rl_Register = (\<lambda>_ s. (None, s)), rl_dsn = dl, rl_gorm = mem_sql,
      rl_dialer = \<lparr>dial_single = (\<lambda>_. idle_redis), dial_cluster = (\<lambda>_. idle_redis)\<rparr>,
      rl_minio = (\<lambda>_. Inr empty_bucket), rl_cert = no_certificates, rl_casdoor = (\<lambda>_. idle_casdoor)\<rparr>"

interpretation mem_rt: runtime_pools "mem_runtime dl" "\<lambda>s. set (sq_pools s)" for dl
proof -
  have "rl_gorm (mem_runtime dl) = mem_sql" by (simp add: mem_runtime_def)
  then have "sql_pools (rl_gorm (mem_runtime dl)) (\<lambda>s. set (sq_pools s))"
    using mem_pools.sql_pools_axioms by simp
  then show "runtime_pools (mem_runtime dl) (\<lambda>s. set (sq_pools s))"
    by (rule runtime_pools.intro, unfold_locales)
      (auto simp: mem_runtime_def idle_redis_def empty_bucket_def)
qed

section \<open>Properties of the runtime\<close>


definition cache_and_db :: config where
  "cache_and_db = config_Default\<lparr>cf_AppName := ''hub'', cf_Database := mysql_config,
     cf_Features := \<lparr>ft_DB = True, ft_Cache = True, ft_S3 = False, ft_Authn = False, ft_Authz = False,
       ft_Audit = False, ft_Metrics = False, ft_Tracing = False, ft_Session = True, ft_Permission = False,
       ft_Sharing = False\<rparr>\<rparr>"

lemma cache_and_db_sel [simp]:
  "cf_Features cache_and_db = \<lparr>ft_DB = True, ft_Cache = True, ft_S3 = False, ft_Authn = False,
     ft_Authz = False, ft_Audit = False, ft_Metrics = False, ft_Tracing = False, ft_Session = True,
     ft_Permission = False, ft_Sharing = False\<rparr>"
  "cf_Database cache_and_db = mysql_config" "rc_Mode (cf_Redis cache_and_db) = ''single''"
  "rc_Addr (cf_Redis cache_and_db) = ''127.0.0.1:6379''"
  by (simp_all add: cache_and_db_def config_Default_def)

lemma mem_runtime_sel [simp]:
  "rl_gorm (mem_runtime dl) = mem_sql" "rl_dsn (mem_runtime dl) = dl"
  "rl_dialer (mem_runtime dl) = \<lparr>dial_single = (\<lambda>_. idle_redis), dial_cluster = (\<lambda>_. idle_redis)\<rparr>"
  by (simp_all add: mem_runtime_def)

lemma mysql_run: "\<exists>d w'. NewDatabase no_dsn_lib mem_sql mysql_config mysql_start = (Inr d, w')"
  by (simp add: NewDatabase_def database_Normalize_def canonicalDriver_def mysql_config_def NewMySQL_def
      slow_threshold_def open_database_def mem_sql_def mysql_start_def fresh_pool_def applyPool_def
      pingWithDeps_def Let_def)

lemma idle_redis_run:
  "\<exists>h w'. NewRedis (rl_dialer (mem_runtime dl)) (cf_Redis cache_and_db) w = (Inr h, w')"
  by (simp add: NewRedis_def redis_client_for_def redis_mode_def idle_redis_def)

lemma cache_and_db_run:
  "\<exists>rt cleanup w'. NewRuntime (mem_runtime no_dsn_lib) cache_and_db [None] mysql_start =
    (Inr (rt, cleanup), w')"
proof -
  obtain d w1 where d: "NewDatabase no_dsn_lib mem_sql mysql_config mysql_start = (Inr d, w1)"
    using mysql_run by blast
  obtain h w2 where h: "NewRedis (rl_dialer (mem_runtime no_dsn_lib)) (cf_Redis cache_and_db) w1 = (Inr h, w2)"
    using idle_redis_run by blast
  show ?thesis
    using d h by (simp add: NewRuntime_def init_metrics_def metrics_New_def init_database_def init_cache_def init_s3_def
      init_casdoor_def init_then_def Let_def)
qed


text \<open>
  C39: cleanup is complete and in reverse order. Close runs every function of the stack exactly once, the
  last added first, also after one of them has failed, and returns nil exactly when all of them did.
\<close>

theorem cleanup_reverse_complete:
  "fst (snd (cleanup_Close (map (\<lambda>i. traced i (f i)) is) ([], s))) = rev is \<and>
   snd (snd (cleanup_Close (map (\<lambda>i. traced i (f i)) is) ([], s))) = snd (cleanup_Close (map f is) s) \<and>
   snd (cleanup_Close fs s) = fold (\<lambda>g s. snd (g s)) (rev fs) s \<and>
   (fst (cleanup_Close fs s) = None \<longleftrightarrow>
     (\<forall>i < length fs. fst ((rev fs ! i) (fold (\<lambda>g s. snd (g s)) (take i (rev fs)) s)) = None))"
  using cleanup_Close_traced [of f "is" s] cleanup_loop_states [of "rev fs" s]
    cleanup_loop_no_errors [of "rev fs" s]
  by (simp add: cleanup_Close_def case_prod_unfold)

theorem cleanup_reverse_complete_witness:
  "snd (cleanup_Close [\<lambda>s. (None, s @ [1]), \<lambda>s. (Some (ErrExt ''boom''), s @ [2 :: nat])] []) = [2, 1]"
  using cleanup_reverse_complete [of "\<lambda>_. cleanup_Close []" "[]" "[] :: nat list"
      "[\<lambda>s. (None, s @ [1]), \<lambda>s. (Some (ErrExt ''boom''), s @ [2])]",
      THEN conjunct2, THEN conjunct2, THEN conjunct1]
  by simp

section \<open>What a started runtime has\<close>

text \<open>
  The clients of a runtime that was built without options, per feature of the configuration: nothing that
  is switched off, everything that is switched on. Casdoor serves four features with one adapter.
\<close>

definition casdoor_wanted :: "config \<Rightarrow> bool" where
  "casdoor_wanted cfg \<longleftrightarrow>
     (let f = cf_Features cfg in ft_Authn f \<or> ft_Authz f \<or> ft_Audit f \<or> ft_Permission f)"

definition has_features :: "config \<Rightarrow> 'x runtime \<Rightarrow> 'x cleanup_stack \<Rightarrow> bool" where
  "has_features cfg rt cleanup \<longleftrightarrow>
     (let f = cf_Features cfg in
      (if ft_DB f then \<exists>d. rt_Database rt = Some d \<and> rt_SQL rt = Some d \<and> rt_DB rt = db_GORM d \<and>
           db_Driver d = canonicalDriver (dc_Driver (cf_Database cfg)) \<and>
           rt_Tx rt = Some (NewTxManager (db_GORM d))
       else rt_Database rt = None \<and> rt_SQL rt = None \<and> rt_DB rt = None \<and> rt_Tx rt = None) \<and>
      (if ft_Cache f then \<exists>r. rt_RedisRuntime rt = Some r \<and> rt_Redis rt = rh_Client r \<and>
           rt_Session rt = (if ft_Session f then Some (session_NewManager (rh_Client r) (cf_Session cfg)) else None)
       else rt_RedisRuntime rt = None \<and> rt_Redis rt = None \<and> rt_Session rt = None) \<and>
      (rt_S3 rt \<noteq> None \<longleftrightarrow> ft_S3 f) \<and>
      (rt_Casdoor rt \<noteq> None \<longleftrightarrow> casdoor_wanted cfg) \<and>
      rt_Authn rt = rt_Casdoor rt \<and> rt_Authz rt = rt_Casdoor rt \<and> rt_Audit rt = rt_Casdoor rt \<and>
      rt_Permission rt = (if ft_Permission f then rt_Casdoor rt else None) \<and>
      rt_Access rt = (rt_Casdoor rt, rt_Casdoor rt, cf_AppName cfg) \<and>
      length cleanup = (if ft_DB f then 1 else 0) + (if ft_Cache f then 1 else 0))"

lemma init_metrics_ok:
  "init_metrics lib cfg (rt, stack, w) = (Inr (rt', stack', v), w') \<Longrightarrow> rt' = rt \<and> stack' = stack"
  by (auto simp: init_metrics_def metrics_New_def fail_init_def Let_def split: if_splits sum.splits prod.splits)

lemma NewDatabase_driver:
  "NewDatabase dl lib cfg w = (Inr d, w') \<Longrightarrow> db_Driver d = canonicalDriver (dc_Driver cfg)"
  by (auto simp: NewDatabase_def database_Normalize_def db_methods Let_def split: if_splits sum.splits prod.splits)

lemma init_database_ok:
  assumes "init_database lib cfg (rt, stack, w) = (Inr (rt', stack', v), w')"
  shows "if ft_DB (cf_Features cfg)
    then \<exists>d f. rt' = rt\<lparr>rt_Database := Some d, rt_SQL := Some d, rt_DB := db_GORM d, rt_Tx := Some (NewTxManager (db_GORM d))\<rparr> \<and>
      db_Driver d = canonicalDriver (dc_Driver (cf_Database cfg)) \<and> stack' = stack @ [f]
    else rt' = rt \<and> stack' = stack"
  using assms
  by (auto simp: init_database_def fail_init_def cleanup_Add_def dest: NewDatabase_driver
      split: if_splits sum.splits prod.splits)

lemma no_session: "rt_Session rt = None \<Longrightarrow> rt\<lparr>rt_Session := None\<rparr> = (rt :: 'x runtime)"
  by (cases rt) simp

lemma no_permission: "rt_Permission rt = None \<Longrightarrow> rt\<lparr>rt_Permission := None\<rparr> = (rt :: 'x runtime)"
  by (cases rt) simp

lemma init_cache_ok:
  assumes "init_cache lib cfg (rt, stack, w) = (Inr (rt', stack', v), w')" and "rt_Session rt = None"
  shows "if ft_Cache (cf_Features cfg)
    then \<exists>r f. rt' = rt\<lparr>rt_RedisRuntime := Some r, rt_Redis := rh_Client r,
        rt_Session := (if ft_Session (cf_Features cfg)
          then Some (session_NewManager (rh_Client r) (cf_Session cfg)) else None)\<rparr> \<and> stack' = stack @ [f]
    else rt' = rt \<and> stack' = stack"
proof (cases "ft_Cache (cf_Features cfg)")
  case False
  with assms show ?thesis by (simp add: init_cache_def)
next
  case True
  obtain r w1 where r: "NewRedis (rl_dialer lib) (cf_Redis cfg) w = (r, w1)" by fastforce
  show ?thesis
  proof (cases r)
    case (Inl e)
    with assms True r show ?thesis by (simp add: init_cache_def)
  next
    case (Inr h)
    let ?rt1 = "rt\<lparr>rt_RedisRuntime := Some h, rt_Redis := rh_Client h\<rparr>"
    have "?rt1\<lparr>rt_Session := None\<rparr> = ?rt1" using assms(2) by (intro no_session) simp
    with assms True r Inr show ?thesis
      by (intro if_P [THEN iffD2]) (auto simp: init_cache_def cleanup_Add_def Let_def)
  qed
qed

lemma init_s3_ok:
  assumes "init_s3 lib cfg (rt, stack, w) = (Inr (rt', stack', v), w')"
  shows "if ft_S3 (cf_Features cfg) then \<exists>m. rt' = rt\<lparr>rt_S3 := Some m\<rparr> \<and> stack' = stack
    else rt' = rt \<and> stack' = stack"
  using assms
  by (auto simp: init_s3_def fail_init_def split: if_splits sum.splits prod.splits)

lemma init_casdoor_ok:
  assumes "init_casdoor lib cfg (rt, stack, w) = (Inr (rt', stack', v), w')" and "rt_Permission rt = None"
  shows "if casdoor_wanted cfg
    then \<exists>a. rt' = rt\<lparr>rt_Casdoor := Some a, rt_Authn := Some a, rt_Authz := Some a, rt_Audit := Some a,
        rt_Permission := (if ft_Permission (cf_Features cfg) then Some a else None)\<rparr> \<and> stack' = stack
    else rt' = rt \<and> stack' = stack"
proof (cases "casdoor_wanted cfg")
  case False
  with assms show ?thesis by (simp add: init_casdoor_def casdoor_wanted_def Let_def)
next
  case True
  define made where "made = (if ft_Authn (cf_Features cfg)
    then (case casdoor_NewChecked (rl_cert lib) (rl_casdoor lib) (cf_Casdoor cfg) of
        Inl err \<Rightarrow> Inl err | Inr a \<Rightarrow> Inr (Some a))
    else Inr (casdoor_New (rl_cert lib) (rl_casdoor lib) (cf_Casdoor cfg)))"
  have run: "init_casdoor lib cfg (rt, stack, w) = (case made of
      Inl err \<Rightarrow> fail_init (wrapf ''init casdoor: '' err []) stack w
    | Inr adapter \<Rightarrow>
        (let rt1 = rt\<lparr>rt_Casdoor := adapter, rt_Authn := adapter, rt_Authz := adapter, rt_Audit := adapter\<rparr>;
             rt2 = (if ft_Permission (cf_Features cfg) then rt1\<lparr>rt_Permission := adapter\<rparr> else rt1)
         in (Inr (rt2, stack, w), w)))"
    using True unfolding init_casdoor_def casdoor_wanted_def Let_def made_def by simp
  show ?thesis
  proof (cases made)
    case (Inl e)
    with assms run show ?thesis by simp
  next
    case (Inr adapter)
    have "casdoor_New (rl_cert lib) (rl_casdoor lib) (cf_Casdoor cfg) \<noteq> None"
      using casdoor_New_total [of "rl_cert lib" "rl_casdoor lib" "cf_Casdoor cfg"] by force
    moreover have "adapter = casdoor_New (rl_cert lib) (rl_casdoor lib) (cf_Casdoor cfg) \<or> (\<exists>a. adapter = Some a)"
      using Inr by (simp add: made_def split: if_splits sum.splits) auto
    ultimately have "adapter \<noteq> None" by (elim disjE) simp_all
    then obtain a where a: "adapter = Some a" by blast
    let ?rt1 = "rt\<lparr>rt_Casdoor := Some a, rt_Authn := Some a, rt_Authz := Some a, rt_Audit := Some a\<rparr>"
    have "?rt1\<lparr>rt_Permission := None\<rparr> = ?rt1" using assms(2) by (intro no_permission) simp
    with assms(1) run Inr a True show ?thesis
      by (intro if_P [THEN iffD2]) (auto simp: Let_def)
  qed
qed

lemma init_then_rt:
  "init_then r f = (Inr (rt', stack', v), w') \<longleftrightarrow>
    (\<exists>rt stack w0 w1. r = (Inr (rt, stack, w0), w1) \<and> f (rt, stack, w0) = (Inr (rt', stack', v), w'))"
  by (auto simp: init_then_Inr)

lemma if_splits_elim:
  "(if b then P else Q) \<Longrightarrow> (b \<Longrightarrow> P \<Longrightarrow> R) \<Longrightarrow> (\<not> b \<Longrightarrow> Q \<Longrightarrow> R) \<Longrightarrow> R"
  by (cases b) simp_all

lemma NewRuntime_has_features:
  assumes "NewRuntime lib cfg [] w = (Inr (rt, cleanup), w')"
  shows "has_features cfg rt cleanup"
proof -
  from assms obtain rt1 s1 v1 w1 rt2 s2 v2 w2 rt3 s3 v3 w3 rt4 s4 v4 w4 rt5 v5 where
    m: "init_metrics lib cfg (new_runtime cfg, [], w) = (Inr (rt1, s1, v1), w1)"
    and d: "init_database lib cfg (rt1, s1, v1) = (Inr (rt2, s2, v2), w2)"
    and c: "init_cache lib cfg (rt2, s2, v2) = (Inr (rt3, s3, v3), w3)"
    and o3: "init_s3 lib cfg (rt3, s3, v3) = (Inr (rt4, s4, v4), w4)"
    and a: "init_casdoor lib cfg (rt4, s4, v4) = (Inr (rt5, cleanup, v5), w')"
    and rt: "rt = rt5\<lparr>rt_Access := (rt_Authz rt5, rt_Audit rt5, cf_AppName cfg)\<rparr>"
    by (auto simp: NewRuntime_def Let_def init_then_rt split: prod.splits sum.splits)
  note st1 = init_metrics_ok [OF m]
  note st2 = init_database_ok [OF d]
  have no2: "rt_Session rt2 = None" using st1 st2 by (auto simp: new_runtime_def split: if_splits)
  note st3 = init_cache_ok [OF c no2]
  note st4 = init_s3_ok [OF o3]
  have no4: "rt_Permission rt4 = None"
    using st1 st2 st3 st4 by (auto simp: new_runtime_def split: if_splits)
  note st5 = init_casdoor_ok [OF a no4]
  have db: "rt_Database rt = rt_Database rt2 \<and> rt_SQL rt = rt_SQL rt2 \<and> rt_DB rt = rt_DB rt2 \<and> rt_Tx rt = rt_Tx rt2"
    using st3 st4 st5 unfolding rt by (elim if_splits_elim) auto
  have redis: "rt_RedisRuntime rt = rt_RedisRuntime rt3 \<and> rt_Redis rt = rt_Redis rt3 \<and> rt_Session rt = rt_Session rt3"
    using st4 st5 unfolding rt by (elim if_splits_elim) auto
  have s3: "rt_S3 rt = rt_S3 rt4 \<and> rt_S3 rt3 = rt_S3 (new_runtime cfg)"
    using st1 st2 st3 st5 unfolding rt by (elim if_splits_elim) auto
  have cas: "rt_Casdoor rt4 = None \<and> rt_Authn rt4 = None \<and> rt_Authz rt4 = None \<and> rt_Audit rt4 = None"
    using st1 st2 st3 st4 by (elim if_splits_elim) (auto simp: new_runtime_def)
  have len: "length cleanup = (if ft_DB (cf_Features cfg) then 1 else 0) + (if ft_Cache (cf_Features cfg) then 1 else 0)"
    using st1 st2 st3 st4 st5 by (elim if_splits_elim) auto
  have wanted: "ft_Permission (cf_Features cfg) \<Longrightarrow> casdoor_wanted cfg"
    by (simp add: casdoor_wanted_def Let_def)
  have off: "rt_Database rt1 = None" "rt_SQL rt1 = None" "rt_DB rt1 = None" "rt_Tx rt1 = None"
    "rt_RedisRuntime rt2 = None" "rt_Redis rt2 = None" "rt_S3 (new_runtime cfg) = None"
    using st1 st2 by (elim if_splits_elim; auto simp: new_runtime_def)+
  have c1: "if ft_DB (cf_Features cfg) then \<exists>d. rt_Database rt = Some d \<and> rt_SQL rt = Some d \<and> rt_DB rt = db_GORM d \<and>
           db_Driver d = canonicalDriver (dc_Driver (cf_Database cfg)) \<and> rt_Tx rt = Some (NewTxManager (db_GORM d))
       else rt_Database rt = None \<and> rt_SQL rt = None \<and> rt_DB rt = None \<and> rt_Tx rt = None"
    using st2 off(1-4) unfolding db [THEN conjunct1] db [THEN conjunct2, THEN conjunct1]
      db [THEN conjunct2, THEN conjunct2, THEN conjunct1] db [THEN conjunct2, THEN conjunct2, THEN conjunct2]
    by (auto split: if_splits)
  have c2: "if ft_Cache (cf_Features cfg) then \<exists>r. rt_RedisRuntime rt = Some r \<and> rt_Redis rt = rh_Client r \<and>
           rt_Session rt = (if ft_Session (cf_Features cfg)
             then Some (session_NewManager (rh_Client r) (cf_Session cfg)) else None)
       else rt_RedisRuntime rt = None \<and> rt_Redis rt = None \<and> rt_Session rt = None"
    using st3 off(5,6) no2 redis by (elim if_splits_elim) auto
  have c3: "rt_S3 rt \<noteq> None \<longleftrightarrow> ft_S3 (cf_Features cfg)"
    using st4 s3 off(7) by (elim if_splits_elim) auto
  have c4: "(rt_Casdoor rt \<noteq> None \<longleftrightarrow> casdoor_wanted cfg) \<and>
      rt_Authn rt = rt_Casdoor rt \<and> rt_Authz rt = rt_Casdoor rt \<and> rt_Audit rt = rt_Casdoor rt \<and>
      rt_Permission rt = (if ft_Permission (cf_Features cfg) then rt_Casdoor rt else None) \<and>
      rt_Access rt = (rt_Casdoor rt, rt_Casdoor rt, cf_AppName cfg)"
    using st5 cas no4 wanted unfolding rt by (elim if_splits_elim) auto
  show ?thesis
    unfolding has_features_def Let_def using c1 c2 c3 c4 len by blast
qed

end
