(* ===== verification/Health.thy ===== *)
theory Health
  imports Starter
begin

text \<open>
  Readiness and liveness checks of \<open>src/health/health.go\<close>. The time a check took is a reading of the clock
  and is not part of the result. The message of an error is the parameter \<open>msg\<close> (\<open>err.Error()\<close>).
\<close>

record check_result =
  hr_Name :: string
  hr_OK :: bool
  hr_Error :: string

definition health_result ::
    "(go_error \<Rightarrow> string) \<Rightarrow> string \<Rightarrow> ('x world \<Rightarrow> go_error option \<times> 'x world) \<Rightarrow> 'x world
      \<Rightarrow> check_result \<times> 'x world" where
  "health_result msg name fn w =
     (case fn w of
        (Some err, w') \<Rightarrow> (\<lparr>hr_Name = name, hr_OK = False, hr_Error = msg err\<rparr>, w')
      | (None, w') \<Rightarrow> (\<lparr>hr_Name = name, hr_OK = True, hr_Error = []\<rparr>, w'))"

fun IsHealthy :: "check_result list \<Rightarrow> go_error option" where
  "IsHealthy [] = None"
| "IsHealthy (r # rs) =
     (if \<not> hr_OK r then Some (Errorf (hr_Name r @ '' unhealthy: '' @ hr_Error r)) else IsHealthy rs)"

text \<open>The checks that \<open>Check\<close> appends, in order, and their run.\<close>

type_synonym 'x probe = "string \<times> ('x world \<Rightarrow> go_error option \<times> 'x world)"

definition health_probes :: "'x goenv \<Rightarrow> 'x gorm_lib \<Rightarrow> go_context option \<Rightarrow> 'x runtime \<Rightarrow> 'x probe list" where
  "health_probes env lib ctx rt =
     (case rt_SQL rt of
        None \<Rightarrow> []
      | Some d \<Rightarrow>
          (let name = (case rt_Database rt of
                         Some d' \<Rightarrow> if db_Driver d' \<noteq> [] then db_Driver d'
                                    else if db_Driver d \<noteq> [] then db_Driver d else ''database''
                       | None \<Rightarrow> if db_Driver d \<noteq> [] then db_Driver d else ''database'')
           in [(name, database_Ping lib d)])) @
     (case rt_RedisRuntime rt of None \<Rightarrow> [] | Some r \<Rightarrow> [(''redis'', redis_Ping (Some r))]) @
     (case rt_S3 rt of
        None \<Rightarrow> []
      | Some m \<Rightarrow> [(''objectstore'', \<lambda>w. case minio_BucketExists m w of ((_, err), w') \<Rightarrow> (err, w'))]) @
     (case rt_Casdoor rt of None \<Rightarrow> [] | Some a \<Rightarrow> [(''casdoor'', adapter_Ping a env ctx)])"

fun run_probes :: "(go_error \<Rightarrow> string) \<Rightarrow> 'x probe list \<Rightarrow> 'x world \<Rightarrow> check_result list \<times> 'x world" where
  "run_probes msg [] w = ([], w)"
| "run_probes msg ((name, fn) # ps) w =
     (case health_result msg name fn w of
        (r, w1) \<Rightarrow> (case run_probes msg ps w1 of (rs, w2) \<Rightarrow> (r # rs, w2)))"

definition runtime_is_nil :: check_result where
  "runtime_is_nil = \<lparr>hr_Name = ''runtime'', hr_OK = False, hr_Error = ''runtime is nil''\<rparr>"

definition health_Check ::
    "(go_error \<Rightarrow> string) \<Rightarrow> 'x goenv \<Rightarrow> 'x gorm_lib \<Rightarrow> go_context option \<Rightarrow> 'x runtime option \<Rightarrow> 'x world
      \<Rightarrow> check_result list \<times> 'x world" where
  "health_Check msg env lib ctx rt w =
     (case rt of
        None \<Rightarrow> ([runtime_is_nil], w)
      | Some rt \<Rightarrow> run_probes msg (health_probes env lib ctx rt) w)"

definition health_Live :: "'x runtime option \<Rightarrow> check_result list" where
  "health_Live rt =
     (case rt of None \<Rightarrow> [runtime_is_nil] | Some _ \<Rightarrow> [\<lparr>hr_Name = ''runtime'', hr_OK = True, hr_Error = []\<rparr>])"

section \<open>Facts\<close>

lemma IsHealthy_iff: "IsHealthy rs = None \<longleftrightarrow> (\<forall>r \<in> set rs. hr_OK r)"
  by (induction rs) auto

lemma IsHealthy_first:
  assumes "\<forall>p \<in> set ps. hr_OK p" and "\<not> hr_OK r"
  shows "IsHealthy (ps @ r # qs) = Some (Errorf (hr_Name r @ '' unhealthy: '' @ hr_Error r))"
  using assms by (induction ps) auto

text \<open>Every probe runs, whatever the earlier ones returned, and its result carries its name.\<close>

lemma run_probes_names: "map hr_Name (fst (run_probes msg ps w)) = map fst ps"
  by (induction msg ps w rule: run_probes.induct)
    (auto simp: health_result_def split: prod.splits option.splits)

lemma run_probes_ok:
  "IsHealthy (fst (run_probes msg ps w)) = None \<longleftrightarrow>
    (\<forall>i < length ps. fst (snd (ps ! i) (snd (run_probes msg (take i ps) w))) = None)"
proof (induction ps arbitrary: w)
  case (Cons p ps)
  obtain name fn where p: "p = (name, fn)" by (cases p)
  obtain e w1 where f: "fn w = (e, w1)" by fastforce
  have all: "(\<forall>i < Suc n. Q i) \<longleftrightarrow> Q 0 \<and> (\<forall>i < n. Q (Suc i))" for Q n
    by (auto simp: less_Suc_eq_0_disj)
  show ?case
    using Cons [of w1] p f
    by (cases e) (simp_all add: health_result_def all case_prod_unfold)
qed simp

section \<open>Properties of the readiness check\<close>


definition redis_only :: "nat runtime" where
  "redis_only = (new_runtime config_Default)\<lparr>rt_RedisRuntime :=
     Some \<lparr>rh_Client = Some (idle_redis\<lparr>rd_Ping := (\<lambda>s. (Some (ErrExt ''refused''), s))\<rparr>), rh_mode = ''single''\<rparr>\<rparr>"

definition no_gorm :: "nat gorm_lib" where
  "no_gorm =
     \<lparr>gl_Open = (\<lambda>d dsn sl lv s. (Inl (ErrExt ''refused''), s)), gl_DB = (\<lambda>p s. (Inr p, s)),
      gl_SetMaxOpenConns = (\<lambda>p n s. s), gl_SetMaxIdleConns = (\<lambda>p n s. s),
      gl_SetConnMaxLifetime = (\<lambda>p d s. s), gl_PingContext = (\<lambda>p s. (None, s)),
      gl_Close = (\<lambda>p s. (None, s)), gl_DatabaseExists = (\<lambda>p name s. (Inr True, s)),
      gl_Exec = (\<lambda>p sql s. (None, s))\<rparr>"


section \<open>Readiness of a started runtime\<close>

lemma probes_of_features:
  assumes "has_features cfg rt cleanup"
  shows "map fst (health_probes env lib ctx rt) =
    (if ft_DB (cf_Features cfg) then [canonicalDriver (dc_Driver (cf_Database cfg))] else []) @
    (if ft_Cache (cf_Features cfg) then [''redis''] else []) @
    (if ft_S3 (cf_Features cfg) then [''objectstore''] else []) @
    (if casdoor_wanted cfg then [''casdoor''] else [])"
proof -
  have cas: "(case rt_Casdoor rt of None \<Rightarrow> [] | Some a \<Rightarrow> [(''casdoor'', P a)]) =
      (if casdoor_wanted cfg then [(''casdoor'', P (the (rt_Casdoor rt)))] else [])" for P :: "_ \<Rightarrow> 'w"
    using assms by (auto simp: has_features_def Let_def split: option.splits)
  have s3: "(case rt_S3 rt of None \<Rightarrow> [] | Some m \<Rightarrow> [(''objectstore'', P m)]) =
      (if ft_S3 (cf_Features cfg) then [(''objectstore'', P (the (rt_S3 rt)))] else [])" for P :: "_ \<Rightarrow> 'w"
    using assms by (auto simp: has_features_def Let_def split: option.splits)
  have redis: "(case rt_RedisRuntime rt of None \<Rightarrow> [] | Some r \<Rightarrow> [(''redis'', P r)]) =
      (if ft_Cache (cf_Features cfg) then [(''redis'', P (the (rt_RedisRuntime rt)))] else [])" for P :: "_ \<Rightarrow> 'w"
    using assms by (auto simp: has_features_def Let_def split: option.splits if_splits)
  have db: "(if ft_DB (cf_Features cfg) then \<exists>d. rt_Database rt = Some d \<and> rt_SQL rt = Some d \<and>
      db_Driver d = canonicalDriver (dc_Driver (cf_Database cfg)) else rt_SQL rt = None)"
    using assms by (auto simp: has_features_def Let_def split: if_splits)
  have named: "db_Driver d \<noteq> []" for d by (cases d) (simp_all add: db_methods)
  show ?thesis
  proof (cases "ft_DB (cf_Features cfg)")
    case True
    with db obtain d where "rt_Database rt = Some d" "rt_SQL rt = Some d"
      "db_Driver d = canonicalDriver (dc_Driver (cf_Database cfg))" by auto
    with True named [of d] show ?thesis unfolding health_probes_def cas s3 redis by (simp add: Let_def)
  next
    case False
    with db show ?thesis unfolding health_probes_def cas s3 redis by simp
  qed
qed



end
