(* ===== verification/Casdoor_OAuth.thy ===== *)
theory Casdoor_OAuth
  imports Casdoor_Adapter Go_URL
begin

text \<open>
  The OAuth flows of \<open>src/casdoor/oauth.go\<close>: login and logout URLs, and the exchange of an
  authorization code or a refresh token. A nil adapter is \<^term>\<open>None\<close>. \<open>url.Parse\<close>, the HTTP client and
  the JSON decoder of \<open>TokenResponse\<close> are parameters.
\<close>

section \<open>Parameters\<close>

record http_request =
  hq_Method :: string
  hq_URL :: string
  hq_ContentType :: string
  hq_Body :: string

text \<open>The body of a response: the bytes that can be read, and the error that ends them, if any.\<close>

record http_response =
  hr_StatusCode :: int
  hr_Body :: "string \<times> go_error option"

record 'x oauth_lib =
  ol_Parse :: "string \<Rightarrow> go_error + url"
  ol_NewRequest :: "string \<Rightarrow> go_error option"
  ol_Do :: "http_request \<Rightarrow> 'x \<Rightarrow> (go_error + http_response) \<times> 'x"
  ol_Unmarshal :: "string \<Rightarrow> go_error + token_response"

section \<open>Login and logout\<close>

fun add_extra :: "url_values \<Rightarrow> query_values \<Rightarrow> query_values" where
  "add_extra [] q = q"
| "add_extra ((k, vs) # extra) q = add_extra extra (add_all (map (Pair k) vs) q)"

definition set_if :: "string \<Rightarrow> string \<Rightarrow> query_values \<Rightarrow> query_values" where
  "set_if k v q = (if v \<noteq> [] then values_Set k v q else q)"

definition adapter_is_nil :: go_error where
  "adapter_is_nil = Errorf ''casdoor adapter is nil''"

definition login_scope :: "casdoor_config \<Rightarrow> login_request \<Rightarrow> string" where
  "login_scope cfg req =
     (let scope = strings_TrimSpace (lr_Scope req);
          scope1 = (if scope = [] then strings_TrimSpace (cc_DefaultScope cfg) else scope)
      in if scope1 = [] then DefaultLoginScope else scope1)"

definition login_query :: "casdoor_config \<Rightarrow> login_request \<Rightarrow> query_values \<Rightarrow> query_values" where
  "login_query cfg req q0 =
     (let q1 = values_Set ''client_id'' (cc_ClientID cfg) q0;
          q2 = values_Set ''response_type'' ''code'' q1;
          q3 = values_Set ''redirect_uri'' (lr_RedirectURI req) q2;
          q4 = values_Set ''scope'' (login_scope cfg req) q3;
          q5 = set_if ''state'' (lr_State req) q4;
          q6 = set_if ''prompt'' (lr_Prompt req) q5
      in add_extra (lr_Extra req) q6)"

definition LoginURL :: "'x oauth_lib \<Rightarrow> 'x adapter option \<Rightarrow> login_request \<Rightarrow> go_error + string" where
  "LoginURL lib a req =
     (case a of
        None \<Rightarrow> Inl adapter_is_nil
      | Some a \<Rightarrow>
          if strings_TrimSpace (lr_RedirectURI req) = [] then Inl (Errorf ''redirect_uri is required'')
          else (case ol_Parse lib (strings_TrimRight (cc_Endpoint (ad_cfg a)) ''/'' @
                                     ''/login/oauth/authorize'') of
                  Inl err \<Rightarrow> Inl err
                | Inr base \<Rightarrow>
                    Inr (url_String (base\<lparr>url_RawQuery :=
                      values_Encode (login_query (ad_cfg a) req (ParseQuery (url_RawQuery base)))\<rparr>))))"

definition logout_query :: "logout_request \<Rightarrow> query_values \<Rightarrow> query_values" where
  "logout_query req q0 =
     (let q1 = (if lo_PostLogoutRedirectURI req \<noteq> []
                then values_Set ''redirect_uri'' (lo_PostLogoutRedirectURI req)
                       (values_Set ''post_logout_redirect_uri'' (lo_PostLogoutRedirectURI req) q0)
                else q0);
          q2 = set_if ''id_token_hint'' (lo_IDTokenHint req) q1;
          q3 = set_if ''state'' (lo_State req) q2
      in add_extra (lo_Extra req) q3)"

definition LogoutURL :: "'x oauth_lib \<Rightarrow> 'x adapter option \<Rightarrow> logout_request \<Rightarrow> go_error + string" where
  "LogoutURL lib a req =
     (case a of
        None \<Rightarrow> Inl adapter_is_nil
      | Some a \<Rightarrow>
          (case ol_Parse lib (strings_TrimRight (cc_Endpoint (ad_cfg a)) ''/'' @ ''/logout'') of
             Inl err \<Rightarrow> Inl err
           | Inr base \<Rightarrow>
               Inr (url_String (base\<lparr>url_RawQuery :=
                 values_Encode (logout_query req (ParseQuery (url_RawQuery base)))\<rparr>))))"

section \<open>Token exchange\<close>

text \<open>\<open>io.ReadAll\<close> of a body behind an \<open>io.LimitReader\<close> of one MiB.\<close>

definition body_limit :: nat where
  "body_limit = 1048576"

definition read_limited :: "string \<times> go_error option \<Rightarrow> go_error + string" where
  "read_limited body =
     (if body_limit \<le> length (fst body) then Inr (take body_limit (fst body))
      else case snd body of Some err \<Rightarrow> Inl err | None \<Rightarrow> Inr (fst body))"

definition token_request :: "casdoor_config \<Rightarrow> query_values \<Rightarrow> http_request" where
  "token_request cfg form =
     \<lparr>hq_Method = ''POST'',
      hq_URL = strings_TrimRight (cc_Endpoint cfg) ''/'' @ ''/api/login/oauth/access_token'',
      hq_ContentType = ''application/x-www-form-urlencoded'', hq_Body = values_Encode form\<rparr>"

definition decode_token :: "'x oauth_lib \<Rightarrow> http_response \<Rightarrow> go_error + token_response" where
  "decode_token lib resp =
     (case read_limited (hr_Body resp) of
        Inl err \<Rightarrow> Inl err
      | Inr body \<Rightarrow>
          if hr_StatusCode resp < 200 \<or> 300 \<le> hr_StatusCode resp then
            Inl (Errorf (''casdoor token exchange failed: status='' @ strconv_Itoa (hr_StatusCode resp) @
                         '' body='' @ strings_TrimSpace body))
          else (case ol_Unmarshal lib body of
                  Inl err \<Rightarrow> Inl (wrapf ''decode casdoor token response: '' err [])
                | Inr out0 \<Rightarrow>
                    (let out1 = out0\<lparr>tr_Raw := body\<rparr>;
                         out = (if tr_TokenType out1 = [] \<and> tr_AccessToken out1 \<noteq> []
                                then out1\<lparr>tr_TokenType := ''Bearer''\<rparr> else out1)
                     in if tr_AccessToken out = []
                        then Inl (Errorf ''casdoor token response missing access_token'')
                        else Inr out)))"

definition exchangeToken ::
    "'x oauth_lib \<Rightarrow> 'x adapter \<Rightarrow> string \<Rightarrow> query_values \<Rightarrow> 'x world
      \<Rightarrow> (go_error + token_response) \<times> 'x world" where
  "exchangeToken lib a grantType form w =
     (let req = token_request (ad_cfg a) form
      in case ol_NewRequest lib (hq_URL req) of
           Some err \<Rightarrow> (Inl err, w)
         | None \<Rightarrow>
             (case ol_Do lib req (service w) of
                (Inl err, s) \<Rightarrow>
                  (Inl err,
                   observe_dependency ''casdoor'' (''oauth_'' @ grantType) (Some err) (w\<lparr>service := s\<rparr>))
              | (Inr resp, s) \<Rightarrow>
                  (decode_token lib resp,
                   observe_dependency ''casdoor'' (''oauth_'' @ grantType) None (w\<lparr>service := s\<rparr>))))"

definition code_form :: "casdoor_config \<Rightarrow> exchange_code_request \<Rightarrow> query_values" where
  "code_form cfg req =
     add_extra (xc_Extra req)
       (values_Set ''redirect_uri'' (xc_RedirectURI req)
         (values_Set ''code'' (xc_Code req)
           (values_Set ''client_secret'' (cc_ClientSecret cfg)
             (values_Set ''client_id'' (cc_ClientID cfg)
               (values_Set ''grant_type'' ''authorization_code'' [])))))"

definition ExchangeCode ::
    "'x oauth_lib \<Rightarrow> 'x adapter option \<Rightarrow> exchange_code_request \<Rightarrow> 'x world
      \<Rightarrow> (go_error + token_response) \<times> 'x world" where
  "ExchangeCode lib a req w =
     (case a of
        None \<Rightarrow> (Inl adapter_is_nil, w)
      | Some a \<Rightarrow>
          if strings_TrimSpace (xc_Code req) = [] then (Inl (Errorf ''code is required''), w)
          else if strings_TrimSpace (xc_RedirectURI req) = []
            then (Inl (Errorf ''redirect_uri is required''), w)
          else exchangeToken lib a ''authorization_code'' (code_form (ad_cfg a) req) w)"

definition refresh_form :: "casdoor_config \<Rightarrow> refresh_token_request \<Rightarrow> query_values" where
  "refresh_form cfg req =
     add_extra (rf_Extra req)
       (set_if ''scope'' (rf_Scope req)
         (values_Set ''refresh_token'' (rf_RefreshToken req)
           (values_Set ''client_secret'' (cc_ClientSecret cfg)
             (values_Set ''client_id'' (cc_ClientID cfg)
               (values_Set ''grant_type'' ''refresh_token'' [])))))"

definition RefreshToken ::
    "'x oauth_lib \<Rightarrow> 'x adapter option \<Rightarrow> refresh_token_request \<Rightarrow> 'x world
      \<Rightarrow> (go_error + token_response) \<times> 'x world" where
  "RefreshToken lib a req w =
     (case a of
        None \<Rightarrow> (Inl adapter_is_nil, w)
      | Some a \<Rightarrow>
          if strings_TrimSpace (rf_RefreshToken req) = [] then (Inl (Errorf ''refresh_token is required''), w)
          else exchangeToken lib a ''refresh_token'' (refresh_form (ad_cfg a) req) w)"

section \<open>Facts\<close>

lemma set_if_get [simp]:
  "values_get (set_if k v q) k' = (if k' = k \<and> v \<noteq> [] then [v] else values_get q k')"
  by (simp add: set_if_def)

lemma set_if_wf [simp, intro]: "values_wf q \<Longrightarrow> values_wf (set_if k v q)"
  by (simp add: set_if_def)

lemma add_extra_wf [simp, intro]: "values_wf q \<Longrightarrow> values_wf (add_extra extra q)"
  by (induction extra q rule: add_extra.induct) auto

lemma add_extra_absent:
  "k \<notin> fst ` set extra \<Longrightarrow> values_get (add_extra extra q) k = values_get q k"
  by (induction extra q rule: add_extra.induct) (auto simp: values_get_add_all)

lemma filter_Pair: "map snd (filter (\<lambda>p. fst p = k) (map (Pair k') vs)) = (if k' = k then vs else [])"
  by (induction vs) auto

lemma values_get_Cons: "values_get ((k', vs) # q) k = (if k = k' then vs else values_get q k)"
  by (simp add: values_get_def)

lemma add_extra_get:
  "distinct (map fst extra) \<Longrightarrow>
    values_get (add_extra extra q) k = values_get q k @ values_get extra k"
proof (induction extra q rule: add_extra.induct)
  case (2 k' vs extra q)
  then have "k' \<notin> fst ` set extra" by auto
  then have "map_of extra k' = None" by (simp only: map_of_eq_None_iff not_False_eq_True)
  then have "values_get extra k' = []" by (simp add: values_get_def)
  moreover have "values_get (add_extra extra (add_all (map (Pair k') vs) q)) k =
      values_get (add_all (map (Pair k') vs) q) k @ values_get extra k" using 2 by simp
  ultimately show ?case
    by (auto simp: values_get_add_all filter_Pair values_get_Cons)
qed simp

lemma ParseQuery_wf [simp, intro]: "values_wf (ParseQuery s)"
  by (simp add: ParseQuery_def)

lemma login_query_wf [simp, intro]: "values_wf q \<Longrightarrow> values_wf (login_query cfg req q)"
  by (auto simp: login_query_def Let_def)

lemma code_form_wf [simp, intro]: "values_wf (code_form cfg req)"
  unfolding code_form_def by (intro add_extra_wf values_wf_Set values_wf_Nil)

lemma refresh_form_wf [simp, intro]: "values_wf (refresh_form cfg req)"
  unfolding refresh_form_def by (intro add_extra_wf set_if_wf values_wf_Set values_wf_Nil)

lemma login_scope_nonempty: "login_scope cfg req \<noteq> []"
  by (simp add: login_scope_def Let_def)

lemma login_query_get:
  assumes "distinct (map fst (lr_Extra req))"
  shows "values_get (login_query cfg req q) k =
    (if k = ''client_id'' then [cc_ClientID cfg]
     else if k = ''response_type'' then [''code'']
     else if k = ''redirect_uri'' then [lr_RedirectURI req]
     else if k = ''scope'' then [login_scope cfg req]
     else if k = ''state'' \<and> lr_State req \<noteq> [] then [lr_State req]
     else if k = ''prompt'' \<and> lr_Prompt req \<noteq> [] then [lr_Prompt req]
     else values_get q k) @ values_get (lr_Extra req) k"
  by (simp add: login_query_def Let_def add_extra_get [OF assms])

lemma decode_token_ok:
  assumes "decode_token lib resp = Inr t"
  shows "200 \<le> hr_StatusCode resp \<and> hr_StatusCode resp < 300 \<and> tr_AccessToken t \<noteq> [] \<and>
    tr_TokenType t \<noteq> [] \<and> length (tr_Raw t) \<le> body_limit \<and>
    (\<exists>n. tr_Raw t = take n (fst (hr_Body resp)))"
proof -
  obtain body where body: "read_limited (hr_Body resp) = Inr body"
    using assms by (auto simp: decode_token_def split: sum.splits)
  then have "length body \<le> body_limit \<and> (\<exists>n. body = take n (fst (hr_Body resp)))"
    by (auto simp: read_limited_def split: if_splits option.splits intro: exI [of _ "length (fst (hr_Body resp))"])
  moreover have "tr_Raw t = body"
    using assms body
    by (auto simp: decode_token_def Let_def split: if_splits sum.splits)
  ultimately show ?thesis
    using assms body
    by (auto simp: decode_token_def Let_def split: if_splits sum.splits)
qed

lemma exchangeToken_ok:
  assumes "exchangeToken lib a gt form w = (Inr t, w')"
  shows "\<exists>resp s. ol_Do lib (token_request (ad_cfg a) form) (service w) = (Inr resp, s) \<and>
    decode_token lib resp = Inr t"
  using assms
  by (auto simp: exchangeToken_def Let_def split: option.splits prod.splits sum.splits)

section \<open>Properties of the OAuth flows\<close>

text \<open>
  C17: the login URL carries the request. The query string of the URL that LoginURL returns parses back
  to the client id, response type, redirect URI, scope, state and prompt of the request and to the
  extra parameters, each under its own key, whatever characters their values contain.
\<close>

theorem login_url_carries_request:
  assumes "LoginURL lib (Some a) req = Inr u" and "distinct (map fst (lr_Extra req))"
  shows "\<exists>base raw.
    ol_Parse lib (strings_TrimRight (cc_Endpoint (ad_cfg a)) ''/'' @ ''/login/oauth/authorize'') = Inr base \<and>
    u = url_String (base\<lparr>url_RawQuery := raw\<rparr>) \<and>
    (\<forall>k. values_get (ParseQuery raw) k =
      (if k = ''client_id'' then [cc_ClientID (ad_cfg a)]
       else if k = ''response_type'' then [''code'']
       else if k = ''redirect_uri'' then [lr_RedirectURI req]
       else if k = ''scope'' then [login_scope (ad_cfg a) req]
       else if k = ''state'' \<and> lr_State req \<noteq> [] then [lr_State req]
       else if k = ''prompt'' \<and> lr_Prompt req \<noteq> [] then [lr_Prompt req]
       else values_get (ParseQuery (url_RawQuery base)) k) @ values_get (lr_Extra req) k)"
proof -
  obtain base where
    "ol_Parse lib (strings_TrimRight (cc_Endpoint (ad_cfg a)) ''/'' @ ''/login/oauth/authorize'') = Inr base"
    and base: "u = url_String (base\<lparr>url_RawQuery :=
      values_Encode (login_query (ad_cfg a) req (ParseQuery (url_RawQuery base)))\<rparr>)"
    using assms(1) by (auto simp: LoginURL_def split: if_splits sum.splits)
  have "values_get (ParseQuery (values_Encode (login_query (ad_cfg a) req (ParseQuery (url_RawQuery base))))) k =
      values_get (login_query (ad_cfg a) req (ParseQuery (url_RawQuery base))) k" for k
    by (rule ParseQuery_Encode) auto
  with base \<open>ol_Parse lib _ = Inr base\<close> login_query_get [OF assms(2)] show ?thesis by metis
qed


definition echo_oauth :: "nat oauth_lib" where
  "echo_oauth =
     \<lparr>ol_Parse = (\<lambda>u. Inr \<lparr>url_prefix = ''https://sso'', url_Path = ''/login/oauth/authorize'',
        url_RawPath = [], url_RawQuery = [], url_fragment = []\<rparr>),
      ol_NewRequest = (\<lambda>_. None),
      ol_Do = (\<lambda>q s. (Inr \<lparr>hr_StatusCode = 200, hr_Body = (''{}'', None)\<rparr>, Suc s)),
      ol_Unmarshal = (\<lambda>b. Inr \<lparr>tr_AccessToken = ''at'', tr_RefreshToken = [], tr_IDToken = [],
        tr_TokenType = [], tr_ExpiresIn = 0, tr_Scope = [], tr_Raw = []\<rparr>)\<rparr>"

definition sso_adapter :: "nat adapter" where
  "sso_adapter =
     \<lparr>ad_cfg = zero_casdoor_config\<lparr>cc_ClientID := ''hub''\<rparr>, ad_client = idle_casdoor,
      ad_retry = \<lparr>rp_Attempts = 1, rp_Backoff = 0\<rparr>, ad_timeout = 0\<rparr>"

theorem login_url_carries_request_witness:
  "\<exists>u raw base. LoginURL echo_oauth (Some sso_adapter)
      \<lparr>lr_RedirectURI = ''https://hub/cb?a=1&b=2'', lr_State = ''s='', lr_Scope = [], lr_Prompt = [], lr_Extra = []\<rparr>
      = Inr u \<and> u = url_String (base\<lparr>url_RawQuery := raw\<rparr>) \<and>
    values_get (ParseQuery raw) ''redirect_uri'' = [''https://hub/cb?a=1&b=2''] \<and>
    values_get (ParseQuery raw) ''state'' = [''s='']"
proof -
  let ?req = "\<lparr>lr_RedirectURI = ''https://hub/cb?a=1&b=2'', lr_State = ''s='', lr_Scope = [],
    lr_Prompt = [], lr_Extra = []\<rparr>"
  obtain u where u: "LoginURL echo_oauth (Some sso_adapter) ?req = Inr u"
    by (simp add: LoginURL_def echo_oauth_def trim_eval)
  show ?thesis using u login_url_carries_request [OF u] by (fastforce simp: values_get_def)
qed


section \<open>The adapter as a login provider\<close>

definition adapter_exchanger :: "'x oauth_lib \<Rightarrow> 'x adapter option \<Rightarrow> 'x world oauth_exchanger" where
  "adapter_exchanger lib a = \<lparr>ox_ExchangeCode = ExchangeCode lib a, ox_RefreshToken = RefreshToken lib a\<rparr>"

end
