(* ===== verification/Login_Flow.thy ===== *)
theory Login_Flow
  imports Session Casdoor_OAuth
begin

text \<open>
  The browser login of \<open>src/casdoor/oauth.go\<close> and \<open>src/session/session.go\<close> together: a service makes a
  state, sends the browser to the login URL that carries it, and verifies the state that comes back.
\<close>

lemma hex_eq_Nil [simp]: "hex_EncodeToString b = [] \<longleftrightarrow> b = []"
  by (simp add: hex_EncodeToString_def hex_byte_def)

lemma session_key_inject [simp]:
  "session_key cfg [''oauth_state'', st] = session_key cfg [''oauth_state'', st'] \<longleftrightarrow> st = st'"
  by (simp add: session_key_state)

context redis_kv
begin

lemma VerifyState_frame:
  assumes "VerifyState (Some \<lparr>sm_rdb = Some c, sm_cfg = cfg\<rparr>) st' s = (r, s')" and "st' \<noteq> st"
  shows "kv s' (session_key cfg [''oauth_state'', st]) = kv s (session_key cfg [''oauth_state'', st])"
proof (cases "strings_TrimSpace st' = []")
  case True
  with assms(1) show ?thesis by (simp add: VerifyState_def)
next
  case False
  let ?k = "session_key cfg [''oauth_state'', st']"
  obtain r' where r': "rd_GetDel c ?k s = (r', s')"
    using assms(1) False by (auto simp: VerifyState_def split: sum.splits prod.splits if_splits)
  have "kv s' = kv s \<or> kv s' = (kv s)(?k := None)"
    using r' getdel_value [of ?k s _ s'] getdel_error [of ?k s _ s'] by (cases r') auto
  with assms(2) show ?thesis by auto
qed

lemma VerifyStates_frame:
  "st \<notin> set others \<Longrightarrow>
    kv (fold (\<lambda>st' s. snd (VerifyState (Some \<lparr>sm_rdb = Some c, sm_cfg = cfg\<rparr>) st' s)) others s)
      (session_key cfg [''oauth_state'', st]) = kv s (session_key cfg [''oauth_state'', st])"
proof (induction others arbitrary: s)
  case (Cons st' others)
  obtain r s' where r: "VerifyState (Some \<lparr>sm_rdb = Some c, sm_cfg = cfg\<rparr>) st' s = (r, s')" by fastforce
  from Cons.prems have "st' \<noteq> st" by auto
  from Cons.IH [of s'] Cons.prems VerifyState_frame [OF r this] r show ?case by simp
qed simp

end

text \<open>
  C14: the login flow binds the answer to the request. The login URL made with a fresh state carries
  exactly this state. Whatever other states are presented for verification before it, the state of the
  URL verifies, if the verification succeeds, to the subject that NewState was called for, and is used
  up by that.
\<close>

theorem login_flow:
  assumes kv: "redis_kv c kv"
    and new: "NewState (Some \<lparr>sm_rdb = Some c, sm_cfg = cfg\<rparr>) (Inr b) subject s = (Inr st, s1)" "length b = 24"
    and url: "LoginURL lib (Some a) req = Inr u" "lr_State req = st"
      "distinct (map fst (lr_Extra req))" "''state'' \<notin> fst ` set (lr_Extra req)"
    and others: "st \<notin> set others"
      "s2 = fold (\<lambda>st' s. snd (VerifyState (Some \<lparr>sm_rdb = Some c, sm_cfg = cfg\<rparr>) st' s)) others s1"
    and ret: "VerifyState (Some \<lparr>sm_rdb = Some c, sm_cfg = cfg\<rparr>) st s2 = (Inr v, s3)"
  shows "(\<exists>base raw. u = url_String (base\<lparr>url_RawQuery := raw\<rparr>) \<and> values_get (ParseQuery raw) ''state'' = [st]) \<and>
    v = subject \<and>
    (\<forall>v' s4. VerifyState (Some \<lparr>sm_rdb = Some c, sm_cfg = cfg\<rparr>) st s3 \<noteq> (Inr v', s4))"
proof (intro conjI)
  let ?k = "session_key cfg [''oauth_state'', st]"
  have "st = hex_EncodeToString b"
    using new(1) by (auto simp: NewState_def Let_def split: prod.splits option.splits)
  then have st: "st \<noteq> []" using new(2) by auto
  obtain base where base: "u = url_String (base\<lparr>url_RawQuery :=
      values_Encode (login_query (ad_cfg a) req (ParseQuery (url_RawQuery base)))\<rparr>)"
    using url(1) by (auto simp: LoginURL_def split: if_splits sum.splits)
  let ?q = "login_query (ad_cfg a) req (ParseQuery (url_RawQuery base))"
  have "values_get (lr_Extra req) ''state'' = []"
    using url(4) by (auto simp: values_get_def split: option.splits dest!: map_of_SomeD) (force simp: rev_image_eqI)
  then have "values_get (ParseQuery (values_Encode ?q)) ''state'' = [st]"
    using url(2) st by (simp add: ParseQuery_Encode login_query_get [OF url(3)])
  with base show "\<exists>base raw. u = url_String (base\<lparr>url_RawQuery := raw\<rparr>) \<and>
      values_get (ParseQuery raw) ''state'' = [st]" by blast
  have stored: "kv s2 ?k = Some subject"
    using redis_kv.VerifyStates_frame [OF kv others(1)] others(2) redis_kv.NewState_stores [OF kv new(1)] by simp
  from redis_kv.VerifyState_consumes [OF kv ret]
  have gone: "kv s3 ?k = None" and "kv s2 ?k = Some v" by auto
  with stored show "v = subject" by simp
  show "\<forall>v' s4. VerifyState (Some \<lparr>sm_rdb = Some c, sm_cfg = cfg\<rparr>) st s3 \<noteq> (Inr v', s4)"
    using redis_kv.VerifyState_consumes [OF kv, of cfg st s3] gone by fastforce
qed

text \<open>In the run the browser presents a state of its own making first.\<close>

theorem login_flow_witness:
  "\<exists>st s1 u s2 s3. NewState (Some mem_session) (Inr (replicate 24 CHR ''x'')) ''alice'' empty_redis = (Inr st, s1) \<and>
    LoginURL echo_oauth (Some sso_adapter)
      \<lparr>lr_RedirectURI = ''https://hub/cb'', lr_State = st, lr_Scope = [], lr_Prompt = [], lr_Extra = []\<rparr> = Inr u \<and>
    s2 = snd (VerifyState (Some mem_session) ''forged'' s1) \<and>
    VerifyState (Some mem_session) st s2 = (Inr ''alice'', s3) \<and>
    fst (VerifyState (Some mem_session) st s3) \<noteq> Inr ''alice''"
proof -
  let ?b = "replicate 24 CHR ''x''"
  define st where "st = hex_EncodeToString ?b"
  define s1 where "s1 = snd (NewState (Some mem_session) (Inr ?b) ''alice'' empty_redis)"
  define s2 where "s2 = snd (VerifyState (Some mem_session) ''forged'' s1)"
  let ?req = "\<lparr>lr_RedirectURI = ''https://hub/cb'', lr_State = st, lr_Scope = [], lr_Prompt = [], lr_Extra = []\<rparr>"
  have m: "Some mem_session = Some \<lparr>sm_rdb = Some mem_redis, sm_cfg = sm_cfg mem_session\<rparr>"
    by (simp add: mem_session_def)
  have n: "NewState (Some mem_session) (Inr ?b) ''alice'' empty_redis = (Inr st, s1)"
    unfolding s1_def by (simp add: NewState_def mem_session_def mem_redis_def Let_def st_def)
  have "length st = 48" by (simp add: st_def hex_EncodeToString_def hex_byte_def length_concat sum_list_replicate)
  then have fresh: "st \<notin> set [''forged'']" by auto
  obtain u where u: "LoginURL echo_oauth (Some sso_adapter) ?req = Inr u"
    by (simp add: LoginURL_def echo_oauth_def trim_eval)
  have "mem_kv s2 (session_key (sm_cfg mem_session) [''oauth_state'', st]) = Some ''alice''"
    using mem.VerifyStates_frame [OF fresh, of "sm_cfg mem_session" s1] mem.NewState_stores [OF n [unfolded m]]
    by (simp add: s2_def flip: m)
  then obtain v s3 where v: "VerifyState (Some mem_session) st s2 = (Inr v, s3)"
    by (simp add: VerifyState_def mem_session_def session_redis_def mem_redis_def hex_not_blank st_def)
  have f: "s2 = fold (\<lambda>st' s. snd (VerifyState (Some mem_session) st' s)) [''forged''] s1" by (simp add: s2_def)
  have "v = ''alice'' \<and> (\<forall>v' s4. VerifyState (Some mem_session) st s3 \<noteq> (Inr v', s4))"
    using login_flow [OF mem.redis_kv_axioms n [unfolded m] _ u _ _ _ fresh f [unfolded m] v [unfolded m]]
    unfolding m [symmetric] by simp
  with n u v s2_def show ?thesis by (metis prod.collapse)
qed

end
