(* ===== verification/Build_Version.thy ===== *)
theory Build_Version
  imports Go_Prelude
begin

text \<open>
  \<open>src/version/version.go\<close>: the version string of the kit and the build information of the binary.
  \<open>debug.ReadBuildInfo\<close> is an argument: \<^term>\<open>None\<close> when the binary carries no module information. Its
  type \<open>'i\<close> and the \<open>String\<close> method come from the Go runtime.
\<close>

definition Version :: string where
  "Version = ''dev''"

definition BuildInfo :: "('i \<Rightarrow> string) \<Rightarrow> 'i option \<Rightarrow> string \<times> bool" where
  "BuildInfo toString info = (case info of Some i \<Rightarrow> (toString i, True) | None \<Rightarrow> ([], False))"

lemma BuildInfo_absent: "snd (BuildInfo toString info) \<longleftrightarrow> info \<noteq> None"
  by (simp add: BuildInfo_def split: option.splits)

end
