(* ===== verification/Cache_Lock.thy ===== *)
theory Cache_Lock
  imports Redis_KV
begin

text \<open>
  The distributed lock of \<open>src/cache/lock.go\<close>: \<open>TryLock\<close>, the waiting loop of \<open>LockWithWait\<close>,
  \<open>Refresh\<close> and \<open>Unlock\<close> with their scripts. Random tokens, the clock and the select of the waiting
  loop are the record \<open>lock_env\<close>; the context is one that is not nil. Clients that share a lock key are
  the labelled step relation \<open>lock_step\<close>.
\<close>

section \<open>Operations\<close>

record 'x lock =
  lk_client :: "'x redis_client"
  lk_key :: string
  lk_token :: string

record 'x lock_env =
  le_rand :: "'x \<Rightarrow> (go_error + string) \<times> 'x"
  le_now :: "'x \<Rightarrow> gtime \<times> 'x"
  le_timer :: "duration \<Rightarrow> 'x \<Rightarrow> go_error option \<times> 'x"

definition randomToken :: "'x lock_env \<Rightarrow> 'x \<Rightarrow> (go_error + string) \<times> 'x" where
  "randomToken env s =
     (case le_rand env s of
        (Inl err, s') \<Rightarrow> (Inl err, s')
      | (Inr b, s') \<Rightarrow> (Inr (hex_EncodeToString b), s'))"

type_synonym 'x try_result = "('x lock option \<times> bool \<times> go_error option) \<times> 'x"

definition TryLock ::
    "'x redis_client option \<Rightarrow> 'x lock_env \<Rightarrow> string \<Rightarrow> duration \<Rightarrow> 'x \<Rightarrow> 'x try_result" where
  "TryLock client env key ttl s =
     (case client of
        None \<Rightarrow> ((None, False, Some (Errorf ''redis client is nil'')), s)
      | Some c \<Rightarrow>
          if key = [] then ((None, False, Some (Errorf ''lock key is required'')), s)
          else if ttl \<le> 0 then ((None, False, Some (Errorf ''lock ttl must be positive'')), s)
          else (case randomToken env s of
                  (Inl err, s1) \<Rightarrow> ((None, False, Some err), s1)
                | (Inr token, s1) \<Rightarrow>
                    (case rd_SetNX c key token ttl s1 of
                       ((ok, err), s2) \<Rightarrow>
                         if err \<noteq> None \<or> \<not> ok then ((None, ok, err), s2)
                         else ((Some \<lparr>lk_client = c, lk_key = key, lk_token = token\<rparr>, True, None), s2))))"

definition not_acquired :: "string \<Rightarrow> go_error" where
  "not_acquired key = Errorf (''lock '' @ key @ '' not acquired'')"

partial_function (option) lock_wait_loop ::
    "'x redis_client option \<Rightarrow> 'x lock_env \<Rightarrow> string \<Rightarrow> duration \<Rightarrow> duration \<Rightarrow> duration \<Rightarrow> gtime \<Rightarrow> 'x
      \<Rightarrow> ((go_error + 'x lock option) \<times> 'x) option" where
  "lock_wait_loop client env key ttl wait interval deadline s =
     (case TryLock client env key ttl s of
        ((l, ok, Some err), s1) \<Rightarrow> Some (Inl err, s1)
      | ((l, ok, None), s1) \<Rightarrow>
          if ok then Some (Inr l, s1)
          else if wait \<le> 0 then Some (Inl (not_acquired key), s1)
          else (case le_now env s1 of
                  (now, s2) \<Rightarrow>
                    if deadline < now then Some (Inl (not_acquired key), s2)
                    else (case le_timer env interval s2 of
                            (Some err, s3) \<Rightarrow> Some (Inl err, s3)
                          | (None, s3) \<Rightarrow>
                              lock_wait_loop client env key ttl wait interval deadline s3)))"

definition LockWithWait ::
    "'x redis_client option \<Rightarrow> 'x lock_env \<Rightarrow> string \<Rightarrow> duration \<Rightarrow> duration \<Rightarrow> duration \<Rightarrow> 'x
      \<Rightarrow> ((go_error + 'x lock option) \<times> 'x) option" where
  "LockWithWait client env key ttl wait interval s =
     (case le_now env s of
        (now, s1) \<Rightarrow>
          lock_wait_loop client env key ttl wait
            (if interval \<le> 0 then 100 * Millisecond else interval) (now + wait) s1)"

definition lock_Token :: "'x lock option \<Rightarrow> string" where
  "lock_Token l = (case l of None \<Rightarrow> [] | Some l \<Rightarrow> lk_token l)"

definition lock_Key :: "'x lock option \<Rightarrow> string" where
  "lock_Key l = (case l of None \<Rightarrow> [] | Some l \<Rightarrow> lk_key l)"

definition refresh_script :: lua_script where
  "refresh_script = IfGetEq 1 1 (PEXPIRE 1 2)"

definition unlock_script :: lua_script where
  "unlock_script = IfGetEq 1 1 (DEL 1)"

text \<open>\<open>Duration.Milliseconds\<close> of a duration that is not negative.\<close>

definition duration_Milliseconds :: "duration \<Rightarrow> int" where
  "duration_Milliseconds d = d div Millisecond"

definition lock_Refresh :: "'x lock option \<Rightarrow> duration \<Rightarrow> 'x \<Rightarrow> (bool \<times> go_error option) \<times> 'x" where
  "lock_Refresh l ttl s =
     (case l of
        None \<Rightarrow> ((False, None), s)
      | Some l \<Rightarrow>
          if ttl \<le> 0 then ((False, Some (Errorf ''lock ttl must be positive'')), s)
          else (case rd_Eval (lk_client l) refresh_script [lk_key l]
                       [lk_token l, strconv_Itoa (duration_Milliseconds ttl)] s of
                  ((res, err), s') \<Rightarrow> ((res = 1, err), s')))"

definition not_owned :: "string \<Rightarrow> go_error" where
  "not_owned key = Errorf (''lock '' @ key @ '' is not owned by current token'')"

definition lock_Unlock :: "'x lock option \<Rightarrow> 'x \<Rightarrow> go_error option \<times> 'x" where
  "lock_Unlock l s =
     (case l of
        None \<Rightarrow> (None, s)
      | Some l \<Rightarrow>
          (case rd_Eval (lk_client l) unlock_script [lk_key l] [lk_token l] s of
             ((res, Some err), s') \<Rightarrow> (Some err, s')
           | ((res, None), s') \<Rightarrow> if res = 0 then (Some (not_owned (lk_key l)), s') else (None, s')))"

section \<open>What the scripts do\<close>

lemma run_unlock_script:
  "run_script unlock_script [key] [token] m =
     (if m key = Some token then (1, m(key := None)) else (0, m))"
  by (simp add: unlock_script_def run_command_def)

lemma Milliseconds_range:
  "0 < ttl \<Longrightarrow> ttl \<le> maxDuration \<Longrightarrow>
    strconv_Atoi (strconv_Itoa (duration_Milliseconds ttl)) = Some (duration_Milliseconds ttl)"
  by (rule Atoi_Itoa) (auto simp: duration_Milliseconds_def Millisecond_def maxDuration_def)

lemma run_refresh_script:
  assumes "0 < ttl" and "ttl \<le> maxDuration"
  shows "run_script refresh_script [key] [token, strconv_Itoa (duration_Milliseconds ttl)] m =
     (if m key = Some token
      then (1, if ttl < Millisecond then m(key := None) else m) else (0, m))"
proof -
  have "duration_Milliseconds ttl \<le> 0 \<longleftrightarrow> ttl < Millisecond"
    using pos_imp_zdiv_pos_iff [of 1000000 ttl]
    by (auto simp: duration_Milliseconds_def Millisecond_def not_le not_less simp flip: not_less)
  then show ?thesis
    by (simp add: refresh_script_def run_command_def Milliseconds_range [OF assms])
qed

section \<open>Single operations\<close>

locale lock_service = redis_kv c kv for c :: "'x redis_client" and kv +
  fixes env :: "'x lock_env"
  assumes rand_frame: "le_rand env s = (r, s') \<Longrightarrow> kv s' = kv s"
begin

lemma try_acquired:
  assumes "TryLock (Some c) env key ttl s = ((Some l, ok, e), s')"
  shows "ok \<and> e = None \<and> lk_client l = c \<and> lk_key l = key \<and> key \<noteq> [] \<and> 0 < ttl \<and>
    kv s key = None \<and> kv s' = (kv s)(key \<mapsto> lk_token l)"
  using assms
  by (auto simp: TryLock_def randomToken_def dest!: rand_frame setnx_true
      split: if_splits sum.splits prod.splits)

lemma try_failed:
  assumes "TryLock (Some c) env key ttl s = ((None, ok, e), s')"
  shows "kv s' = kv s \<or> kv s key = None \<and> (\<exists>t. kv s' = (kv s)(key \<mapsto> t))"
proof (cases "key = [] \<or> ttl \<le> 0")
  case True
  with assms show ?thesis by (auto simp: TryLock_def split: if_splits)
next
  case False
  obtain r s1 where rand: "le_rand env s = (r, s1)" by (cases "le_rand env s")
  show ?thesis
  proof (cases r)
    case (Inl err)
    with assms False rand rand_frame [OF rand] show ?thesis
      by (auto simp: TryLock_def randomToken_def)
  next
    case (Inr b)
    with assms False rand obtain e' where
      nx: "rd_SetNX c key (hex_EncodeToString b) ttl s1 = ((ok, e'), s')" and ne: "e' \<noteq> None \<or> \<not> ok"
      by (auto simp: TryLock_def randomToken_def split: prod.splits if_splits)
    have "\<not> ok" using ne nx setnx_error by (metis option.exhaust)
    with nx have "rd_SetNX c key (hex_EncodeToString b) ttl s1 = ((False, e'), s')" by simp
    from setnx_false [OF this] rand_frame [OF rand] show ?thesis by auto
  qed
qed

lemma try_not_ok: "TryLock (Some c) env key ttl s = ((l, False, e), s') \<Longrightarrow> l = None"
  by (auto simp: TryLock_def split: if_splits sum.splits prod.splits)

lemma unlock_effect:
  assumes "lock_Unlock (Some l) s = (e, s')" and "lk_client l = c"
  shows "if kv s (lk_key l) = Some (lk_token l)
    then kv s' = (kv s)(lk_key l := None) \<or> e \<noteq> None \<and> kv s' = kv s
    else e \<noteq> None \<and> kv s' = kv s"
proof -
  obtain res err where ev: "rd_Eval c unlock_script [lk_key l] [lk_token l] s = ((res, err), s')"
    and e: "e = (case err of Some er \<Rightarrow> Some er | None \<Rightarrow>
      if res = 0 then Some (not_owned (lk_key l)) else None)"
    using assms by (auto simp: lock_Unlock_def split: prod.splits option.splits if_splits)
  show ?thesis
  proof (cases err)
    case None
    from eval_ok [OF ev [unfolded None]] None e show ?thesis
      by (auto simp: run_unlock_script split: if_splits)
  next
    case (Some er)
    from eval_error [OF ev [unfolded Some]] Some e show ?thesis
      by (auto simp: run_unlock_script split: if_splits)
  qed
qed

lemma refresh_effect:
  assumes "lock_Refresh (Some l) ttl s = ((ok, e), s')" and "lk_client l = c" and "ttl \<le> maxDuration"
  shows "if kv s (lk_key l) = Some (lk_token l) \<and> 0 < ttl
    then kv s' = kv s \<or> ttl < Millisecond \<and> kv s' = (kv s)(lk_key l := None)
    else \<not> ok \<and> kv s' = kv s"
proof (cases "0 < ttl")
  case False
  with assms show ?thesis by (auto simp: lock_Refresh_def)
next
  case True
  let ?args = "[lk_token l, strconv_Itoa (duration_Milliseconds ttl)]"
  obtain res where ev: "rd_Eval c refresh_script [lk_key l] ?args s = ((res, e), s')"
    and ok: "ok \<longleftrightarrow> res = 1"
    using assms True by (auto simp: lock_Refresh_def split: prod.splits)
  note scr = run_refresh_script [OF True assms(3), of "lk_key l" "lk_token l"]
  show ?thesis
  proof (cases e)
    case None
    from eval_ok [OF ev [unfolded None]] ok True show ?thesis
      by (auto simp: scr split: if_splits)
  next
    case (Some er)
    from eval_error [OF ev [unfolded Some]] ok True show ?thesis
      by (auto simp: scr split: if_splits)
  qed
qed

end

section \<open>The waiting loop returns\<close>

text \<open>
  What the loop relies on of the clock: it does not run backwards, and a timer that fires has let
  its duration pass.
\<close>

locale lock_clock =
  fixes client :: "'x redis_client option" and env :: "'x lock_env" and clock :: "'x \<Rightarrow> gtime"
  assumes now_reads: "le_now env s = (t, s') \<Longrightarrow> clock s \<le> t \<and> t \<le> clock s'"
    and timer_waits: "le_timer env d s = (None, s') \<Longrightarrow> clock s + d \<le> clock s'"
    and try_forward: "TryLock client env key ttl s = (r, s') \<Longrightarrow> clock s \<le> clock s'"
begin

lemma wait_loop_returns:
  assumes "0 < interval"
  shows "\<exists>r. lock_wait_loop client env key ttl wait interval deadline s = Some r"
proof (induction "nat (deadline + 1 - clock s)" arbitrary: s rule: less_induct)
  case less
  obtain l ok e s1 where tr: "TryLock client env key ttl s = ((l, ok, e), s1)"
    by (metis surj_pair)
  obtain now s2 where now: "le_now env s1 = (now, s2)" by (cases "le_now env s1")
  obtain te s3 where timer: "le_timer env interval s2 = (te, s3)" by (cases "le_timer env interval s2")
  show ?case
  proof (cases "e = None \<and> \<not> ok \<and> 0 < wait \<and> now \<le> deadline \<and> te = None")
    case False
    with tr now timer show ?thesis
      by (subst lock_wait_loop.simps) (auto split: option.splits)
  next
    case True
    have "clock s \<le> clock s1" using try_forward [OF tr] .
    moreover have "clock s1 \<le> now \<and> now \<le> clock s2" using now_reads [OF now] .
    moreover have "clock s2 + interval \<le> clock s3" using timer_waits [of interval s2 s3] timer True by simp
    ultimately have "nat (deadline + 1 - clock s3) < nat (deadline + 1 - clock s)"
      using True assms by linarith
    from less [OF this] True tr now timer show ?thesis
      by (subst lock_wait_loop.simps) simp
  qed
qed

lemma LockWithWait_returns: "\<exists>r. LockWithWait client env key ttl wait interval s = Some r"
  using wait_loop_returns by (auto simp: LockWithWait_def Millisecond_def split: prod.splits)

end

text \<open>A lock that the loop returns is one that a \<open>TryLock\<close> acquired.\<close>

lemma wait_loop_result:
  assumes "lock_wait_loop client env key ttl wait interval deadline s = Some y"
  shows "fst y = Inr l \<longrightarrow> (\<exists>s0. TryLock client env key ttl s0 = ((l, True, None), snd y))"
  by (rule lock_wait_loop.raw_induct
      [where P = "\<lambda>client env key ttl _ _ _ _ y.
         fst y = Inr l \<longrightarrow> (\<exists>s0. TryLock client env key ttl s0 = ((l, True, None), snd y))",
       OF _ assms])
    (auto split: prod.splits option.splits if_splits)

lemma LockWithWait_result:
  "LockWithWait client env key ttl wait interval s = Some (Inr l, s') \<Longrightarrow>
    \<exists>s0. TryLock client env key ttl s0 = ((l, True, None), s')"
  by (auto simp: LockWithWait_def dest!: wait_loop_result split: prod.splits)

section \<open>Clients that share a lock\<close>

text \<open>
  The system of a lock key: the server, and the lock objects handed out so far, stale ones included.
  A step is a \<open>TryLock\<close> of some client, a \<open>Refresh\<close> or \<open>Unlock\<close> on one of the lock objects, or the
  passing of time, in which keys may expire. Tokens are 16 bytes from the operating system's random
  source and are assumed not to repeat.
\<close>

record 'x lock_sys =
  ls_server :: 'x
  ls_issued :: "'x lock set"

datatype 'x lock_label = LTry | LRefresh "'x lock" duration | LUnlock "'x lock" | LTime

inductive lock_step ::
    "'x redis_client \<Rightarrow> ('x \<Rightarrow> string \<rightharpoonup> string) \<Rightarrow> 'x lock_env \<Rightarrow> string
      \<Rightarrow> 'x lock_sys \<Rightarrow> 'x lock_label \<Rightarrow> 'x lock_sys \<Rightarrow> bool"
  for c kv env key where
  step_try: "TryLock (Some c) env key ttl s = ((l, ok, e), s') \<Longrightarrow>
    (\<And>k. l = Some k \<Longrightarrow> lk_token k \<notin> lk_token ` L) \<Longrightarrow>
    lock_step c kv env key \<lparr>ls_server = s, ls_issued = L\<rparr> LTry
      \<lparr>ls_server = s', ls_issued = set_option l \<union> L\<rparr>"
| step_refresh: "l \<in> L \<Longrightarrow> ttl \<le> maxDuration \<Longrightarrow> lock_Refresh (Some l) ttl s = (r, s') \<Longrightarrow>
    lock_step c kv env key \<lparr>ls_server = s, ls_issued = L\<rparr> (LRefresh l ttl)
      \<lparr>ls_server = s', ls_issued = L\<rparr>"
| step_unlock: "l \<in> L \<Longrightarrow> lock_Unlock (Some l) s = (e, s') \<Longrightarrow>
    lock_step c kv env key \<lparr>ls_server = s, ls_issued = L\<rparr> (LUnlock l)
      \<lparr>ls_server = s', ls_issued = L\<rparr>"
| step_time: "kv s' \<subseteq>\<^sub>m kv s \<Longrightarrow>
    lock_step c kv env key \<lparr>ls_server = s, ls_issued = L\<rparr> LTime
      \<lparr>ls_server = s', ls_issued = L\<rparr>"

inductive_cases lock_step_try: "lock_step c kv env key \<sigma> LTry \<sigma>'"
inductive_cases lock_step_refresh: "lock_step c kv env key \<sigma> (LRefresh l ttl) \<sigma>'"
inductive_cases lock_step_unlock: "lock_step c kv env key \<sigma> (LUnlock l) \<sigma>'"
inductive_cases lock_step_time: "lock_step c kv env key \<sigma> LTime \<sigma>'"

definition lock_init :: "'x \<Rightarrow> 'x lock_sys" where
  "lock_init s = \<lparr>ls_server = s, ls_issued = {}\<rparr>"

definition lock_reach ::
    "'x redis_client \<Rightarrow> ('x \<Rightarrow> string \<rightharpoonup> string) \<Rightarrow> 'x lock_env \<Rightarrow> string \<Rightarrow> 'x \<Rightarrow> 'x lock_sys \<Rightarrow> bool" where
  "lock_reach c kv env key s \<sigma> \<longleftrightarrow> (\<lambda>\<sigma> \<sigma>'. \<exists>a. lock_step c kv env key \<sigma> a \<sigma>')\<^sup>*\<^sup>* (lock_init s) \<sigma>"

text \<open>A lock object is valid while Redis stores its token.\<close>

definition lock_valid :: "('x \<Rightarrow> string \<rightharpoonup> string) \<Rightarrow> 'x lock_sys \<Rightarrow> 'x lock \<Rightarrow> bool" where
  "lock_valid kv \<sigma> l \<longleftrightarrow> l \<in> ls_issued \<sigma> \<and> kv (ls_server \<sigma>) (lk_key l) = Some (lk_token l)"

definition lock_inv :: "'x redis_client \<Rightarrow> string \<Rightarrow> 'x lock_sys \<Rightarrow> bool" where
  "lock_inv c key \<sigma> \<longleftrightarrow>
     (\<forall>l\<in>ls_issued \<sigma>. lk_client l = c \<and> lk_key l = key) \<and> inj_on lk_token (ls_issued \<sigma>)"

context lock_service
begin

lemma inv_step: "lock_step c kv env key \<sigma> a \<sigma>' \<Longrightarrow> lock_inv c key \<sigma> \<Longrightarrow> lock_inv c key \<sigma>'"
proof (induction rule: lock_step.induct)
  case (step_try ttl s l ok e s' L)
  show ?case
  proof (cases l)
    case None
    with step_try show ?thesis by (simp add: lock_inv_def)
  next
    case (Some k)
    with step_try try_acquired [of key ttl s k ok e s'] show ?thesis
      by (auto simp: lock_inv_def)
  qed
qed (auto simp: lock_inv_def)

lemma reach_inv: "lock_reach c kv env key s \<sigma> \<Longrightarrow> lock_inv c key \<sigma>"
  unfolding lock_reach_def
  by (induction rule: rtranclp_induct) (auto simp: lock_init_def lock_inv_def [of _ _ "\<lparr>ls_server = _, ls_issued = {}\<rparr>"] intro: inv_step)

lemma valid_unique:
  "lock_reach c kv env key s \<sigma> \<Longrightarrow> lock_valid kv \<sigma> l \<Longrightarrow> lock_valid kv \<sigma> l' \<Longrightarrow> l = l'"
  by (auto simp: lock_valid_def lock_inv_def dest!: reach_inv inj_onD)

lemma acquire_excludes:
  assumes "lock_reach c kv env key s \<sigma>" and "lock_step c kv env key \<sigma> LTry \<sigma>'"
    and "l \<in> ls_issued \<sigma>'" "l \<notin> ls_issued \<sigma>"
  shows "lock_valid kv \<sigma>' l" and "\<not> lock_valid kv \<sigma> l'"
proof -
  from assms(2-) obtain ttl s0 ok e s1 L where
    \<sigma>: "\<sigma> = \<lparr>ls_server = s0, ls_issued = L\<rparr>" "\<sigma>' = \<lparr>ls_server = s1, ls_issued = {l} \<union> L\<rparr>"
    and tr: "TryLock (Some c) env key ttl s0 = ((Some l, ok, e), s1)"
    by (auto elim!: lock_step_try)
  note acq = try_acquired [OF tr]
  show "lock_valid kv \<sigma>' l" using acq \<sigma> by (simp add: lock_valid_def)
  show "\<not> lock_valid kv \<sigma> l'"
    using acq \<sigma> reach_inv [OF assms(1)] by (auto simp: lock_valid_def lock_inv_def)
qed

lemma valid_kept:
  assumes "lock_reach c kv env key s \<sigma>" and "lock_step c kv env key \<sigma> a \<sigma>'" and "lock_valid kv \<sigma> l"
  shows "lock_valid kv \<sigma>' l \<or> a = LTime \<or> a = LUnlock l \<or> (\<exists>ttl < Millisecond. a = LRefresh l ttl)"
  using assms(2) reach_inv [OF assms(1)] assms(3) valid_unique [OF assms(1)]
proof (induction rule: lock_step.induct)
  case (step_try ttl s l' ok e s' L)
  have "kv s' = kv s"
  proof (cases l')
    case None
    with step_try try_failed [of key ttl s ok e s'] show ?thesis
      by (auto simp: lock_inv_def lock_valid_def)
  next
    case (Some k)
    with step_try try_acquired [of key ttl s k ok e s'] show ?thesis
      by (auto simp: lock_inv_def lock_valid_def)
  qed
  with step_try show ?case by (simp add: lock_valid_def)
next
  case (step_refresh l' L ttl s r s')
  then show ?case
    using refresh_effect [of l' ttl s "fst r" "snd r" s']
    by (cases "l' = l") (auto simp: lock_inv_def lock_valid_def inj_on_def split: if_splits)
next
  case (step_unlock l' L s e s')
  then show ?case
    using unlock_effect [of l' s e s']
    by (cases "l' = l") (auto simp: lock_inv_def lock_valid_def inj_on_def split: if_splits)
qed auto

end

text \<open>The environment of a client of the server in memory; its random source is \<open>token\<close>.\<close>

definition mem_lock_env :: "(redis_mem \<Rightarrow> string) \<Rightarrow> redis_mem lock_env" where
  "mem_lock_env token =
     \<lparr>le_rand = (\<lambda>s. (Inr (token s), s)), le_now = (\<lambda>s. (rm_now s, s)),
      le_timer = (\<lambda>d s. (None, mem_wait d s))\<rparr>"

interpretation mem_lock: lock_service mem_redis mem_kv "mem_lock_env token" for token
  by unfold_locales (auto simp: mem_lock_env_def)

interpretation mem_clock: lock_clock "Some mem_redis" "mem_lock_env token" rm_now for token
  by unfold_locales
    (auto simp: mem_lock_env_def mem_wait_def mem_redis_def mem_store_def TryLock_def randomToken_def
      split: if_splits prod.splits sum.splits)

section \<open>Properties of the distributed lock\<close>

text \<open>
  C3: mutual exclusion. In every state that clients reach by any interleaving of TryLock, Refresh,
  Unlock and expiry, at most one of the lock objects handed out for the key is valid, and while it is,
  no TryLock hands out another one.
\<close>

theorem lock_mutual_exclusion:
  assumes "lock_service c kv env" and "lock_reach c kv env key s \<sigma>" and "lock_valid kv \<sigma> l"
  shows "(\<forall>l'. lock_valid kv \<sigma> l' \<longrightarrow> l' = l) \<and>
    (\<forall>ttl. fst (fst (TryLock (Some c) env key ttl (ls_server \<sigma>))) = None)"
proof (intro conjI allI impI)
  show "l' = l" if "lock_valid kv \<sigma> l'" for l'
    using lock_service.valid_unique [OF assms(1,2) that assms(3)] .
  fix ttl
  have "lk_key l = key"
    using lock_service.reach_inv [OF assms(1,2)] assms(3) by (auto simp: lock_inv_def lock_valid_def)
  then have held: "kv (ls_server \<sigma>) key \<noteq> None" using assms(3) by (auto simp: lock_valid_def)
  obtain l' ok e s' where tr: "TryLock (Some c) env key ttl (ls_server \<sigma>) = ((l', ok, e), s')"
    by (metis surj_pair)
  show "fst (fst (TryLock (Some c) env key ttl (ls_server \<sigma>))) = None"
    using lock_service.try_acquired [OF assms(1)] tr held by (cases l') auto
qed

text \<open>
  A run of two clients on the server in memory, with the time as random source: the first takes the
  lock for a second, two seconds pass, and the second takes it.
\<close>

definition clock_env :: "redis_mem lock_env" where
  "clock_env = mem_lock_env (\<lambda>s. if rm_now s = 0 then ''a'' else ''b'')"

definition mem_lock_obj :: "string \<Rightarrow> redis_mem lock" where
  "mem_lock_obj t = \<lparr>lk_client = mem_redis, lk_key = ''job'', lk_token = hex_EncodeToString t\<rparr>"

definition mem_at :: "gtime \<Rightarrow> redis_mem" where
  "mem_at t = \<lparr>rm_now = t, rm_data = Map.empty\<rparr>"

definition first_held :: redis_mem where
  "first_held = mem_store ''job'' (hex_EncodeToString ''a'') Second (mem_at 0)"

definition second_held :: redis_mem where
  "second_held = mem_store ''job'' (hex_EncodeToString ''b'') Second (mem_wait (2 * Second) first_held)"

lemma token_a_b: "hex_EncodeToString ''a'' \<noteq> hex_EncodeToString ''b''"
  by (simp add: hex_EncodeToString_def hex_byte_def hex_char_def)

lemma clients_differ: "mem_lock_obj ''a'' \<noteq> mem_lock_obj ''b''"
  using token_a_b by (auto simp: mem_lock_obj_def)

lemma first_expired: "mem_kv (mem_wait (2 * Second) first_held) ''job'' = None"
  by (simp add: mem_kv_def mem_wait_def first_held_def mem_store_def mem_at_def mem_expiry_def
      Second_def Millisecond_def)

lemma first_try:
  "TryLock (Some mem_redis) clock_env ''job'' Second (mem_at 0) =
     ((Some (mem_lock_obj ''a''), True, None), first_held)"
  by (simp add: TryLock_def randomToken_def clock_env_def mem_lock_env_def mem_redis_def mem_at_def
      mem_kv_def first_held_def mem_lock_obj_def Second_def Millisecond_def)

lemma second_try:
  "TryLock (Some mem_redis) clock_env ''job'' Second (mem_wait (2 * Second) first_held) =
     ((Some (mem_lock_obj ''b''), True, None), second_held)"
  using first_expired
  by (simp add: TryLock_def randomToken_def clock_env_def mem_lock_env_def mem_redis_def second_held_def
      mem_lock_obj_def mem_wait_def first_held_def mem_store_def mem_at_def Second_def Millisecond_def)

lemma clock_service: "lock_service mem_redis mem_kv clock_env"
  unfolding clock_env_def by (rule mem_lock.lock_service_axioms)

definition two_clients :: "redis_mem lock_sys" where
  "two_clients = \<lparr>ls_server = second_held, ls_issued = {mem_lock_obj ''a'', mem_lock_obj ''b''}\<rparr>"

lemma first_reach:
  "lock_reach mem_redis mem_kv clock_env ''job'' (mem_at 0)
     \<lparr>ls_server = first_held, ls_issued = {mem_lock_obj ''a''}\<rparr>"
  using step_try [OF first_try, of "{}" mem_kv]
  by (auto simp: lock_reach_def lock_init_def)

lemma lock_reach_step:
  "lock_reach c kv env key s \<sigma> \<Longrightarrow> lock_step c kv env key \<sigma> a \<sigma>' \<Longrightarrow> lock_reach c kv env key s \<sigma>'"
  unfolding lock_reach_def by (rule rtranclp.rtrancl_into_rtrancl) (auto intro: exI)

lemma two_clients_reach: "lock_reach mem_redis mem_kv clock_env ''job'' (mem_at 0) two_clients"
proof -
  let ?L = "{mem_lock_obj ''a''}"
  have "mem_kv (mem_wait (2 * Second) first_held) \<subseteq>\<^sub>m mem_kv first_held"
    using mem_wait_expires [of "2 * Second" first_held]
    by (force simp: map_le_def Second_def Millisecond_def)
  note expire = step_time [OF this]
  have "lk_token (mem_lock_obj ''b'') \<notin> lk_token ` ?L"
    using token_a_b by (simp add: mem_lock_obj_def)
  then have "lock_step mem_redis mem_kv clock_env ''job''
      \<lparr>ls_server = mem_wait (2 * Second) first_held, ls_issued = ?L\<rparr> LTry two_clients"
    using step_try [OF second_try, of ?L mem_kv] by (simp add: two_clients_def insert_commute)
  then show ?thesis using lock_reach_step [OF lock_reach_step [OF first_reach expire]] by blast
qed

lemma second_valid: "lock_valid mem_kv two_clients (mem_lock_obj ''b'')"
  by (simp add: lock_valid_def two_clients_def second_held_def mem_lock_obj_def)

theorem lock_mutual_exclusion_witness:
  "lock_reach mem_redis mem_kv clock_env ''job'' (mem_at 0) two_clients \<and>
   lock_valid mem_kv two_clients (mem_lock_obj ''b'') \<and>
   \<not> lock_valid mem_kv two_clients (mem_lock_obj ''a'')"
  using two_clients_reach second_valid clients_differ
    lock_mutual_exclusion [OF clock_service two_clients_reach second_valid]
  by metis

text \<open>
  C11: a lock is lost only by its owner or by time. A step of the system ends the validity of a lock
  object only when it is the passing of time, an Unlock of this very object, or a Refresh of this very
  object with a time to live below one millisecond.
\<close>

theorem lock_lost_by_owner:
  assumes "lock_service c kv env" and "lock_reach c kv env key s \<sigma>"
    and "lock_step c kv env key \<sigma> a \<sigma>'" and "lock_valid kv \<sigma> l"
  shows "lock_valid kv \<sigma>' l \<or> a = LTime \<or> a = LUnlock l \<or> (\<exists>ttl < Millisecond. a = LRefresh l ttl)"
  using lock_service.valid_kept [OF assms] .

lemma stale_unlock:
  "lock_Unlock (Some (mem_lock_obj ''a'')) second_held = (Some (not_owned ''job''), second_held)"
  using token_a_b
  by (simp add: lock_Unlock_def mem_lock_obj_def unlock_script_def second_held_def mem_redis_def)

theorem lock_lost_by_owner_witness:
  "lock_step mem_redis mem_kv clock_env ''job'' two_clients (LUnlock (mem_lock_obj ''a'')) two_clients \<and>
   lock_valid mem_kv two_clients (mem_lock_obj ''b'')"
proof -
  have st: "lock_step mem_redis mem_kv clock_env ''job'' two_clients (LUnlock (mem_lock_obj ''a'')) two_clients"
    unfolding two_clients_def by (rule step_unlock [OF _ stale_unlock]) simp
  then show ?thesis
    using lock_lost_by_owner [OF clock_service two_clients_reach st second_valid] clients_differ
    by simp
qed

text \<open>
  C12: a stale lock object is harmless. When Redis does not store the token of a lock object (it
  expired, or somebody else holds the key by now), Unlock reports an error, Refresh does not report
  success, and neither changes anything.
\<close>

theorem stale_lock_harmless:
  assumes "lock_service (lk_client l) kv env" and "kv s (lk_key l) \<noteq> Some (lk_token l)"
    and "ttl \<le> maxDuration"
  shows "(\<forall>e s'. lock_Unlock (Some l) s = (e, s') \<longrightarrow> e \<noteq> None \<and> kv s' = kv s) \<and>
    (\<forall>ok e s'. lock_Refresh (Some l) ttl s = ((ok, e), s') \<longrightarrow> \<not> ok \<and> kv s' = kv s)"
proof -
  have "e \<noteq> None \<and> kv s' = kv s" if "lock_Unlock (Some l) s = (e, s')" for e s'
    using lock_service.unlock_effect [OF assms(1) that refl] assms(2) by simp
  moreover have "\<not> ok \<and> kv s' = kv s" if "lock_Refresh (Some l) ttl s = ((ok, e), s')" for ok e s'
    using lock_service.refresh_effect [OF assms(1) that refl assms(3)] assms(2) by simp
  ultimately show ?thesis by blast
qed

theorem stale_lock_harmless_witness:
  "mem_kv second_held ''job'' = Some (hex_EncodeToString ''b'') \<and>
   fst (lock_Unlock (Some (mem_lock_obj ''a'')) second_held) \<noteq> None \<and>
   mem_kv (snd (lock_Unlock (Some (mem_lock_obj ''a'')) second_held)) = mem_kv second_held"
proof -
  have kv: "mem_kv second_held ''job'' = Some (hex_EncodeToString ''b'')"
    by (simp add: second_held_def)
  have sv: "lock_service (lk_client (mem_lock_obj ''a'')) mem_kv clock_env"
    using clock_service by (simp add: mem_lock_obj_def)
  have st: "mem_kv second_held (lk_key (mem_lock_obj ''a'')) \<noteq> Some (lk_token (mem_lock_obj ''a''))"
    unfolding mem_lock_obj_def lock.select_convs kv using token_a_b by simp
  have "(0 :: duration) \<le> maxDuration" by (simp add: maxDuration_def)
  from stale_lock_harmless [OF sv st this] kv show ?thesis
    by (metis prod.collapse)
qed

text \<open>
  C13: waiting for a lock ends. On a clock that only moves forward, LockWithWait returns, whatever the
  other clients do and whatever the polling interval it is given; and a lock that it returns is one
  that a TryLock has just acquired.
\<close>

theorem LockWithWait_ends:
  assumes "lock_clock client env clock"
  shows "\<exists>r s'. LockWithWait client env key ttl wait interval s = Some (r, s') \<and>
    (\<forall>l. r = Inr l \<longrightarrow> (\<exists>s0. TryLock client env key ttl s0 = ((l, True, None), s')))"
proof -
  obtain r s' where "LockWithWait client env key ttl wait interval s = Some (r, s')"
    using lock_clock.LockWithWait_returns [OF assms] by (metis surj_pair)
  then show ?thesis using LockWithWait_result [of client env key ttl wait interval s _ s'] by blast
qed

theorem LockWithWait_ends_witness:
  "lock_clock (Some mem_redis) clock_env rm_now \<and>
   (\<exists>r s'. LockWithWait (Some mem_redis) clock_env ''job'' Second (3 * Second) 0 first_held = Some (r, s'))"
  using mem_clock.lock_clock_axioms
    LockWithWait_ends [of "Some mem_redis" clock_env rm_now "''job''" Second "3 * Second" 0 first_held]
  unfolding clock_env_def by blast

end
