(* ===== verification/Lock_Progress.thy ===== *)
theory Lock_Progress
  imports Cache_Lock
begin

text \<open>
  Progress of \<open>LockWithWait\<close> (\<open>src/cache/lock.go\<close>): when the other clients give a key back, or let it
  expire, early enough before the deadline, the waiting client gets the lock. The locale
  \<open>lock_progress\<close> states what that takes of the server and of the other clients, over an invariant
  \<open>I\<close> of the states in which this client does not hold the key; other clients act while it sleeps.
\<close>

section \<open>What progress needs\<close>

locale lock_progress = lock_service c kv env + lock_clock "Some c" env clock
  for c :: "'x redis_client" and kv and env and clock +
  fixes key :: string and I :: "'x \<Rightarrow> bool" and T :: gtime and slack :: duration
  assumes rand_works: "\<exists>b s'. le_rand env s = (Inr b, s')"
    and setnx_answers: "\<exists>ok s'. rd_SetNX c key v ttl s = ((ok, None), s')"
    and setnx_free: "rd_SetNX c key v ttl s = ((False, None), s') \<Longrightarrow> kv s key \<noteq> None"
    and timer_fires: "\<exists>s'. le_timer env d s = (None, s')"
    and rand_inv: "le_rand env s = (r, s') \<Longrightarrow> I s \<Longrightarrow> I s'"
    and setnx_inv: "rd_SetNX c key v ttl s = ((False, None), s') \<Longrightarrow> I s \<Longrightarrow> I s'"
    and now_inv: "le_now env s = (t, s') \<Longrightarrow> I s \<Longrightarrow> I s'"
    and others_inv: "le_timer env d s = (te, s') \<Longrightarrow> 0 < d \<Longrightarrow> I s \<Longrightarrow> I s'"
    and freed: "I s \<Longrightarrow> T \<le> clock s \<Longrightarrow> kv s key = None"
    and prompt: "TryLock (Some c) env key ttl s = (res, s1) \<Longrightarrow> le_now env s1 = (t, s2) \<Longrightarrow>
      t \<le> clock s + slack"
begin

text \<open>A \<open>TryLock\<close> either acquires the key or finds it held, and then the time \<open>T\<close> has not come.\<close>

lemma try_progress:
  assumes "I s" and "key \<noteq> []" and "0 < ttl"
  obtains (acquired) l s' where "TryLock (Some c) env key ttl s = ((Some l, True, None), s')"
  | (held) s' where "TryLock (Some c) env key ttl s = ((None, False, None), s')" "I s'" "clock s < T"
proof -
  obtain b s1 where rand: "le_rand env s = (Inr b, s1)" using rand_works by blast
  let ?tok = "hex_EncodeToString b"
  obtain ok s' where nx: "rd_SetNX c key ?tok ttl s1 = ((ok, None), s')" using setnx_answers by blast
  show thesis
  proof (cases ok)
    case True
    with rand nx assms(2,3) show thesis
      by (intro acquired) (simp add: TryLock_def randomToken_def)
  next
    case False
    with nx have nx: "rd_SetNX c key ?tok ttl s1 = ((False, None), s')" by simp
    have "kv s key \<noteq> None" using setnx_free [OF nx] rand_frame [OF rand] by simp
    then have "clock s < T" using freed [OF assms(1)] by force
    with rand nx assms rand_inv [OF rand] setnx_inv [OF nx] show thesis
      by (intro held [of s']) (simp_all add: TryLock_def randomToken_def)
  qed
qed

text \<open>Each turn of the loop acquires the key, or passes time that is left until \<open>T\<close>.\<close>

lemma wait_loop_acquires:
  assumes "I s" and "key \<noteq> []" and "0 < ttl" and "0 < wait" and "0 < interval" and "T + slack \<le> deadline"
  shows "\<exists>l s'. lock_wait_loop (Some c) env key ttl wait interval deadline s = Some (Inr (Some l), s')"
  using assms(1)
proof (induction "nat (T - clock s)" arbitrary: s rule: less_induct)
  case less
  from less.prems assms(2,3) show ?case
  proof (cases rule: try_progress)
    case (acquired l s')
    then show ?thesis by (subst lock_wait_loop.simps) simp
  next
    case (held s1)
    obtain now s2 where now: "le_now env s1 = (now, s2)" by (cases "le_now env s1")
    obtain s3 where timer: "le_timer env interval s2 = (None, s3)" using timer_fires by blast
    have in_time: "\<not> deadline < now" using prompt [OF held(1) now] held(3) assms(6) by simp
    have "clock s \<le> clock s1" "clock s1 \<le> clock s2" "clock s2 + interval \<le> clock s3"
      using try_forward [OF held(1)] now_reads [OF now] timer_waits [OF timer] by auto
    with held(3) assms(5) have "nat (T - clock s3) < nat (T - clock s)" by linarith
    moreover have "I s3" using others_inv [OF timer assms(5) now_inv [OF now held(2)]] .
    ultimately obtain l s' where
      "lock_wait_loop (Some c) env key ttl wait interval deadline s3 = Some (Inr (Some l), s')"
      using less.hyps by blast
    with held(1) now timer in_time assms(4) show ?thesis
      by (subst lock_wait_loop.simps) simp
  qed
qed

lemma LockWithWait_gets:
  assumes "I s" and "key \<noteq> []" and "0 < ttl" and "0 < wait" and "T + slack \<le> clock s + wait"
  shows "\<exists>l s'. LockWithWait (Some c) env key ttl wait interval s = Some (Inr (Some l), s')"
proof -
  obtain now s1 where now: "le_now env s = (now, s1)" by (cases "le_now env s")
  have "T + slack \<le> now + wait" using now_reads [OF now] assms(5) by simp
  from wait_loop_acquires [OF now_inv [OF now assms(1)] assms(2-4) _ this] now show ?thesis
    by (auto simp: LockWithWait_def Millisecond_def)
qed

end

section \<open>The server in memory\<close>

text \<open>The key is not stored, or the stored entry expires by \<open>T\<close>.\<close>

definition expires_by :: "string \<Rightarrow> gtime \<Rightarrow> redis_mem \<Rightarrow> bool" where
  "expires_by key T s =
     (case rm_data s key of None \<Rightarrow> True | Some (v, None) \<Rightarrow> False | Some (v, Some t) \<Rightarrow> t \<le> T)"

interpretation mem_progress:
  lock_progress mem_redis mem_kv "mem_lock_env token" rm_now key "expires_by key T" T 0 for token key T
proof unfold_locales
  fix ttl s r s1 t s2
  assume "TryLock (Some mem_redis) (mem_lock_env token) key ttl s = (r, s1)"
    and "le_now (mem_lock_env token) s1 = (t, s2)"
  then show "t \<le> rm_now s + 0"
    by (auto simp: mem_lock_env_def mem_redis_def mem_store_def TryLock_def randomToken_def
      split: if_splits prod.splits)
qed (auto simp: mem_lock_env_def mem_redis_def mem_kv_def mem_wait_def expires_by_def split: if_splits option.splits)

section \<open>The property\<close>

text \<open>
  C9: waiting for a lock succeeds. When the server answers, and the key is free from the time T on as
  long as this client does not take it, LockWithWait with a deadline after T (by the time of one round
  trip) returns a lock, and Redis stores the token of that lock.
\<close>

theorem LockWithWait_acquires:
  assumes "lock_progress c kv env clock key I T slack" and "I s" and "key \<noteq> []" and "0 < ttl"
    and "0 < wait" and "T + slack \<le> clock s + wait"
  shows "\<exists>l s'. LockWithWait (Some c) env key ttl wait interval s = Some (Inr (Some l), s') \<and>
    lk_key l = key \<and> kv s' key = Some (lk_token l)"
proof -
  note sv = lock_progress.axioms(1) [OF assms(1)]
  obtain l s' where got: "LockWithWait (Some c) env key ttl wait interval s = Some (Inr (Some l), s')"
    using lock_progress.LockWithWait_gets [OF assms] by blast
  from LockWithWait_result [OF got]
  obtain s0 where "TryLock (Some c) env key ttl s0 = ((Some l, True, None), s')" by blast
  from lock_service.try_acquired [OF sv this] got show ?thesis by auto
qed

text \<open>
  On the server in memory the lock of the first client, taken at time 0 for a second, is in the way of a
  second client that waits for up to three seconds.
\<close>

theorem LockWithWait_acquires_witness:
  "mem_kv first_held ''job'' = Some (hex_EncodeToString ''a'') \<and>
   (\<exists>l s'. LockWithWait (Some mem_redis) clock_env ''job'' Second (3 * Second) 0 first_held =
       Some (Inr (Some l), s') \<and> mem_kv s' ''job'' = Some (lk_token l))"
proof -
  have pr: "lock_progress mem_redis mem_kv clock_env rm_now ''job'' (expires_by ''job'' Second) Second 0"
    unfolding clock_env_def by (rule mem_progress.lock_progress_axioms)
  have "expires_by ''job'' Second first_held"
    by (simp add: expires_by_def first_held_def mem_store_def mem_at_def mem_expiry_def Second_def Millisecond_def)
  moreover have "rm_now first_held = 0"
    by (simp add: first_held_def mem_store_def mem_at_def)
  ultimately have "\<exists>l s'. LockWithWait (Some mem_redis) clock_env ''job'' Second (3 * Second) 0 first_held =
      Some (Inr (Some l), s') \<and> lk_key l = ''job'' \<and> mem_kv s' ''job'' = Some (lk_token l)"
    by (intro LockWithWait_acquires [OF pr]) (simp_all add: Second_def Millisecond_def)
  moreover have "mem_kv first_held ''job'' = Some (hex_EncodeToString ''a'')"
    by (simp add: first_held_def)
  ultimately show ?thesis by blast
qed

end
