(* ===== verification/Object_Model.thy ===== *)
theory Object_Model
  imports Object_Store
begin

text \<open>
  What the object store of \<open>src/objectstore/minio.go\<close> promises to its callers: a bucket is a map from
  keys to contents. The locale \<open>s3_service\<close> states what the code relies on of the MinIO SDK and server,
  over a view \<open>objs\<close> of the stored objects and a view \<open>reader\<close> of what an open object reader yields; the
  operations of the client refine the map operations of \<open>store_spec\<close> and read the map. A server in
  memory satisfies the laws.
\<close>

section \<open>The contract of the server\<close>

text \<open>The bytes that a read of a range yields; ends beyond the content are cut off.\<close>

definition range_of :: "byte_range \<Rightarrow> string \<Rightarrow> string" where
  "range_of r v =
     (case r of
        WholeObject \<Rightarrow> v
      | FromOffset i \<Rightarrow> drop (nat i) v
      | Between i j \<Rightarrow> take (nat (j - i + 1)) (drop (nat i) v)
      | LastBytes n \<Rightarrow> drop (length v - nat n) v)"

definition keys_with :: "(string \<times> string \<rightharpoonup> string) \<Rightarrow> string \<Rightarrow> string \<Rightarrow> string set" where
  "keys_with M b p = {k. strings_HasPrefix k p \<and> M (b, k) \<noteq> None}"

locale s3_service =
  fixes sdk :: "'x minio_sdk" and objs :: "'x \<Rightarrow> string \<times> string \<rightharpoonup> string"
    and reader :: "'x \<Rightarrow> nat \<rightharpoonup> string"
  assumes put_ok: "mi_PutObject sdk b k body (int (length body)) po s = (Inr (b', mi), s') \<Longrightarrow>
      objs s' = (objs s)((b, k) \<mapsto> body) \<and> b' = b \<and> so_Key mi = k \<and> so_Size mi = int (length body)"
    and put_error: "mi_PutObject sdk b k body (int (length body)) po s = (Inl e, s') \<Longrightarrow>
      objs s' = objs s \<or> objs s' = (objs s)((b, k) \<mapsto> body)"
    and remove_ok: "mi_RemoveObject sdk b k s = (None, s') \<Longrightarrow> objs s' = (objs s)((b, k) := None)"
    and remove_error: "mi_RemoveObject sdk b k s = (Some e, s') \<Longrightarrow>
      objs s' = objs s \<or> objs s' = (objs s)((b, k) := None)"
    and copy_ok: "mi_CopyObject sdk b k k' md s = (Inr info, s') \<Longrightarrow>
      \<exists>v. objs s (b, k) = Some v \<and> objs s' = (objs s)((b, k') \<mapsto> v)"
    and copy_error: "mi_CopyObject sdk b k k' md s = (Inl e, s') \<Longrightarrow>
      objs s' = objs s \<or> (\<exists>v. objs s (b, k) = Some v \<and> objs s' = (objs s)((b, k') \<mapsto> v))"
    and stat_reads: "mi_StatObject sdk b k s = (rst, s') \<Longrightarrow> objs s' = objs s"
    and stat_ok: "mi_StatObject sdk b k s = (Inr st, s') \<Longrightarrow>
      \<exists>v. objs s (b, k) = Some v \<and> so_Key st = k \<and> so_Size st = int (length v)"
    and list_reads: "mi_ListObjects sdk b p rc s = (ch, s') \<Longrightarrow> objs s' = objs s"
    and list_items: "mi_ListObjects sdk b p True s = (map Inr xs @ rest, s') \<Longrightarrow>
      so_Key ` set xs \<subseteq> keys_with (objs s) b p \<and> distinct (map so_Key xs) \<and>
      (rest = [] \<longrightarrow> so_Key ` set xs = keys_with (objs s) b p)"
    and get_reads: "mi_GetObject sdk b k rng s = (rg, s') \<Longrightarrow> objs s' = objs s"
    and get_ok: "mi_GetObject sdk b k rng s = (Inr h, s1) \<Longrightarrow> mi_ObjectStat sdk h s1 = (Inr st, s2) \<Longrightarrow>
      \<exists>v. objs s (b, k) = Some v \<and> reader s2 h = Some (range_of rng v) \<and> so_Key st = k"
    and object_stat_reads: "mi_ObjectStat sdk h s = (ro, s') \<Longrightarrow> objs s' = objs s"
    and object_close_reads: "mi_ObjectClose sdk h s = (rcl, s') \<Longrightarrow> objs s' = objs s"

section \<open>The specification: a bucket is a map\<close>

datatype store_call =
    CallPut string string put_options
  | CallRemove string
  | CallCopy string string put_options

fun store_spec :: "store_call \<Rightarrow> (string \<rightharpoonup> string) \<Rightarrow> (string \<rightharpoonup> string)" where
  "store_spec (CallPut k body po) M = M(k \<mapsto> body)"
| "store_spec (CallRemove k) M = M(k := None)"
| "store_spec (CallCopy k k' po) M = (case M k of None \<Rightarrow> M | Some v \<Rightarrow> M(k' \<mapsto> v))"

fun run_store_call :: "'x minio_client \<Rightarrow> store_call \<Rightarrow> 'x world \<Rightarrow> go_error option \<times> 'x world" where
  "run_store_call m (CallPut k body po) w =
     (case minio_PutObject m k body (int (length body)) po w of
        (Inl err, w') \<Rightarrow> (Some err, w') | (Inr info, w') \<Rightarrow> (None, w'))"
| "run_store_call m (CallRemove k) w = minio_DeleteObject m k w"
| "run_store_call m (CallCopy k k' po) w =
     (case minio_CopyObject m k k' po w of
        (Inl err, w') \<Rightarrow> (Some err, w') | (Inr info, w') \<Rightarrow> (None, w'))"

text \<open>A caller that stops at the first error.\<close>

fun run_store_calls :: "'x minio_client \<Rightarrow> store_call list \<Rightarrow> 'x world \<Rightarrow> go_error option \<times> 'x world" where
  "run_store_calls m [] w = (None, w)"
| "run_store_calls m (c # cs) w =
     (case run_store_call m c w of
        (None, w') \<Rightarrow> run_store_calls m cs w'
      | (Some err, w') \<Rightarrow> (Some err, w'))"

text \<open>The bucket of a client, and the rest of the server.\<close>

definition bucket_map :: "('x \<Rightarrow> string \<times> string \<rightharpoonup> string) \<Rightarrow> 'x minio_client \<Rightarrow> 'x world \<Rightarrow> (string \<rightharpoonup> string)" where
  "bucket_map objs m w = (\<lambda>k. objs (service w) (minio_Bucket m, k))"

definition elsewhere :: "('x \<Rightarrow> string \<times> string \<rightharpoonup> string) \<Rightarrow> 'x minio_client \<Rightarrow> 'x world \<Rightarrow> string \<times> string \<rightharpoonup> string" where
  "elsewhere objs m w = objs (service w) |` {p. fst p \<noteq> minio_Bucket m}"

lemma bucket_view:
  "objs (service w') = (objs (service w))((minio_Bucket m, k) := x) \<Longrightarrow>
    bucket_map objs m w' = (bucket_map objs m w)(k := x) \<and> elsewhere objs m w' = elsewhere objs m w"
  by (auto simp: bucket_map_def elsewhere_def restrict_map_def fun_eq_iff)

lemma bucket_view_same:
  "objs (service w') = objs (service w) \<Longrightarrow>
    bucket_map objs m w' = bucket_map objs m w \<and> elsewhere objs m w' = elsewhere objs m w"
  by (simp add: bucket_map_def elsewhere_def)

context s3_service
begin

text \<open>One call: carried out when it returns nil, carried out or not when it returns an error.\<close>

lemma store_call_effect:
  assumes "mn_client m = sdk" and "run_store_call m c w = (e, w')"
  shows "(bucket_map objs m w' = store_spec c (bucket_map objs m w) \<or>
      e \<noteq> None \<and> bucket_map objs m w' = bucket_map objs m w) \<and>
    elsewhere objs m w' = elsewhere objs m w"
proof (cases c)
  case (CallPut k body po)
  obtain r s' where r: "mi_PutObject sdk (minio_Bucket m) k body (int (length body)) po (service w) = (r, s')"
    by fastforce
  with assms CallPut have w': "service w' = s'" and e: "e = None \<longleftrightarrow> (\<exists>x. r = Inr x)"
    by (auto simp: minio_PutObject_def minio_Bucket_def split: sum.splits)
  show ?thesis
  proof (cases r)
    case (Inl err)
    with put_error [OF r [unfolded Inl]] e w' CallPut show ?thesis
      using bucket_view [of objs w' w m k] bucket_view_same [of objs w' w m] by auto
  next
    case (Inr x)
    with put_ok [of "minio_Bucket m" k body po "service w" "fst x" "snd x" s'] r w' CallPut show ?thesis
      using bucket_view [of objs w' w m k] by auto
  qed
next
  case (CallRemove k)
  with assms have r: "mi_RemoveObject sdk (minio_Bucket m) k (service w) = (e, service w')"
    by (auto simp: minio_DeleteObject_def minio_Bucket_def split: prod.splits)
  show ?thesis
  proof (cases e)
    case None
    with remove_ok [OF r [unfolded None]] CallRemove show ?thesis
      using bucket_view [of objs w' w m k] by auto
  next
    case (Some err)
    with remove_error [OF r [unfolded Some]] CallRemove show ?thesis
      using bucket_view [of objs w' w m k] bucket_view_same [of objs w' w m] by auto
  qed
next
  case (CallCopy k k' po)
  obtain r s' where r: "mi_CopyObject sdk (minio_Bucket m) k k' (po_Metadata po) (service w) = (r, s')"
    by fastforce
  with assms CallCopy have w': "service w' = s'" and e: "e = None \<longleftrightarrow> (\<exists>x. r = Inr x)"
    by (auto simp: minio_CopyObject_def minio_Bucket_def split: sum.splits)
  have copied: "store_spec c (bucket_map objs m w) = (bucket_map objs m w)(k' := Some v)"
    if "objs (service w) (minio_Bucket m, k) = Some v" for v
    using that CallCopy by (simp add: bucket_map_def)
  show ?thesis
  proof (cases r)
    case (Inl err)
    with e have failed: "e \<noteq> None" by simp
    from copy_error [OF r [unfolded Inl]] show ?thesis
    proof
      assume "objs s' = objs (service w)"
      with w' failed show ?thesis using bucket_view_same [of objs w' w m] by simp
    next
      assume "\<exists>v. objs (service w) (minio_Bucket m, k) = Some v \<and>
        objs s' = (objs (service w))((minio_Bucket m, k') \<mapsto> v)"
      with w' copied show ?thesis using bucket_view [of objs w' w m k'] by metis
    qed
  next
    case (Inr x)
    with copy_ok [OF r [unfolded Inr]] w' copied show ?thesis
      using bucket_view [of objs w' w m k'] by metis
  qed
qed

lemma store_calls_refine:
  "mn_client m = sdk \<Longrightarrow> run_store_calls m cs w = (e, w') \<Longrightarrow>
    (e = None \<longrightarrow> bucket_map objs m w' = fold store_spec cs (bucket_map objs m w)) \<and>
    elsewhere objs m w' = elsewhere objs m w"
proof (induction cs arbitrary: w)
  case (Cons c cs)
  obtain e1 w1 where c: "run_store_call m c w = (e1, w1)" by fastforce
  note eff = store_call_effect [OF Cons.prems(1) c]
  show ?case
  proof (cases e1)
    case None
    with Cons.IH [OF Cons.prems(1), of w1] Cons.prems(2) c eff show ?thesis by simp
  next
    case (Some err)
    with Cons.prems(2) c eff show ?thesis by auto
  qed
qed simp

end

section \<open>Reading\<close>

context s3_service
begin

lemma stat_object:
  assumes "mn_client m = sdk" and "minio_StatObject m k w = (Inr info, w')"
  shows "\<exists>v. bucket_map objs m w k = Some v \<and> oi_Key info = k \<and> oi_Size info = int (length v) \<and>
    objs (service w') = objs (service w)"
  using assms stat_ok [of "minio_Bucket m" k "service w"] stat_reads [of "minio_Bucket m" k "service w"]
  by (fastforce simp: minio_StatObject_def minio_Bucket_def bucket_map_def sdk_info_def split: sum.splits prod.splits)

lemma get_object:
  assumes "mn_client m = sdk" and "minio_GetObject m k opts w = (Inr (h, info), w')"
  shows "\<exists>v rng. get_range opts = Inr rng \<and> bucket_map objs m w k = Some v \<and>
    reader (service w') h = Some (range_of rng v) \<and> oi_Key info = k \<and> objs (service w') = objs (service w)"
proof -
  from assms obtain rng s1 st s2 where rng: "get_range opts = Inr rng"
    and g: "mi_GetObject sdk (minio_Bucket m) k rng (service w) = (Inr h, s1)"
    and st: "mi_ObjectStat sdk h s1 = (Inr st, s2)"
    and w': "service w' = s2" "info = sdk_info m st"
    by (auto simp: minio_GetObject_def minio_Bucket_def split: sum.splits prod.splits)
  from get_ok [OF g st] get_reads [OF g] object_stat_reads [OF st] w' rng show ?thesis
    by (auto simp: bucket_map_def sdk_info_def)
qed

lemma list_objects:
  assumes "mn_client m = sdk" and rc: "lp_Recursive opts"
    and "minio_ListObjects m opts w = (Inr items, w')"
  shows "let K = {k. strings_HasPrefix k (lp_Prefix opts) \<and> bucket_map objs m w k \<noteq> None} in
    oi_Key ` set items \<subseteq> K \<and> distinct (map oi_Key items) \<and>
    (0 < lp_Limit opts \<longrightarrow> int (length items) \<le> lp_Limit opts) \<and>
    (lp_Limit opts \<le> 0 \<or> int (length items) < lp_Limit opts \<longrightarrow> oi_Key ` set items = K)"
proof -
  let ?p = "lp_Prefix opts"
  obtain ch s where ch: "mi_ListObjects sdk (minio_Bucket m) ?p True (service w) = (ch, s)" by fastforce
  with assms have run: "list_loop m (lp_Limit opts) ch [] = (items, None)"
    by (auto simp: minio_ListObjects_def minio_Bucket_def Let_def split: prod.splits option.splits)
  from list_loop_ok [OF run] obtain n xs where items: "items = map (sdk_info m) xs"
    and n: "take n ch = map Inr xs" "n = length ch \<or> 0 < lp_Limit opts \<and> lp_Limit opts \<le> int (length items)"
    by auto
  then have "ch = map Inr xs @ drop n ch" by (metis append_take_drop_id)
  with ch have l: "mi_ListObjects sdk (minio_Bucket m) ?p True (service w) = (map Inr xs @ drop n ch, s)" by simp
  have keys: "oi_Key \<circ> sdk_info m = so_Key" by (auto simp: sdk_info_def)
  have K: "keys_with (objs (service w)) (minio_Bucket m) ?p =
      {k. strings_HasPrefix k ?p \<and> bucket_map objs m w k \<noteq> None}"
    by (simp add: keys_with_def bucket_map_def)
  have "oi_Key ` set items = so_Key ` set xs" "map oi_Key items = map so_Key xs"
    using items keys by (simp_all add: image_image sdk_info_def)
  with list_items [OF l] n(2) list_loop_limit [OF run] show ?thesis
    unfolding K by (auto simp: Let_def)
qed

end

section \<open>A server in memory\<close>

text \<open>Objects in an association list, and the key and content of every reader that was opened.\<close>

record mem_s3 =
  ms_data :: "((string \<times> string) \<times> string) list"
  ms_open :: "(string \<times> string) list"

definition mem_objs :: "mem_s3 \<Rightarrow> string \<times> string \<rightharpoonup> string" where
  "mem_objs s = map_of (ms_data s)"

definition mem_reader :: "mem_s3 \<Rightarrow> nat \<rightharpoonup> string" where
  "mem_reader s h = (if h < length (ms_open s) then Some (snd (ms_open s ! h)) else None)"

definition mem_put :: "string \<Rightarrow> string \<Rightarrow> string \<Rightarrow> mem_s3 \<Rightarrow> mem_s3" where
  "mem_put b k v s = s\<lparr>ms_data := ((b, k), v) # ms_data s\<rparr>"

definition mem_obj :: "string \<Rightarrow> string \<Rightarrow> sdk_object" where
  "mem_obj k v = \<lparr>so_Key = k, so_Size = int (length v), so_ETag = [], so_ContentType = [], so_LastModified = 0\<rparr>"

definition no_such_key :: go_error where
  "no_such_key = ErrExt ''The specified key does not exist.''"

definition mem_keys :: "mem_s3 \<Rightarrow> string \<Rightarrow> string \<Rightarrow> string list" where
  "mem_keys s b p = remdups (map snd (filter (\<lambda>x. fst x = b \<and> strings_HasPrefix (snd x) p) (map fst (ms_data s))))"

definition mem_minio :: "mem_s3 minio_sdk" where
  "mem_minio =
     \<lparr>mi_BucketExists = (\<lambda>b s. ((True, None), s)), mi_MakeBucket = (\<lambda>b r s. (None, s)),
      mi_PutObject = (\<lambda>b k v n po s. (Inr (b, mem_obj k v), mem_put b k v s)),
      mi_GetObject = (\<lambda>b k r s.
        case mem_objs s (b, k) of
          None \<Rightarrow> (Inl no_such_key, s)
        | Some v \<Rightarrow> (Inr (length (ms_open s)), s\<lparr>ms_open := ms_open s @ [(k, range_of r v)]\<rparr>)),
      mi_ObjectStat = (\<lambda>h s.
        if h < length (ms_open s) then (Inr (mem_obj (fst (ms_open s ! h)) (snd (ms_open s ! h))), s)
        else (Inl no_such_key, s)),
      mi_ObjectClose = (\<lambda>h s. (None, s)),
      mi_RemoveObject = (\<lambda>b k s. (None, s\<lparr>ms_data := filter (\<lambda>x. fst x \<noteq> (b, k)) (ms_data s)\<rparr>)),
      mi_StatObject = (\<lambda>b k s.
        case mem_objs s (b, k) of None \<Rightarrow> (Inl no_such_key, s) | Some v \<Rightarrow> (Inr (mem_obj k v), s)),
      mi_ListObjects = (\<lambda>b p r s. (map (\<lambda>k. Inr (mem_obj k [])) (mem_keys s b p), s)),
      mi_CopyObject = (\<lambda>b k k' md s.
        case mem_objs s (b, k) of
          None \<Rightarrow> (Inl no_such_key, s) | Some v \<Rightarrow> (Inr (mem_obj k' v), mem_put b k' v s)),
      mi_PresignedPutObject = (\<lambda>b k d s. (Inr k, s)), mi_PresignedGetObject = (\<lambda>b k d s. (Inr k, s))\<rparr>"

lemma mem_objs_put [simp]: "mem_objs (mem_put b k v s) = (mem_objs s)((b, k) \<mapsto> v)"
  by (simp add: mem_objs_def mem_put_def)

lemma mem_objs_open [simp]: "mem_objs (s\<lparr>ms_open := l\<rparr>) = mem_objs s"
  by (simp add: mem_objs_def)

lemma map_of_filter_other: "map_of (filter (\<lambda>x. fst x \<noteq> a) xs) = (map_of xs)(a := None)"
  by (induction xs) (auto simp: fun_eq_iff)

lemma set_mem_keys: "set (mem_keys s b p) = keys_with (mem_objs s) b p"
  by (force simp: mem_keys_def keys_with_def mem_objs_def map_of_eq_None_iff image_iff)

lemma mem_listed:
  "map (\<lambda>k. Inr (mem_obj k [])) ks = map Inr xs @ rest \<Longrightarrow>
    \<exists>ks'. ks = map so_Key xs @ ks' \<and> (rest = [] \<longrightarrow> ks' = [])"
proof (induction xs arbitrary: ks)
  case (Cons x xs)
  then show ?case by (cases ks) (auto simp: mem_obj_def)
qed auto

interpretation mem_s3: s3_service mem_minio mem_objs mem_reader
proof unfold_locales
  fix b p s xs rest s'
  assume "mi_ListObjects mem_minio b p True s = (map Inr xs @ rest, s')"
  then obtain ks' where ks: "mem_keys s b p = map so_Key xs @ ks'" "rest = [] \<longrightarrow> ks' = []"
    using mem_listed [of "mem_keys s b p" xs rest] by (auto simp: mem_minio_def)
  have "distinct (mem_keys s b p)" by (simp add: mem_keys_def)
  with ks set_mem_keys [of s b p]
  show "so_Key ` set xs \<subseteq> keys_with (mem_objs s) b p \<and> distinct (map so_Key xs) \<and>
      (rest = [] \<longrightarrow> so_Key ` set xs = keys_with (mem_objs s) b p)" by auto
qed (auto simp: mem_minio_def mem_obj_def mem_reader_def map_of_filter_other mem_objs_def [of "_\<lparr>ms_data := _\<rparr>"]
    mem_objs_def [symmetric] split: option.splits if_splits)

section \<open>Properties of the object store\<close>

text \<open>
  C10: a bucket is a map. After any sequence of PutObject, DeleteObject and CopyObject calls that all
  returned nil, the bucket of the client holds what the map operations compute; and whether the calls
  returned nil or not, no object of another bucket has changed.
\<close>

theorem objects_refine_map:
  assumes "s3_service (mn_client m) objs reader" and "run_store_calls m cs w = (e, w')"
  shows "(e = None \<longrightarrow> bucket_map objs m w' = fold store_spec cs (bucket_map objs m w)) \<and>
    elsewhere objs m w' = elsewhere objs m w"
  using s3_service.store_calls_refine [OF assms(1) refl assms(2)] .

definition docs_client :: "mem_s3 minio_client" where
  "docs_client =
     \<lparr>mn_cfg = \<lparr>mo_Provider = [], mo_Endpoint = ''s3:9000'', mo_AccessKey = ''a'', mo_SecretKey = ''s'',
        mo_SessionToken = [], mo_Bucket = ''docs'', mo_Region = [], mo_UseSSL = False, mo_AutoCreateBucket = False\<rparr>,
      mn_client = mem_minio\<rparr>"

definition other_bucket :: "mem_s3 world" where
  "other_bucket = \<lparr>service = \<lparr>ms_data = [((''logs'', ''a''), ''old'')], ms_open = []\<rparr>, w_metrics = None\<rparr>"

definition plain_put :: put_options where
  "plain_put = \<lparr>po_ContentType = [], po_Metadata = [], po_CacheControl = []\<rparr>"

definition store_script :: "store_call list" where
  "store_script = [CallPut ''a'' ''hello world'' plain_put, CallCopy ''a'' ''b'' plain_put, CallRemove ''a'']"

lemma observe_minio_idle [simp]: "w_metrics w = None \<Longrightarrow> observe_minio oper e s w = w\<lparr>service := s\<rparr>"
  by (simp add: observe_minio_def observe_dependency_def metrics_ObserveDependency_def)

lemma store_script_run:
  "run_store_calls docs_client store_script other_bucket =
     (None, other_bucket\<lparr>service := \<lparr>ms_data = [((''docs'', ''b''), ''hello world''), ((''logs'', ''a''), ''old'')],
        ms_open = []\<rparr>\<rparr>)"
  by (simp add: store_script_def docs_client_def other_bucket_def minio_PutObject_def minio_CopyObject_def
      minio_DeleteObject_def mem_minio_def mem_put_def mem_objs_def)

theorem objects_refine_map_witness:
  "\<exists>w'. run_store_calls docs_client store_script other_bucket = (None, w') \<and>
    bucket_map mem_objs docs_client w' = fold store_spec store_script Map.empty \<and>
    elsewhere mem_objs docs_client w' = [(''logs'', ''a'') \<mapsto> ''old'']"
proof -
  have sv: "s3_service (mn_client docs_client) mem_objs mem_reader"
    using mem_s3.s3_service_axioms by (simp add: docs_client_def)
  have "bucket_map mem_objs docs_client other_bucket = Map.empty"
    "elsewhere mem_objs docs_client other_bucket = [(''logs'', ''a'') \<mapsto> ''old'']"
    by (auto simp: bucket_map_def elsewhere_def mem_objs_def other_bucket_def docs_client_def minio_Bucket_def
        restrict_map_def fun_eq_iff)
  with objects_refine_map [OF sv store_script_run] store_script_run show ?thesis by simp
qed



text \<open>
  C36: listing is the bucket. A recursive ListObjects that returns no error gives keys of the bucket that
  start with the prefix, none of them twice and at most as many as the limit allows; below the limit, or
  without one, it gives all of them.
\<close>

theorem listing_is_the_bucket:
  assumes "s3_service (mn_client m) objs reader" and "lp_Recursive opts"
    and "minio_ListObjects m opts w = (Inr items, w')"
    and "K = {k. strings_HasPrefix k (lp_Prefix opts) \<and> bucket_map objs m w k \<noteq> None}"
  shows "oi_Key ` set items \<subseteq> K \<and> distinct (map oi_Key items) \<and>
    (0 < lp_Limit opts \<longrightarrow> int (length items) \<le> lp_Limit opts) \<and>
    (lp_Limit opts \<le> 0 \<or> int (length items) < lp_Limit opts \<longrightarrow> oi_Key ` set items = K)"
  using s3_service.list_objects [OF assms(1) refl assms(2,3)] unfolding assms(4) by (simp add: Let_def)

definition three_docs :: "mem_s3 world" where
  "three_docs = \<lparr>service = \<lparr>ms_data = [((''docs'', ''a1''), []), ((''docs'', ''b''), []), ((''docs'', ''a2''), []),
     ((''logs'', ''a3''), [])], ms_open = []\<rparr>, w_metrics = None\<rparr>"

theorem listing_is_the_bucket_witness:
  "\<exists>items w'. minio_ListObjects docs_client \<lparr>lp_Prefix = ''a'', lp_Recursive = True, lp_Limit = 0\<rparr> three_docs
      = (Inr items, w') \<and> oi_Key ` set items = {''a1'', ''a2''}"
proof -
  have sv: "s3_service (mn_client docs_client) mem_objs mem_reader"
    using mem_s3.s3_service_axioms by (simp add: docs_client_def)
  let ?opts = "\<lparr>lp_Prefix = ''a'', lp_Recursive = True, lp_Limit = 0\<rparr>"
  obtain items w' where l: "minio_ListObjects docs_client ?opts three_docs = (Inr items, w')"
    by (simp add: minio_ListObjects_def docs_client_def mem_minio_def three_docs_def mem_keys_def
        strings_HasPrefix_def Let_def)
  have "{k. strings_HasPrefix k ''a'' \<and> bucket_map mem_objs docs_client three_docs k \<noteq> None} = {''a1'', ''a2''}"
    by (auto simp: bucket_map_def mem_objs_def three_docs_def docs_client_def minio_Bucket_def
        strings_HasPrefix_def split: if_splits)
  with listing_is_the_bucket [OF sv _ l refl] l show ?thesis by auto
qed

end
