(* ===== verification/Spec2Isabelle.thy ===== *)
theory Spec2Isabelle
  imports Audit_Trail Health Login_Flow Logx Build_Version Cache Lock_Progress Object_Model
begin

text \<open>
  A verification development of the Go repository \<open>aisphere-kit\<close> (\<open>src/\<close>), the kit that services share:
  identity and permissions over Casdoor, sessions, cache and locks over Redis, databases over GORM,
  objects over MinIO, configuration and start-up.

  \<^bold>\<open>The program.\<close> \<open>starter\<close> loads a \<open>config\<close>, builds the clients of the services that are switched on in a
  fixed order (\<open>metrics\<close>, \<open>db\<close>, \<open>cache\<close> and \<open>session\<close>, \<open>objectstore\<close>, \<open>casdoor\<close>) and hands out a runtime and a
  cleanup function. A request is authenticated (\<open>authn\<close> over \<open>casdoor\<close>), its principal travels in the
  context (\<open>principal\<close>), and the \<open>access\<close> guard asks an authorizer (\<open>authz\<close>, implemented by \<open>casdoor\<close>) and
  records an \<open>audit\<close> event. Policies are managed through \<open>permission.Manager\<close>, which \<open>casdoor/policy.go\<close>
  implements; every call to Casdoor goes through \<open>retry\<close>. \<open>health\<close> probes what the runtime has.

  \<^bold>\<open>Theories, the code they model, and what they show.\<close>

  \<^item> \<open>Go_Prelude\<close>, \<open>Go_Numbers\<close>, \<open>Go_URL\<close>, \<open>Go_SHA256\<close>: the parts of Go's standard library that the code uses
    (\<open>strings\<close>, errors, \<open>strconv\<close>, \<open>time.ParseDuration\<close>, \<open>net/url\<close> values and escaping, \<open>crypto/sha256\<close>), with
    round trips for numbers, query strings and escapes, and the origin of the SHA-256 constants.
    \<open>Go_Slog\<close>: levels, handlers, loggers and records of \<open>log/slog\<close>.
  \<^item> \<open>Identity\<close> (\<open>principal/\<close>, \<open>resource/\<close>, \<open>action/\<close>), \<open>Authn\<close> (\<open>authn/\<close>), \<open>Authz\<close> (\<open>authz/\<close>), \<open>Permission\<close>
    (\<open>permission/\<close>), \<open>Audit_Events\<close> (\<open>audit/\<close>), \<open>Access\<close> (\<open>access/\<close>): resource names are unambiguous; normalised
    grants are well formed; actions are cleaned as a reference function does; asynchronous recording is
    bounded in every interleaving; audited decisions are the decisions made. The interfaces
    \<open>Authenticator\<close>, \<open>Authorizer\<close> and \<open>Manager\<close> are the locales \<open>authenticator\<close>, \<open>authorizer\<close> and
    \<open>permission_manager\<close>, whose clients are proved inside them.
  \<^item> \<open>Retry\<close> (\<open>retry/\<close>), \<open>Metrics\<close> (\<open>metrics/\<close>): the loop of \<open>Do\<close> with rules for invariants, its bound on
    attempts, and counting of dependency calls.
  \<^item> \<open>Casdoor_Config\<close>, \<open>Casdoor_Adapter\<close>, \<open>Casdoor_Policy\<close>, \<open>Casdoor_OAuth\<close> (\<open>casdoor/\<close>): certificates, the adapter
    as authenticator, authorizer and recorder, the policy manager with its refinement of the abstract
    specification \<open>spec_call\<close> (a set of policies), login URLs and token exchange. \<open>Casdoor_Reference\<close> is a
    Casdoor in memory that satisfies the assumed laws, on which the locales are interpreted.
    \<open>Audit_Trail\<close>: the guard's decisions as records in Casdoor, over the locale \<open>casdoor_log\<close>.
  \<^item> \<open>Redis_KV\<close>: the commands and scripts that the code sends to Redis and their laws (locale \<open>redis_kv\<close>),
    with a server in memory that has expiry; \<open>Cache\<close> (\<open>cache/key.go\<close>, \<open>json.go\<close>, \<open>redis.go\<close>), \<open>Cache_Lock\<close>
    (\<open>cache/lock.go\<close>) and \<open>Session\<close> (\<open>session/\<close>) over it: round trips, mutual exclusion as an invariant of a
    step relation, termination of waiting, single use of OAuth states, revocation. \<open>Lock_Progress\<close>: a
    client that waits gets the lock when the others let go of it in time. \<open>Login_Flow\<close>: the state that a
    login URL carries comes back and is accepted once.
  \<^item> \<open>Postgres_DSN\<close>, \<open>Database\<close> (\<open>db/database.go\<close>, \<open>mysql.go\<close>, \<open>postgres.go\<close>), \<open>Db_Query\<close> (\<open>db/page.go\<close>, \<open>jsonb.go\<close>,
    \<open>tx.go\<close>): quoting and connection strings, no leaked pools, pages that add up to the table, offsets
    that do not wrap, JSON columns, atomic transactions.
  \<^item> \<open>Object_Store\<close> (\<open>objectstore/\<close>): options, ranges, copies and listings; \<open>Object_Model\<close>: the client refines a
    map from keys to contents, over the laws of the server (locale \<open>s3_service\<close>) and a server in memory.
  \<^item> \<open>Logx\<close> (\<open>logx/\<close>): the logger made of the settings, the logger and the request identifier of a context.
  \<^item> \<open>Config\<close> (\<open>config/\<close>), \<open>Starter\<close> (\<open>starter/\<close>), \<open>Health\<close> (\<open>health/\<close>): precedence of configuration sources,
    validated configurations satisfy what the constructors check, start-up that leaks nothing, cleanup
    in reverse order, readiness. \<open>Build_Version\<close> (\<open>version/\<close>): the version and the build information.
  \<^item> This theory: the properties that span components, from the bearer token to the stored policy.

  \<^bold>\<open>How state and effects are modelled.\<close> A struct is a record with a prefix per type; a nil pointer or
  interface is \<^term>\<open>None\<close>. The state of the services is a type parameter \<open>'x\<close>; a call takes it and returns it.
  \<open>'x world\<close> adds the metrics of the process. Errors are values of \<open>go_error\<close> with wrapping; a result with
  an error is a sum, and a panic is \<open>Panic\<close> of the type \<open>outcome\<close>. What the Go scheduler and the context
  decide (cancellation, which branch of a select wins, whether an abandoned call still takes effect) is
  the record \<open>goenv\<close>, over which the theorems quantify. Readings of the clock and random bytes are
  arguments or parts of an environment record. Durations and times are unbounded integers with the range
  of \<open>int64\<close> written out where the code depends on it; page offsets and byte ranges wrap at 64 bits.

  \<^bold>\<open>Code outside the repository\<close> is a parameter: the Casdoor SDK (\<open>casdoor_client\<close>), go-redis
  (\<open>redis_client\<close>), GORM (\<open>gorm_lib\<close>, \<open>query_lib\<close>, \<open>tx_lib\<close>), the MinIO SDK (\<open>minio_sdk\<close>), the HTTP client and
  \<open>url.Parse\<close> (\<open>oauth_lib\<close>, \<open>dsn_lib\<close>), YAML and JSON (\<open>config_lib\<close>, \<open>json_codec\<close>, \<open>jsonb_codec\<close>), PEM and X.509
  (\<open>certlib\<close>), the Prometheus registry. What a theorem needs of it is a named hypothesis: a locale
  (\<open>casdoor_policy_api\<close>, \<open>casdoor_acl\<close>, \<open>casdoor_log\<close>, \<open>redis_kv\<close>, \<open>lock_service\<close>, \<open>lock_clock\<close>, \<open>lock_progress\<close>,
  \<open>sql_pools\<close>, \<open>runtime_pools\<close>, \<open>stable_query\<close>, \<open>transactions\<close>, \<open>s3_service\<close>) with an interpretation on a
  definition in memory. The laws of Redis allow a command to be carried out although the reply is an
  error, or twice, and those of Casdoor a failing call to have had its effect.

  \<^bold>\<open>Termination.\<close> Every loop is structural recursion or bounded by its data, but for the loop of
  \<open>LockWithWait\<close>, which is a \<open>partial_function\<close> whose termination on a clock that moves forward is the
  theorem \<open>LockWithWait_ends\<close>, and which returns the lock under the conditions of
  \<open>LockWithWait_acquires\<close>. There is no fuel.

  \<^bold>\<open>Limits.\<close> Strings are byte strings with the case and space functions of the ASCII range. The context
  of the lock loop and of the adapter's calls is not nil (\<open>retry.Do\<close> is also modelled for nil). Tokens of
  locks are assumed not to repeat. The lines that components log (but for the writer that GORM logs
  through and the trace of a policy call), the loggers that they are built with, elapsed times and
  tracing are left out: no code reads them. An option that sets the runtime's logger to nil is outside
  the model of the starter, whose logger is not optional.
\<close>

section \<open>Permissions end to end\<close>

text \<open>
  C1: the Casdoor adapter refines the abstract permission manager. Whatever sequence of Grant,
  GrantRole, Share, Revoke and DeleteResourcePolicies calls a client makes, if every call returns
  nil then the policies stored in Casdoor are those the specification computes from the policies
  stored before. Casdoor's policy API is assumed to do what it documents, on every call; calls may
  fail and be retried, and may be abandoned when the context is cancelled.
\<close>

theorem adapter_refines_manager:
  assumes "casdoor_policy_api a env rules"
    and "run_calls (adapter_manager a env var ctx) cs w = (None, w')"
  shows "adapter_policies rules w' = fold (spec_call var) cs (adapter_policies rules w)"
  using permission_manager.calls_refine [OF casdoor_policy_api.is_manager [OF assms(1)] assms(2)] .

theorem adapter_refines_manager_witness:
  "casdoor_policy_api store_adapter open_env store_rules \<and>
   run_calls (adapter_manager store_adapter open_env roleMapper_init context_Background)
     [CallShare alice_viewer] (store_world []) =
     (None, store_world [(''user:alice'', ''aihub:skill:translator'', ''skill.read''),
                         (''user:alice'', ''aihub:skill:translator'', ''skill.download'')]) \<and>
   fold (spec_call roleMapper_init) [CallShare alice_viewer] {} =
     {(''user:alice'', ''aihub:skill:translator'', ''skill.read''),
      (''user:alice'', ''aihub:skill:translator'', ''skill.download'')}"
  using store.casdoor_policy_api_axioms share_run [of context_Background]
    adapter_refines_manager [OF store.casdoor_policy_api_axioms share_run [of context_Background]]
  by (simp add: adapter_policies_def store_world_def empty_store_def)

text \<open>
  C8: no partial effect beyond the request. When one of these calls returns an error, it may have
  been carried out in part (a role is granted one policy at a time, and an abandoned request may
  still arrive), but no policy outside the request is added or removed.
\<close>

theorem adapter_error_between:
  assumes "casdoor_policy_api a env rules"
    and "run_call (adapter_manager a env var ctx) c w = (Some err, w')"
  shows "between (adapter_policies rules w) (adapter_policies rules w')
    (spec_call var c (adapter_policies rules w))"
  using permission_manager.call_error [OF casdoor_policy_api.is_manager [OF assms(1)] assms(2)] .

lemma unsupported_role_run:
  "run_call (adapter_manager store_adapter open_env roleMapper_init ctx)
     (CallShare (alice_viewer\<lparr>sh_Role := ''admin''\<rparr>)) (store_world []) =
   (Some (wrapf [] ErrUnsupportedRole '': admin''), store_world [])"
  by (simp add: store_eval alice_viewer_def store_world_def)

theorem adapter_error_between_witness:
  "casdoor_policy_api store_adapter open_env store_rules \<and>
   run_call (adapter_manager store_adapter open_env roleMapper_init context_Background)
     (CallShare (alice_viewer\<lparr>sh_Role := ''admin''\<rparr>)) (store_world []) =
     (Some (wrapf [] ErrUnsupportedRole '': admin''), store_world []) \<and>
   between (adapter_policies store_rules (store_world [])) (adapter_policies store_rules (store_world []))
     (spec_call roleMapper_init (CallShare (alice_viewer\<lparr>sh_Role := ''admin''\<rparr>)) {})"
  using store.casdoor_policy_api_axioms unsupported_role_run [of context_Background]
    adapter_error_between [OF store.casdoor_policy_api_axioms unsupported_role_run [of context_Background]]
  by (simp add: adapter_policies_def store_world_def empty_store_def)

text \<open>
  C6: checks see the calls made before them. After any sequence of successful calls, a Check
  without domain and extra arguments that returns no error answers true exactly when the policy of
  its subject, resource and action is among those the specification computes. The enforcer is
  assumed to use the stored policies under the ACL model.
\<close>

theorem check_sees_calls:
  assumes "casdoor_acl a env rules"
    and "run_calls (adapter_manager a env var ctx) cs w = (None, w1)"
    and "adapter_Check a env ctx req w1 = ((ok, None), w2)"
    and "ck_Domain req = []" "ck_Extra req = []"
  shows "ok \<longleftrightarrow> (check_subject req, ck_Resource req, ck_Action req) \<in>
    fold (spec_call var) cs (adapter_policies rules w)"
  using casdoor_acl.check_after_calls [OF assms] .

definition alice_read :: check_request where
  "alice_read =
     \<lparr>ck_Subject = '' user:alice'', ck_Principal = None, ck_Resource = ''aihub:skill:translator'',
      ck_Action = ''skill.read'', ck_Domain = [], ck_Extra = []\<rparr>"

lemma alice_read_run:
  "adapter_Check store_adapter open_env ctx alice_read
     (store_world [(''user:alice'', ''aihub:skill:translator'', ''skill.read''),
                   (''user:alice'', ''aihub:skill:translator'', ''skill.download'')]) =
   ((True, None),
     store_world [(''user:alice'', ''aihub:skill:translator'', ''skill.read''),
                  (''user:alice'', ''aihub:skill:translator'', ''skill.download'')])"
  by (simp add: store_eval alice_read_def store_world_def)

theorem check_sees_calls_witness:
  "casdoor_acl store_adapter open_env store_rules \<and>
   (check_subject alice_read, ck_Resource alice_read, ck_Action alice_read) \<in>
     fold (spec_call roleMapper_init) [CallShare alice_viewer]
       (adapter_policies store_rules (store_world []))"
  using store.casdoor_acl_axioms
    check_sees_calls [OF store.casdoor_acl_axioms share_run [of context_Background]
      alice_read_run [of context_Background]]
  by (simp add: alice_read_def)

text \<open>
  Deleting a resource's policies. When DeleteResourcePolicies returns nil, no policy on the
  resource is left, and the policies on other resources are untouched.
\<close>

theorem delete_clears_resource:
  assumes "casdoor_policy_api a env rules"
    and "adapter_DeleteResourcePolicies a env ctx r w = (None, w')"
  shows "adapter_policies rules w' \<inter> on_resource r = {} \<and>
    adapter_policies rules w' - on_resource r = adapter_policies rules w - on_resource r"
  using casdoor_policy_api.delete_effect [OF assms] by auto

lemma delete_run:
  "adapter_DeleteResourcePolicies store_adapter open_env ctx ''r''
     (store_world [(''u'', ''r'', ''a''), (''u'', ''q'', ''a''), (''v'', ''r'', ''b'')]) =
   (None, store_world [(''u'', ''q'', ''a'')])"
  by (simp add: store_eval store_world_def)

theorem delete_clears_resource_witness:
  "adapter_DeleteResourcePolicies store_adapter open_env context_Background ''r''
     (store_world [(''u'', ''r'', ''a''), (''u'', ''q'', ''a''), (''v'', ''r'', ''b'')]) =
     (None, store_world [(''u'', ''q'', ''a'')]) \<and>
   adapter_policies store_rules (store_world [(''u'', ''q'', ''a'')]) \<inter> on_resource ''r'' = {}"
  using delete_run [of context_Background]
    delete_clears_resource [OF store.casdoor_policy_api_axioms delete_run [of context_Background]]
  by simp

text \<open>
  The access guard over the Casdoor adapter lets nobody pass without a policy. When
  Guard.Require returns a principal, it is the principal of the request context and Casdoor holds
  a policy for its subject, the resource and the action of the check. No assumption is made on
  retries, cancellation or the audit recorder.
\<close>

theorem guard_needs_policy:
  assumes "casdoor_acl a env rules"
    and "guard_Require (Some (NewGuard (Some (adapter_authorizer a env)) aud component)) (Some ctx) chk w
      = (Inr p, w')"
  shows "principal_FromContext (Some ctx) = (Some p, True) \<and>
    (principal_Subject p, ac_Resource chk, ac_Action chk) \<in> adapter_policies rules w"
  using assms(2) casdoor_acl.authorize_decides [OF assms(1), where ok = True]
  by (auto simp: guard_Require_success adapter_authorizer_def)

definition alice :: principal where
  "alice = principal_lit SubjectUser ''alice''"

definition alice_ctx :: go_context where
  "alice_ctx = principal_NewContext context_Background (Some alice)"

definition read_check :: access_check where
  "read_check =
     \<lparr>ac_Resource = ''aihub:skill:translator'', ac_Action = ''skill.read'', ac_Domain = [],
      ac_Reason = [], ac_Extra = []\<rparr>"

definition alice_policy :: policy where
  "alice_policy = (''user:alice'', ''aihub:skill:translator'', ''skill.read'')"

lemma alice_guard_run:
  "guard_Require (Some (NewGuard (Some (adapter_authorizer store_adapter open_env)) aud c))
     (Some alice_ctx) read_check (store_world [alice_policy]) =
   (Inr alice, store_world [alice_policy])"
  by (simp add: guard_Require_success alice_ctx_def alice_def read_check_def alice_policy_def
      adapter_authorizer_def adapter_Authorize_def plain_request_def principal_Subject_def
      principal_lit_def principal_IsZero_def casbin_request_def store_world_def no_selectors_def)

theorem guard_needs_policy_witness:
  "guard_Require (Some (NewGuard (Some (adapter_authorizer store_adapter open_env)) None ''hub''))
     (Some alice_ctx) read_check (store_world [alice_policy]) =
     (Inr alice, store_world [alice_policy]) \<and>
   (principal_Subject alice, ac_Resource read_check, ac_Action read_check) \<in>
     adapter_policies store_rules (store_world [alice_policy])"
  using alice_guard_run [of None "''hub''"]
    guard_needs_policy [OF store.casdoor_acl_axioms alice_guard_run [of None "''hub''"]]
  by simp

text \<open>
  And the guard denies only what has no policy. When Guard.Require answers with the denial
  error, Casdoor holds no policy for the principal's subject, the resource and the action; so after
  a successful Grant or Share the grantee is not denied, and after a successful Revoke it is not
  let pass (C5).
\<close>

theorem guard_denies_no_policy:
  assumes "casdoor_acl a env rules"
    and "guard_Require (Some (NewGuard (Some (adapter_authorizer a env)) aud component)) (Some ctx) chk w
      = (Inl err, w')"
    and "principal_FromContext (Some ctx) = (Some p, True)" and "\<not> principal_IsZero p"
    and "adapter_Authorize a env ctx (plain_request p (ac_Resource chk) (ac_Action chk)) w = ((ok, None), w1)"
    and "ac_Resource chk \<noteq> []" "ac_Action chk \<noteq> []"
  shows "err = denied_error p (ac_Resource chk) (ac_Action chk) \<and>
    (principal_Subject p, ac_Resource chk, ac_Action chk) \<notin> adapter_policies rules w"
proof -
  have "principal_RequireFromContext (Some ctx) = Inr p"
    using assms(3,4) by (simp add: RequireFromContext_Inr)
  with assms(2-) have "\<not> ok \<and> err = denied_error p (ac_Resource chk) (ac_Action chk)"
    by (auto simp: guard_Require_def authz_RequirePrincipal_def adapter_authorizer_def
        split: if_splits prod.splits option.splits)
  with casdoor_acl.authorize_decides [OF assms(1,5)] show ?thesis by simp
qed

lemma alice_guard_denied_run:
  "guard_Require (Some (NewGuard (Some (adapter_authorizer store_adapter open_env)) aud c))
     (Some alice_ctx) read_check (store_world []) =
   (Inl (denied_error alice (ac_Resource read_check) (ac_Action read_check)), store_world [])"
  "adapter_Authorize store_adapter open_env alice_ctx
     (plain_request alice (ac_Resource read_check) (ac_Action read_check)) (store_world []) =
   ((False, None), store_world [])"
  by (simp_all add: guard_Require_def authz_RequirePrincipal_def principal_RequireFromContext_def
      alice_ctx_def alice_def read_check_def store_world_def empty_store_def
      adapter_authorizer_def adapter_Authorize_def plain_request_def principal_Subject_def
      principal_lit_def principal_IsZero_def casbin_request_def no_selectors_def)

theorem guard_denies_no_policy_witness:
  "(principal_Subject alice, ac_Resource read_check, ac_Action read_check) \<notin>
     adapter_policies store_rules (store_world [])"
  using guard_denies_no_policy [OF store.casdoor_acl_axioms alice_guard_denied_run(1) _ _
      alice_guard_denied_run(2)]
  by (simp add: alice_ctx_def alice_def principal_lit_def principal_IsZero_def read_check_def)

section \<open>From the bearer token to the policy\<close>

text \<open>
  C7: a request passes only for the user of its token. When the token of the Authorization header is
  authenticated by the Casdoor adapter, without anonymous access, and the guard then lets the request
  pass, the token was accepted by Casdoor, the principal is the one of its claims, and Casdoor holds a
  policy for the user that the claims name, the resource and the action.
\<close>

theorem token_to_policy:
  assumes "casdoor_acl a env rules" and "ExtractBearer header = (tok, True)"
    and "AuthenticateToken ctx (Some (adapter_Authenticate a env)) tok anon w = ((ctx', p, None), w1)"
    and "guard_Require (Some (NewGuard (Some (adapter_authorizer a env)) aud component)) (Some ctx') chk w1
      = (Inr q, w2)"
  shows "\<exists>claims. sdk_ParseJwtToken (ad_client a) tok (service w) = Inr claims \<and>
    q = claims_principal (ad_cfg a) tok claims \<and>
    (principal_Subject q, ac_Resource chk, ac_Action chk) \<in> adapter_policies rules w1 \<and>
    pr_SubjectID q = firstNonEmpty [jc_Name claims, jc_Subject claims]"
proof -
  have "tok \<noteq> []" using ExtractBearer_ok [OF assms(2)] by simp
  then obtain claims where c: "sdk_ParseJwtToken (ad_client a) tok (service w) = Inr claims"
    and p: "p = Some (claims_principal (ad_cfg a) tok claims)" and ctx': "ctx' = principal_NewContext ctx p"
    using assms(3) adapter_authn.token_outcome [of tok ctx a env anon w]
    by (auto simp: adapter_Authenticate_def Let_def split: sum.splits option.splits)
  have "principal_FromContext (Some ctx') = (Some q, True) \<and>
      (principal_Subject q, ac_Resource chk, ac_Action chk) \<in> adapter_policies rules w1"
    using assms(4) casdoor_acl.authorize_decides [OF assms(1), where ok = True]
    by (auto simp: guard_Require_success adapter_authorizer_def)
  then show ?thesis using c p ctx' by auto
qed

lemma alice_token_run:
  "AuthenticateToken context_Background (Some (adapter_Authenticate store_adapter open_env)) ''alice'' False
     (store_world [alice_policy]) =
   ((principal_NewContext context_Background
       (Some (claims_principal (ad_cfg store_adapter) ''alice'' (token_claims ''alice''))),
     Some (claims_principal (ad_cfg store_adapter) ''alice'' (token_claims ''alice'')), None),
    store_world [alice_policy])"
  using adapter_authn.token_outcome [of "''alice''" context_Background store_adapter open_env False
      "store_world [alice_policy]"]
  by (simp add: adapter_Authenticate_def store_adapter_def store_client_def store_world_def)

lemma alice_token_guard_run:
  "guard_Require (Some (NewGuard (Some (adapter_authorizer store_adapter open_env)) None ''hub''))
     (Some (principal_NewContext context_Background
       (Some (claims_principal (ad_cfg store_adapter) ''alice'' (token_claims ''alice'')))))
     read_check (store_world [alice_policy]) =
   (Inr (claims_principal (ad_cfg store_adapter) ''alice'' (token_claims ''alice'')), store_world [alice_policy])"
  by (simp add: guard_Require_success read_check_def alice_policy_def adapter_authorizer_def
      adapter_Authorize_def plain_request_def principal_Subject_def token_claims_def casbin_request_def
      store_world_def no_selectors_def)

theorem token_to_policy_witness:
  "\<exists>q. guard_Require (Some (NewGuard (Some (adapter_authorizer store_adapter open_env)) None ''hub''))
     (Some (principal_NewContext context_Background
       (Some (claims_principal (ad_cfg store_adapter) ''alice'' (token_claims ''alice'')))))
     read_check (store_world [alice_policy]) = (Inr q, store_world [alice_policy]) \<and>
   (principal_Subject q, ac_Resource read_check, ac_Action read_check) \<in>
     adapter_policies store_rules (store_world [alice_policy])"
proof -
  have h: "ExtractBearer ''Bearer alice'' = (''alice'', True)"
    using ExtractBearer_header [of "''alice''"] by (simp add: is_space_def)
  show ?thesis
    using alice_token_guard_run
      token_to_policy [OF store.casdoor_acl_axioms h alice_token_run alice_token_guard_run] by blast
qed

section \<open>The life of a share\<close>

lemma guard_outcome:
  assumes "casdoor_acl a env rules"
    and "principal_FromContext (Some ctx) = (Some p, True)" and "\<not> principal_IsZero p"
    and "ac_Resource chk \<noteq> []" "ac_Action chk \<noteq> []"
    and "adapter_Authorize a env ctx (plain_request p (ac_Resource chk) (ac_Action chk)) w = ((ok, None), w')"
  shows "guard_Require (Some (NewGuard (Some (adapter_authorizer a env)) aud component)) (Some ctx) chk w =
    (if (principal_Subject p, ac_Resource chk, ac_Action chk) \<in> adapter_policies rules w then Inr p
     else Inl (denied_error p (ac_Resource chk) (ac_Action chk)), w')"
  using casdoor_acl.authorize_decides [OF assms(1,6)] assms(2-)
  by (auto simp: guard_Require_def principal_RequireFromContext_def authz_RequirePrincipal_def
      adapter_authorizer_def)

text \<open>
  C2: the access guard over the Casdoor adapter decides by the policies. When Guard.Require returns a
  principal, it is the one of the request context and Casdoor holds a policy for its subject, the
  resource and the action of the check, whatever happened to retries and cancellation. And when Casdoor
  answers the question of an identified principal, Require lets it pass if there is such a policy and
  otherwise returns the denial error.
\<close>

theorem guard_decides:
  assumes "casdoor_acl a env rules"
    and "guard_Require (Some (NewGuard (Some (adapter_authorizer a env)) aud component)) (Some ctx) chk w = (r, w')"
    and "granted = (\<lambda>p. (principal_Subject p, ac_Resource chk, ac_Action chk) \<in> adapter_policies rules w)"
  shows "(\<forall>p. r = Inr p \<longrightarrow> principal_FromContext (Some ctx) = (Some p, True) \<and> granted p) \<and>
    (\<forall>p ok w1. principal_FromContext (Some ctx) = (Some p, True) \<longrightarrow> \<not> principal_IsZero p \<longrightarrow>
      ac_Resource chk \<noteq> [] \<longrightarrow> ac_Action chk \<noteq> [] \<longrightarrow>
      adapter_Authorize a env ctx (plain_request p (ac_Resource chk) (ac_Action chk)) w = ((ok, None), w1) \<longrightarrow>
      r = (if granted p then Inr p else Inl (denied_error p (ac_Resource chk) (ac_Action chk))))"
proof (intro conjI allI impI)
  fix p
  assume "r = Inr p"
  from guard_needs_policy [OF assms(1) assms(2) [unfolded this]]
  show "principal_FromContext (Some ctx) = (Some p, True)" "granted p" by (simp_all add: assms(3))
next
  fix p ok w1
  assume "principal_FromContext (Some ctx) = (Some p, True)" "\<not> principal_IsZero p"
    "ac_Resource chk \<noteq> []" "ac_Action chk \<noteq> []"
    "adapter_Authorize a env ctx (plain_request p (ac_Resource chk) (ac_Action chk)) w = ((ok, None), w1)"
  from guard_outcome [OF assms(1) this, of aud component] assms(2,3)
  show "r = (if granted p then Inr p else Inl (denied_error p (ac_Resource chk) (ac_Action chk)))"
    by (simp split: if_splits)
qed

theorem guard_decides_witness:
  "\<exists>w'. guard_Require (Some (NewGuard (Some (adapter_authorizer store_adapter open_env)) None ''hub''))
     (Some alice_ctx) read_check (store_world [alice_policy]) = (Inr alice, w') \<and>
   (principal_Subject alice, ac_Resource read_check, ac_Action read_check) \<in>
     adapter_policies store_rules (store_world [alice_policy])"
  using alice_guard_run [of None "''hub''"]
    guard_decides [OF store.casdoor_acl_axioms alice_guard_run [of None "''hub''"] refl] by blast

text \<open>
  C5: a share lives from Share to Revoke. After a Share that returned nil, the guard lets the user of
  the share pass with every action of the shared role on the shared resource, whenever Casdoor answers
  the question. After a Revoke of the same subject, resource and role that returned nil it denies the
  same request.
\<close>

theorem share_lifecycle:
  assumes acl: "casdoor_acl a env rules"
    and share: "adapter_Share a env var ctx0 req w0 = (None, w1)"
    and role: "RoleActionsForResource var (sh_Resource req) (strings_TrimSpace (sh_Role req))
      (sh_Actions req) = Inr acts"
    and user: "principal_FromContext (Some ctx) = (Some p, True)"
      "principal_Subject p = permission_Subject (sh_SubjectType req) (sh_SubjectID req)"
    and chk: "ac_Resource chk = sh_Resource req" "ac_Action chk \<in> set acts" "ac_Action chk \<noteq> []"
    and asked: "adapter_Authorize a env ctx (plain_request p (ac_Resource chk) (ac_Action chk)) w1 = ((ok, None), w2)"
    and revoke: "adapter_Revoke a env var ctx0 (revoke_of req) w2 = (None, w3)"
    and again: "adapter_Authorize a env ctx (plain_request p (ac_Resource chk) (ac_Action chk)) w3 = ((ok', None), w4)"
  shows "guard_Require (Some (NewGuard (Some (adapter_authorizer a env)) aud component)) (Some ctx) chk w1
      = (Inr p, w2) \<and>
    guard_Require (Some (NewGuard (Some (adapter_authorizer a env)) aud component)) (Some ctx) chk w3
      = (Inl (denied_error p (ac_Resource chk) (ac_Action chk)), w4)"
proof -
  note api = casdoor_acl.axioms(1) [OF acl]
  let ?t = "(principal_Subject p, ac_Resource chk, ac_Action chk)"
  obtain g where g: "NormalizeShare req = (g, None)"
    using share by (auto simp: adapter_Share_def split: prod.splits option.splits)
  note fr = NormalizeShare_frame [OF g] and nm = NormalizeShare_normal [OF g]
  have not_zero: "\<not> principal_IsZero p"
    using nm fr user(2) Subject_eq_Nil [of p] by (auto simp: normal_grant_def simp del: Subject_eq_Nil)
  have res: "ac_Resource chk \<noteq> []" using nm fr chk(1) by (simp add: normal_grant_def)
  have granted: "share_policies var req = Inr ((\<lambda>a. (principal_Subject p, ac_Resource chk, a)) ` set acts)"
    using share_policies_eq [OF g role] user(2) chk(1) by simp
  have "?t \<in> adapter_policies rules w1"
    using casdoor_policy_api.share_effect [OF api share] granted chk(2) by (simp add: added_def)
  moreover have "?t \<notin> adapter_policies rules w3"
    using casdoor_policy_api.revoke_effect [OF api revoke] revoke_policies_eq [OF g, of var] granted chk(2)
    by (simp add: removed_def)
  ultimately show ?thesis
    using guard_outcome [OF acl user(1) not_zero res chk(3) asked]
      guard_outcome [OF acl user(1) not_zero res chk(3) again] by simp
qed

lemma alice_life_runs:
  "adapter_Share store_adapter open_env roleMapper_init ctx alice_viewer (store_world []) =
     (None, store_world [alice_policy, (''user:alice'', ''aihub:skill:translator'', ''skill.download'')])"
  "adapter_Authorize store_adapter open_env alice_ctx
     (plain_request alice (ac_Resource read_check) (ac_Action read_check))
     (store_world [alice_policy, (''user:alice'', ''aihub:skill:translator'', ''skill.download'')]) =
   ((True, None), store_world [alice_policy, (''user:alice'', ''aihub:skill:translator'', ''skill.download'')])"
  "adapter_Revoke store_adapter open_env roleMapper_init ctx (revoke_of alice_viewer)
     (store_world [alice_policy, (''user:alice'', ''aihub:skill:translator'', ''skill.download'')]) =
   (None, store_world [])"
  by (simp_all add: store_eval alice_viewer_def store_world_def alice_policy_def revoke_of_def
      plain_request_def alice_def principal_Subject_def principal_lit_def read_check_def no_selectors_def)

theorem share_lifecycle_witness:
  "\<exists>shared. guard_Require (Some (NewGuard (Some (adapter_authorizer store_adapter open_env)) None ''hub''))
     (Some alice_ctx) read_check shared = (Inr alice, shared) \<and>
   adapter_Revoke store_adapter open_env roleMapper_init context_Background (revoke_of alice_viewer) shared =
     (None, store_world []) \<and>
   fst (guard_Require (Some (NewGuard (Some (adapter_authorizer store_adapter open_env)) None ''hub''))
     (Some alice_ctx) read_check (store_world [])) =
     Inl (denied_error alice ''aihub:skill:translator'' ''skill.read'')"
proof -
  let ?shared = "store_world [alice_policy, (''user:alice'', ''aihub:skill:translator'', ''skill.download'')]"
  let ?guard = "Some (NewGuard (Some (adapter_authorizer store_adapter open_env)) None ''hub'')"
  have role: "RoleActionsForResource roleMapper_init (sh_Resource alice_viewer)
      (strings_TrimSpace (sh_Role alice_viewer)) (sh_Actions alice_viewer) =
      Inr [''skill.read'', ''skill.download'']"
    by (simp add: alice_viewer_def DefaultRoleActionMapper_def trim_eval)
  have "guard_Require ?guard (Some alice_ctx) read_check ?shared = (Inr alice, ?shared) \<and>
    guard_Require ?guard (Some alice_ctx) read_check (store_world []) =
      (Inl (denied_error alice (ac_Resource read_check) (ac_Action read_check)), store_world [])"
    by (rule share_lifecycle [OF store.casdoor_acl_axioms alice_life_runs(1) [of context_Background] role _ _ _ _ _
          alice_life_runs(2,3) alice_guard_denied_run(2)])
      (simp_all add: alice_ctx_def alice_viewer_def read_check_def alice_def principal_Subject_def
        permission_Subject_def trim_eval)
  with alice_life_runs(3) [of context_Background] show ?thesis
    by (intro exI [of _ ?shared]) (simp add: read_check_def)
qed

end
